theory Spec2Isabelle
  imports Complex_Main
begin

section \<open>Galactic Defender: Omega -- the simulation core of script.js\<close>

text \<open>
  A shallow embedding of the simulation classes of \<^verbatim>\<open>src/script.js\<close>: \<^verbatim>\<open>Entity\<close>,
  \<^verbatim>\<open>Player\<close>, \<^verbatim>\<open>Bullet\<close>, \<^verbatim>\<open>Enemy\<close>, \<^verbatim>\<open>Particle\<close> and \<^verbatim>\<open>Game\<close>.

  Conventions of the embedding.
  \<^item> A JavaScript number that holds a position, a size, a speed, a time or a health value
    is a \<open>real\<close>: IEEE-754 rounding, NaN and the infinities are not modelled, so every
    statement below is about exact arithmetic. The score and the wave counter only ever
    hold integers (sums of 10, 30, 500; increments by one) and are \<open>int\<close>.
  \<^item> A class is a record; a subclass extends the record of its superclass. A method takes
    the receiver (\<open>this\<close>) and the game it belongs to, and returns what it has mutated.
    Where two classes use the same field name the later record carries a prefix
    (\<open>b_speed\<close>, \<open>e_hp\<close>, \<open>p_x\<close>, \<open>g_width\<close>).
  \<^item> \<^verbatim>\<open>Math.random()\<close> reads the next value of a stream held in the game state.
  \<^item> The UI sink is a log of the calls made to it; \<^verbatim>\<open>setTimeout\<close> appends to a list of
    pending timers. The audio sink has no state the simulation reads and is left out,
    except that \<^verbatim>\<open>AudioManager.explosion\<close> consumes random numbers.
  \<^item> The image of an entity and the colour of a bullet play no role in the simulation and
    are left out.
\<close>

subsection \<open>Entity (script.js, lines 58-97)\<close>

record entity =
  x :: real
  y :: real
  width :: real
  height :: real
  markedForDeletion :: bool

text \<open>\<^verbatim>\<open>Entity.checkCollision(rect)\<close>, lines 86-96.\<close>

definition checkCollision :: "'a entity_scheme \<Rightarrow> 'b entity_scheme \<Rightarrow> bool" where
  "checkCollision this rect =
     (let marginX = width this * 0.1;
          marginY = height this * 0.1
      in x this + marginX < x rect + width rect - (width rect * 0.1) \<and>
         x this + width this - marginX > x rect + (width rect * 0.1) \<and>
         y this + marginY < y rect + height rect - (height rect * 0.1) \<and>
         y this + height this - marginY > y rect + (height rect * 0.1))"

text \<open>
  The wording of the specification, for comparison with the code: a rectangle shrunk
  inward by 10% of its width on each horizontal side and 10% of its height on each
  vertical side, as (left, right, top, bottom), and the overlap of two such boxes with
  strict inequality on both axes.
\<close>

definition shrunk :: "'a entity_scheme \<Rightarrow> real \<times> real \<times> real \<times> real" where
  "shrunk r = (x r + width r / 10, x r + width r - width r / 10,
               y r + height r / 10, y r + height r - height r / 10)"

fun overlap_strict :: "real \<times> real \<times> real \<times> real \<Rightarrow> real \<times> real \<times> real \<times> real \<Rightarrow> bool" where
  "overlap_strict (l1, r1, t1, b1) (l2, r2, t2, b2) =
     (l1 < r2 \<and> l2 < r1 \<and> t1 < b2 \<and> t2 < b1)"

definition box :: "real \<Rightarrow> real \<Rightarrow> real \<Rightarrow> real \<Rightarrow> entity" where
  "box bx byy bw bh = \<lparr>x = bx, y = byy, width = bw, height = bh, markedForDeletion = False\<rparr>"

subsection \<open>Player, Bullet, Enemy and Particle: the data (lines 99-109, 193-198, 216-255, 294-305)\<close>

record player = entity +
  speed :: real
  shootTimer :: real
  shootInterval :: real
  hp :: real
  maxHp :: real

record bullet = entity +
  b_speed :: real

datatype enemy_type = Scout | Fighter | Boss

text \<open>The field \<^verbatim>\<open>angle\<close> of an enemy is written once (0) and never read; it is left out.\<close>

record enemy = entity +
  etype :: enemy_type
  e_hp :: real
  scoreValue :: int
  speedX :: real
  speedY :: real

datatype colour = Css string | Hsl real

record particle =
  p_x :: real
  p_y :: real
  p_size :: real
  p_speedX :: real
  p_speedY :: real
  p_color :: colour
  p_life :: real
  p_marked :: bool

subsection \<open>Game: the data (lines 533-566)\<close>

datatype game_state = MENU | PLAYING | VICTORY | GAME_OVER

datatype ui_call =
    ShowStartScreen
  | ShowGameUI
  | ShowGameOver int int
  | ShowVictory int
  | TogglePause bool
  | ToggleCheatIndicator bool
  | UpdateScore int
  | UpdateWave int
  | UpdateHp real real

text \<open>
  The callbacks handed to \<^verbatim>\<open>setTimeout\<close>: the delayed victory (line 284) and the kill of
  one enemy of the chain reaction (line 657), which captures the enemy object; the model
  keeps the index the enemy had in \<^verbatim>\<open>game.enemies\<close> when the timer was set.
\<close>

datatype callback = VictoryCallback | ChainCallback nat

datatype error = TypeError

text \<open>
  \<open>keys\<close> is \<^verbatim>\<open>input.keys\<close>. \<open>rand\<close> and \<open>rand_pos\<close> are the stream behind
  \<^verbatim>\<open>Math.random()\<close> and the number of values read so far. \<open>explosionDraws\<close> is the
  number of values one call of \<^verbatim>\<open>audio.explosion()\<close> reads (0 when muted, the size of its
  noise buffer otherwise). \<open>timers\<close> holds the delay in ms and the callback of every
  \<^verbatim>\<open>setTimeout\<close> call; \<open>ui\<close> is the log of calls to the UI manager.
\<close>

record game =
  g_width :: real
  g_height :: real
  player :: "player option"
  bullets :: "bullet list"
  enemies :: "enemy list"
  particles :: "particle list"
  score :: int
  wave :: int
  isRunning :: bool
  isPaused :: bool
  cheatMode :: bool
  gameState :: game_state
  enemyTimer :: real
  enemyInterval :: real
  backgroundY :: real
  keys :: "string \<Rightarrow> bool"
  rand :: "nat \<Rightarrow> real"
  rand_pos :: nat
  explosionDraws :: nat
  timers :: "(real \<times> callback) list"
  ui :: "ui_call list"

definition Math_random :: "game \<Rightarrow> real \<times> game" where
  "Math_random g = (rand g (rand_pos g), g\<lparr>rand_pos := rand_pos g + 1\<rparr>)"

definition audio_explosion :: "game \<Rightarrow> game" where
  "audio_explosion g = g\<lparr>rand_pos := rand_pos g + explosionDraws g\<rparr>"

definition ui_call :: "ui_call \<Rightarrow> game \<Rightarrow> game" where
  "ui_call c g = g\<lparr>ui := ui g @ [c]\<rparr>"

definition setTimeout :: "callback \<Rightarrow> real \<Rightarrow> game \<Rightarrow> game" where
  "setTimeout cb delay g = g\<lparr>timers := timers g @ [(delay, cb)]\<rparr>"

text \<open>\<^verbatim>\<open>InputHandler.isDown(code)\<close>, lines 52-54.\<close>

definition isDown :: "game \<Rightarrow> string \<Rightarrow> bool" where
  "isDown g code = (keys g code = True)"

subsection \<open>Particle (lines 294-323)\<close>

text \<open>
  The constructor. \<^verbatim>\<open>color || `hsl(...)`\<close> calls \<^verbatim>\<open>Math.random()\<close> only when \<open>color\<close> is
  falsy: \<^verbatim>\<open>null\<close> (\<open>None\<close>) or the empty string.
\<close>

definition Particle_new :: "real \<Rightarrow> real \<Rightarrow> string option \<Rightarrow> game \<Rightarrow> particle \<times> game" where
  "Particle_new px py color g =
     (let (r1, g1) = Math_random g;
          (r2, g2) = Math_random g1;
          (r3, g3) = Math_random g2;
          (c, g4) = (case color of
                       None \<Rightarrow> (let (r4, g') = Math_random g3 in (Hsl (r4 * 60 + 180), g'))
                     | Some s \<Rightarrow> (if s = [] then (let (r4, g') = Math_random g3 in (Hsl (r4 * 60 + 180), g'))
                                 else (Css s, g3)))
      in (\<lparr>p_x = px, p_y = py, p_size = r1 * 5 + 2, p_speedX = r2 * 200 - 100,
           p_speedY = r3 * 200 - 100, p_color = c, p_life = 1, p_marked = False\<rparr>, g4))"

definition Particle_update :: "real \<Rightarrow> particle \<Rightarrow> particle" where
  "Particle_update deltaTime p =
     (let p1 = p\<lparr>p_x := p_x p + p_speedX p * deltaTime\<rparr>;
          p2 = p1\<lparr>p_y := p_y p1 + p_speedY p1 * deltaTime\<rparr>;
          p3 = p2\<lparr>p_life := p_life p2 - deltaTime * 2\<rparr>
      in if p_life p3 \<le> 0 then p3\<lparr>p_marked := True\<rparr> else p3)"

subsection \<open>Game: state changes, explosions, timers (lines 638-664)\<close>

definition gameOver :: "game \<Rightarrow> game" where
  "gameOver g = (let g1 = g\<lparr>gameState := GAME_OVER\<rparr> in ui_call (ShowGameOver (score g1) (wave g1)) g1)"

definition victory :: "game \<Rightarrow> game" where
  "victory g = (let g1 = g\<lparr>gameState := VICTORY\<rparr> in ui_call (ShowVictory (score g1)) g1)"

text \<open>The loop of \<^verbatim>\<open>createExplosion\<close>, line 650: \<open>count\<close> particles are pushed, one after another.\<close>

primrec pushParticles :: "nat \<Rightarrow> real \<Rightarrow> real \<Rightarrow> string option \<Rightarrow> game \<Rightarrow> game" where
  "pushParticles 0 px py color g = g"
| "pushParticles (Suc n) px py color g =
     (let (p, g1) = Particle_new px py color g
      in pushParticles n px py color (g1\<lparr>particles := particles g1 @ [p]\<rparr>))"

text \<open>\<^verbatim>\<open>createExplosion(x, y, count = 10, color = null)\<close>: the callers that omit an argument pass the default.\<close>

definition createExplosion :: "real \<Rightarrow> real \<Rightarrow> nat \<Rightarrow> string option \<Rightarrow> game \<Rightarrow> game" where
  "createExplosion px py count color g = pushParticles count px py color (audio_explosion g)"

text \<open>\<^verbatim>\<open>triggerChainReaction\<close>: one timer per element of \<^verbatim>\<open>enemies\<close>, at \<open>index * 100\<close> ms.\<close>

definition triggerChainReaction :: "game \<Rightarrow> game" where
  "triggerChainReaction g =
     fold (\<lambda>index. setTimeout (ChainCallback index) (real index * 100)) [0..<length (enemies g)] g"

subsection \<open>Bullet (lines 193-214)\<close>

definition Bullet_new :: "real \<Rightarrow> real \<Rightarrow> real \<Rightarrow> bullet" where
  "Bullet_new bx byy sp =
     \<lparr>x = bx, y = byy, width = 5, height = 15, markedForDeletion = False, b_speed = sp\<rparr>"

definition Bullet_update :: "real \<Rightarrow> game \<Rightarrow> bullet \<Rightarrow> bullet" where
  "Bullet_update deltaTime g b =
     (let b1 = b\<lparr>y := y b + b_speed b * deltaTime\<rparr>
      in if y b1 < 0 \<or> y b1 > g_height g then b1\<lparr>markedForDeletion := True\<rparr> else b1)"

subsection \<open>Enemy (lines 216-292)\<close>

definition Enemy_new :: "real \<Rightarrow> real \<Rightarrow> enemy_type \<Rightarrow> game \<Rightarrow> enemy \<times> game" where
  "Enemy_new ex ey ty g =
     (let (w, h, hp0, sc) = (case ty of
                               Fighter \<Rightarrow> (50, 50, 3, 30)
                             | Boss \<Rightarrow> (120, 100, 50, 500)
                             | Scout \<Rightarrow> (40, 40, 1, 10));
          e = \<lparr>x = ex, y = ey, width = w, height = h, markedForDeletion = False,
               etype = ty, e_hp = hp0, scoreValue = sc, speedX = 0, speedY = 100\<rparr>
      in case ty of
           Scout \<Rightarrow> (let (r, g1) = Math_random g
                     in (e\<lparr>speedY := 150, speedX := (if r < 0.5 then - 50 else 50)\<rparr>, g1))
         | Fighter \<Rightarrow> (e\<lparr>speedY := 80\<rparr>, g)
         | Boss \<Rightarrow> (e\<lparr>speedY := 20\<rparr>, g))"

definition Enemy_update :: "real \<Rightarrow> game \<Rightarrow> enemy \<Rightarrow> enemy" where
  "Enemy_update deltaTime g e =
     (let e1 = e\<lparr>y := y e + speedY e * deltaTime\<rparr>;
          e2 = e1\<lparr>x := x e1 + speedX e1 * deltaTime\<rparr>;
          e3 = (if x e2 \<le> 0 \<or> x e2 + width e2 \<ge> g_width g
                then e2\<lparr>speedX := speedX e2 * - 1\<rparr> else e2)
      in if y e3 > g_height g then e3\<lparr>markedForDeletion := True\<rparr> else e3)"

text \<open>
  \<^verbatim>\<open>Enemy.takeDamage(amount)\<close>, lines 272-291. The receiver is the element \<open>i\<close> of
  \<^verbatim>\<open>game.enemies\<close>: every call in the program is on an element of that array, and the
  method mutates it in place.
\<close>

definition Enemy_takeDamage :: "nat \<Rightarrow> real \<Rightarrow> game \<Rightarrow> game" where
  "Enemy_takeDamage i amount g =
     (let e = (enemies g ! i)\<lparr>e_hp := e_hp (enemies g ! i) - amount\<rparr>;
          g1 = g\<lparr>enemies := (enemies g)[i := e]\<rparr>
      in if e_hp e \<le> 0 then
           (let e' = e\<lparr>markedForDeletion := True\<rparr>;
                g2 = g1\<lparr>enemies := (enemies g1)[i := e']\<rparr>;
                g3 = g2\<lparr>score := score g2 + scoreValue e'\<rparr>;
                g4 = ui_call (UpdateScore (score g3)) g3
            in if etype e' = Boss then
                 setTimeout VictoryCallback 2000
                   (triggerChainReaction
                     (createExplosion (x e' + width e' / 2) (y e' + height e' / 2) 100 (Some ''#ff0055'') g4))
               else createExplosion (x e' + width e' / 2) (y e' + height e' / 2) 10 None g4)
         else g1)"

subsection \<open>Player (lines 99-191)\<close>

definition Player_new :: "game \<Rightarrow> player" where
  "Player_new g =
     (let p = \<lparr>x = 0, y = 0, width = 60, height = 60, markedForDeletion = False,
               speed = 0, shootTimer = 0, shootInterval = 0, hp = 0, maxHp = 0\<rparr>;
          p1 = p\<lparr>x := g_width g / 2 - width p / 2\<rparr>;
          p2 = p1\<lparr>y := g_height g - height p1 - 20\<rparr>
      in p2\<lparr>speed := 400, shootTimer := 0, shootInterval := 0.2, hp := 100, maxHp := 100\<rparr>)"

definition Player_updateManual :: "real \<Rightarrow> game \<Rightarrow> player \<Rightarrow> player" where
  "Player_updateManual deltaTime g p =
     (let p1 = (if isDown g ''ArrowLeft'' \<or> isDown g ''KeyA''
                then p\<lparr>x := x p - speed p * deltaTime\<rparr> else p);
          p2 = (if isDown g ''ArrowRight'' \<or> isDown g ''KeyD''
                then p1\<lparr>x := x p1 + speed p1 * deltaTime\<rparr> else p1);
          p3 = (if isDown g ''ArrowUp'' \<or> isDown g ''KeyW''
                then p2\<lparr>y := y p2 - speed p2 * deltaTime\<rparr> else p2)
      in if isDown g ''ArrowDown'' \<or> isDown g ''KeyS''
         then p3\<lparr>y := y p3 + speed p3 * deltaTime\<rparr> else p3)"

text \<open>
  The search of \<^verbatim>\<open>updateAI\<close>, lines 147-156. The accumulator is
  (\<^verbatim>\<open>nearestEnemy\<close>, \<^verbatim>\<open>minDistance\<close>); \<open>None\<close> stands for \<^verbatim>\<open>null\<close> and for \<^verbatim>\<open>Infinity\<close>,
  below which every distance lies.
\<close>

definition nearest_step :: "player \<Rightarrow> enemy \<Rightarrow> enemy option \<times> real option \<Rightarrow> enemy option \<times> real option" where
  "nearest_step p e acc =
     (let dist = \<bar>x e - x p\<bar>
      in if (case snd acc of None \<Rightarrow> True | Some minDistance \<Rightarrow> dist < minDistance)
         then (Some e, Some dist) else acc)"

definition Player_updateAI :: "real \<Rightarrow> game \<Rightarrow> player \<Rightarrow> player" where
  "Player_updateAI deltaTime g p =
     (case fst (fold (nearest_step p) (enemies g) (None, None)) of
        Some nearestEnemy \<Rightarrow>
          (if x p + width p / 2 < x nearestEnemy + width nearestEnemy / 2 - 10
           then p\<lparr>x := x p + speed p * deltaTime\<rparr>
           else if x p + width p / 2 > x nearestEnemy + width nearestEnemy / 2 + 10
           then p\<lparr>x := x p - speed p * deltaTime\<rparr>
           else p)
      | None \<Rightarrow>
          (if x p + width p / 2 < g_width g / 2
           then p\<lparr>x := x p + speed p * deltaTime\<rparr>
           else p\<lparr>x := x p - speed p * deltaTime\<rparr>))"

definition Player_shoot :: "player \<Rightarrow> game \<Rightarrow> game" where
  "Player_shoot p g =
     (let bulletX = x p + width p / 2 - 2.5;
          bulletY = y p
      in g\<lparr>bullets := bullets g @ [Bullet_new bulletX bulletY (- 600)]\<rparr>)"

text \<open>\<^verbatim>\<open>Player.update(deltaTime)\<close>, lines 111-128: the updated player and the game (a bullet may have been pushed).\<close>

definition Player_update :: "real \<Rightarrow> player \<Rightarrow> game \<Rightarrow> player \<times> game" where
  "Player_update deltaTime p g =
     (let p1 = (if cheatMode g then Player_updateAI deltaTime g p
                else Player_updateManual deltaTime g p);
          p2 = p1\<lparr>x := max 0 (min (g_width g - width p1) (x p1))\<rparr>;
          p3 = p2\<lparr>y := max 0 (min (g_height g - height p2) (y p2))\<rparr>;
          p4 = (if shootTimer p3 > 0 then p3\<lparr>shootTimer := shootTimer p3 - deltaTime\<rparr> else p3)
      in if (isDown g ''Space'' \<or> cheatMode g) \<and> shootTimer p4 \<le> 0
         then (p4\<lparr>shootTimer := shootInterval p4\<rparr>, Player_shoot p4 g)
         else (p4, g))"

text \<open>\<^verbatim>\<open>Player.takeDamage(amount)\<close>, lines 182-190.\<close>

definition Player_takeDamage :: "real \<Rightarrow> player \<Rightarrow> game \<Rightarrow> player \<times> game" where
  "Player_takeDamage amount p g =
     (if cheatMode g then (p, g)
      else
        let p1 = p\<lparr>hp := hp p - amount\<rparr>;
            (p2, g2) = (if hp p1 \<le> 0 then (p1\<lparr>hp := 0\<rparr>, gameOver g) else (p1, g))
        in (p2, ui_call (UpdateHp (hp p2) (maxHp p2)) g2))"

subsection \<open>Game: spawning, collisions, the frame (lines 666-763)\<close>

definition spawnEnemy :: "game \<Rightarrow> game" where
  "spawnEnemy g =
     (let (r1, g1) = Math_random g;
          ex = r1 * (g_width g1 - 50);
          (r2, g2) = Math_random g1;
          ty = (if r2 < 0.3 + (of_int (wave g2) * 0.05) then Fighter else Scout);
          (e, g3) = Enemy_new ex (- 50) ty g2
      in g3\<lparr>enemies := enemies g3 @ [e]\<rparr>)"

definition spawnBoss :: "game \<Rightarrow> game" where
  "spawnBoss g =
     (if \<not> list_ex (\<lambda>e. etype e = Boss) (enemies g)
      then (let (e, g1) = Enemy_new (g_width g / 2 - 60) (- 100) Boss g
            in g1\<lparr>enemies := enemies g1 @ [e]\<rparr>)
      else g)"

text \<open>
  The body of the inner loop of lines 725-732, for the bullet at index \<open>j\<close> and the enemy at
  index \<open>i\<close>. \<^verbatim>\<open>forEach\<close> visits the indices below the length in order, and nothing in the
  body changes the length of either array.
\<close>

definition bulletHitsEnemy :: "nat \<Rightarrow> nat \<Rightarrow> game \<Rightarrow> game" where
  "bulletHitsEnemy j i g =
     (if checkCollision (bullets g ! j) (enemies g ! i)
      then Enemy_takeDamage i 1
             (g\<lparr>bullets := (bullets g)[j := (bullets g ! j)\<lparr>markedForDeletion := True\<rparr>]\<rparr>)
      else g)"

definition bulletsHitEnemies :: "game \<Rightarrow> game" where
  "bulletsHitEnemies g =
     fold (\<lambda>j g'. fold (bulletHitsEnemy j) [0..<length (enemies g')] g') [0..<length (bullets g)] g"

text \<open>
  The body of the loop of lines 735-741, for the enemy at index \<open>i\<close>. The player object is
  carried beside the game and written back by \<open>checkCollisions\<close>.
\<close>

definition enemyHitsPlayer :: "nat \<Rightarrow> player \<times> game \<Rightarrow> player \<times> game" where
  "enemyHitsPlayer i pg =
     (let p = fst pg; g = snd pg
      in if checkCollision (enemies g ! i) p
         then (let e = (enemies g ! i)\<lparr>markedForDeletion := True\<rparr>;
                   g1 = g\<lparr>enemies := (enemies g)[i := e]\<rparr>;
                   (p', g2) = Player_takeDamage 20 p g1
               in (p', createExplosion (x e) (y e) 10 None g2))
         else (p, g))"

definition enemiesHitPlayer :: "player \<Rightarrow> game \<Rightarrow> player \<times> game" where
  "enemiesHitPlayer p g = fold enemyHitsPlayer [0..<length (enemies g)] (p, g)"

text \<open>
  \<^verbatim>\<open>checkCollisions()\<close>, lines 723-742. With \<^verbatim>\<open>this.player\<close> null the first enemy of the
  second loop raises a TypeError (\<^verbatim>\<open>rect.x\<close> of null).
\<close>

definition checkCollisions :: "game \<Rightarrow> error + game" where
  "checkCollisions g =
     (let g1 = bulletsHitEnemies g
      in case player g1 of
           None \<Rightarrow> (if enemies g1 = [] then Inr g1 else Inl TypeError)
         | Some p \<Rightarrow> (let (p', g2) = enemiesHitPlayer p g1 in Inr (g2\<lparr>player := Some p'\<rparr>)))"

text \<open>The blocks of \<^verbatim>\<open>update(deltaTime)\<close>, lines 666-708, in the order of the source.\<close>

definition scrollBackground :: "real \<Rightarrow> game \<Rightarrow> game" where
  "scrollBackground deltaTime g =
     (let g1 = g\<lparr>backgroundY := backgroundY g + 50 * deltaTime\<rparr>
      in if backgroundY g1 \<ge> g_height g1 then g1\<lparr>backgroundY := 0\<rparr> else g1)"

definition updateParticles :: "real \<Rightarrow> game \<Rightarrow> game" where
  "updateParticles deltaTime g =
     (let g1 = g\<lparr>particles := map (Particle_update deltaTime) (particles g)\<rparr>
      in g1\<lparr>particles := filter (\<lambda>p. \<not> p_marked p) (particles g1)\<rparr>)"

definition updatePlayer :: "real \<Rightarrow> player \<Rightarrow> game \<Rightarrow> game" where
  "updatePlayer deltaTime p g = (let (p', g1) = Player_update deltaTime p g in g1\<lparr>player := Some p'\<rparr>)"

definition updateBullets :: "real \<Rightarrow> game \<Rightarrow> game" where
  "updateBullets deltaTime g =
     (let g1 = g\<lparr>bullets := map (Bullet_update deltaTime g) (bullets g)\<rparr>
      in g1\<lparr>bullets := filter (\<lambda>b. \<not> markedForDeletion b) (bullets g1)\<rparr>)"

definition updateEnemies :: "real \<Rightarrow> game \<Rightarrow> game" where
  "updateEnemies deltaTime g =
     (let g1 = g\<lparr>enemyTimer := enemyTimer g - deltaTime\<rparr>;
          g2 = (if enemyTimer g1 \<le> 0
                then (let g' = spawnEnemy g1 in g'\<lparr>enemyTimer := enemyInterval g'\<rparr>)
                else g1);
          g3 = g2\<lparr>enemies := map (Enemy_update deltaTime g2) (enemies g2)\<rparr>
      in g3\<lparr>enemies := filter (\<lambda>e. \<not> markedForDeletion e) (enemies g3)\<rparr>)"

text \<open>The interval computed at line 701 for the wave just reached.\<close>

definition waveInterval :: "int \<Rightarrow> real" where
  "waveInterval w = max 0.5 (1.5 - (of_int w * 0.1))"

definition waveProgression :: "game \<Rightarrow> game" where
  "waveProgression g =
     (if score g > wave g * 500
      then (let g1 = g\<lparr>wave := wave g + 1\<rparr>;
                g2 = ui_call (UpdateWave (wave g1)) g1;
                g3 = g2\<lparr>enemyInterval := waveInterval (wave g2)\<rparr>
            in if wave g3 mod 5 = 0 then spawnBoss g3 else g3)
      else g)"

text \<open>
  The state handed to the collision pass of a frame in the state PLAYING: the player,
  the bullets and the enemies have had their update, and each collection its filter.
\<close>

definition updateEntities :: "real \<Rightarrow> player \<Rightarrow> game \<Rightarrow> game" where
  "updateEntities deltaTime p g = updateEnemies deltaTime (updateBullets deltaTime (updatePlayer deltaTime p g))"

text \<open>
  \<^verbatim>\<open>update(deltaTime)\<close>. With \<^verbatim>\<open>this.player\<close> null, line 679 raises a TypeError
  (\<^verbatim>\<open>loop\<close> catches it and stops the game).
\<close>

definition update :: "real \<Rightarrow> game \<Rightarrow> error + game" where
  "update deltaTime g =
     (if \<not> isRunning g \<or> isPaused g then Inr g
      else
        let g1 = scrollBackground deltaTime g;
            g2 = updateParticles deltaTime g1
        in if gameState g2 = PLAYING then
             (case player g2 of
                None \<Rightarrow> Inl TypeError
              | Some p \<Rightarrow>
                  (case checkCollisions (updateEntities deltaTime p g2) of
                     Inl e \<Rightarrow> Inl e
                   | Inr g3 \<Rightarrow> Inr (waveProgression g3)))
           else Inr g2)"

text \<open>
  \<^verbatim>\<open>draw()\<close>, lines 744-763, as the list of entities whose \<^verbatim>\<open>draw\<close> method it calls, in
  order (the background blit is left out).
\<close>

datatype draw_call = DrawPlayer player | DrawBullet bullet | DrawEnemy enemy | DrawParticle particle

definition draw :: "game \<Rightarrow> draw_call list" where
  "draw g =
     (if gameState g = PLAYING
      then (case player g of None \<Rightarrow> [] | Some p \<Rightarrow> [DrawPlayer p])
           @ map DrawBullet (bullets g) @ map DrawEnemy (enemies g)
      else [])
     @ map DrawParticle (particles g)"

text \<open>The constructor of \<^verbatim>\<open>Game\<close> (lines 534-566) and \<^verbatim>\<open>start()\<close> (lines 615-632).\<close>

definition Game_new :: "real \<Rightarrow> real \<Rightarrow> (nat \<Rightarrow> real) \<Rightarrow> nat \<Rightarrow> game" where
  "Game_new w h rnd draws =
     \<lparr>g_width = w, g_height = h, player = None, bullets = [], enemies = [], particles = [],
      score = 0, wave = 1, isRunning = False, isPaused = False, cheatMode = False,
      gameState = MENU, enemyTimer = 0, enemyInterval = 1.5, backgroundY = 0,
      keys = (\<lambda>code. False), rand = rnd, rand_pos = 0, explosionDraws = draws,
      timers = [], ui = []\<rparr>"

definition start :: "game \<Rightarrow> game" where
  "start g =
     (let g1 = g\<lparr>isRunning := True, isPaused := False, gameState := PLAYING, score := 0, wave := 1\<rparr>;
          g2 = g1\<lparr>player := Some (Player_new g1)\<rparr>;
          g3 = g2\<lparr>bullets := [], enemies := [], particles := []\<rparr>
      in ui_call (UpdateHp 100 100) (ui_call (UpdateWave 1) (ui_call (UpdateScore 0) (ui_call ShowGameUI g3))))"

subsection \<open>Example states\<close>

text \<open>
  A game of 800 x 600 (line 785) just started, with a random stream that is constantly
  1/2 and a muted audio sink; a constructed enemy; and that game with given bullets and
  enemies on the field.
\<close>

definition demo_game :: game where
  "demo_game = start (Game_new 800 600 (\<lambda>n. 1 / 2) 0)"

definition mkEnemy :: "real \<Rightarrow> real \<Rightarrow> enemy_type \<Rightarrow> enemy" where
  "mkEnemy ex ey ty = fst (Enemy_new ex ey ty demo_game)"

definition field :: "bullet list \<Rightarrow> enemy list \<Rightarrow> game" where
  "field bs es = demo_game\<lparr>bullets := bs, enemies := es\<rparr>"

subsection \<open>Auxiliary notions of the proofs\<close>

text \<open>The rectangle of an entity: all that the collision test reads.\<close>

definition geom :: "'a entity_scheme \<Rightarrow> real \<times> real \<times> real \<times> real" where
  "geom e = (x e, y e, width e, height e)"

definition demo_player :: player where
  "demo_player = Player_new demo_game"

text \<open>
  A sequence of \<^verbatim>\<open>takeDamage\<close> calls on the player, and the number of times \<^verbatim>\<open>gameOver()\<close>
  has run, read off the UI log (each run logs one \<open>ShowGameOver\<close>).
\<close>

definition takeDamages :: "real list \<Rightarrow> player \<times> game \<Rightarrow> player \<times> game" where
  "takeDamages amounts pg = fold (\<lambda>amount pg'. Player_takeDamage amount (fst pg') (snd pg')) amounts pg"

fun is_ShowGameOver :: "ui_call \<Rightarrow> bool" where
  "is_ShowGameOver (ShowGameOver s w) = True"
| "is_ShowGameOver c = False"

definition gameOverCalls :: "game \<Rightarrow> nat" where
  "gameOverCalls g = length (filter is_ShowGameOver (ui g))"

text \<open>
  A run of frames: \<^verbatim>\<open>loop\<close> (lines 765-781) calls \<^verbatim>\<open>update\<close> with the time since the last
  frame and then \<^verbatim>\<open>draw\<close>, which changes nothing; an exception ends the run.
\<close>

fun frames :: "real list \<Rightarrow> game \<Rightarrow> error + game" where
  "frames [] g = Inr g"
| "frames (deltaTime # rest) g =
     (case update deltaTime g of Inl e \<Rightarrow> Inl e | Inr g' \<Rightarrow> frames rest g')"

text \<open>
  The spawn interval that goes with the wave counter in a run that has not been
  restarted: the constructor's 1.5 while the wave is 1, the value computed at line 701 for
  every later wave.
\<close>

definition interval_ok :: "game \<Rightarrow> bool" where
  "interval_ok g =
     (1 \<le> wave g \<and> enemyInterval g = (if wave g = 1 then 1.5 else waveInterval (wave g)))"

text \<open>From wave 2 on, the spawn interval is the value computed at line 701 for the wave.\<close>

definition interval_set :: "game \<Rightarrow> bool" where
  "interval_set g = (2 \<le> wave g \<longrightarrow> enemyInterval g = waveInterval (wave g))"

definition demo_particle :: particle where
  "demo_particle = fst (Particle_new 100 100 None demo_game)"

text \<open>A fresh game with a bullet just below the hitbox of a Fighter, and no spawn due.\<close>

definition hit_game :: game where
  "hit_game = (field [Bullet_new 112 116 (- 600)] [mkEnemy 100 100 Fighter])\<lparr>enemyTimer := 10\<rparr>"

text \<open>
  A fresh game with no spawn due, a player with 20 hit points left, and a Scout inside
  the hitbox of the player.
\<close>

definition rammed_game :: game where
  "rammed_game =
     (field [] [mkEnemy 380 530 Scout])\<lparr>enemyTimer := 10, player := Some (demo_player\<lparr>hp := 20\<rparr>)\<rparr>"

section \<open>Collision geometry\<close>

lemma checkCollision_iff:
  "checkCollision a b \<longleftrightarrow>
     x a + width a / 10 < x b + width b - width b / 10 \<and>
     x b + width b / 10 < x a + width a - width a / 10 \<and>
     y a + height a / 10 < y b + height b - height b / 10 \<and>
     y b + height b / 10 < y a + height a - height a / 10"
  by (simp add: checkCollision_def Let_def)

lemma checkCollision_sym: "checkCollision a b = checkCollision b a"
  by (auto simp: checkCollision_iff)

text \<open>
  C3. For all axis-aligned rectangles A and B the collision test is true iff the two
  rectangles, each shrunk inward by 10% of its own width on each horizontal side and 10%
  of its own height on each vertical side, overlap with strict inequality on both axes;
  two 40 x 40 boxes that are exactly edge-adjacent (A.x + 40 = B.x, same y) do not
  collide.
\<close>

theorem checkCollision_shrunk_overlap:
  "(checkCollision a b \<longleftrightarrow> overlap_strict (shrunk a) (shrunk b)) \<and>
   (width a = 40 \<and> height a = 40 \<and> width b = 40 \<and> height b = 40 \<and>
    x a + 40 = x b \<and> y a = y b \<longrightarrow> \<not> checkCollision a b)"
  by (auto simp: checkCollision_iff shrunk_def)

theorem checkCollision_shrunk_overlap_witness:
  "checkCollision (box 0 0 40 40) (box 30 0 40 40) \<and>
   overlap_strict (shrunk (box 0 0 40 40)) (shrunk (box 30 0 40 40)) \<and>
   \<not> checkCollision (box 0 0 40 40) (box 40 0 40 40)"
  using checkCollision_shrunk_overlap [of "box 0 0 40 40" "box 30 0 40 40"]
        checkCollision_shrunk_overlap [of "box 0 0 40 40" "box 40 0 40 40"]
  by (simp add: box_def shrunk_def)

section \<open>Explosions, timers and damage to a hostile: what they change\<close>

text \<open>A property that holds before a loop and is kept by every iteration holds after it.\<close>

lemma fold_invariant:
  assumes "P s" and "\<And>a s. a \<in> set xs \<Longrightarrow> P s \<Longrightarrow> P (f a s)"
  shows "P (fold f xs s)"
  using assms by (induction xs arbitrary: s) auto

lemma Particle_new_shape:
  "\<exists>p k. Particle_new px py c g = (p, g\<lparr>rand_pos := k\<rparr>) \<and> \<not> p_marked p \<and> p_x p = px \<and> p_y p = py \<and> p_life p = 1"
  by (auto simp: Particle_new_def Math_random_def Let_def split: option.splits)

lemma pushParticles_shape:
  "\<exists>ps k. pushParticles n px py c g = g\<lparr>particles := particles g @ ps, rand_pos := k\<rparr> \<and>
     length ps = n \<and> (\<forall>p\<in>set ps. \<not> p_marked p \<and> p_x p = px \<and> p_y p = py \<and> p_life p = 1)"
proof (induction n arbitrary: g)
  case 0
  have "g = g\<lparr>particles := particles g @ [], rand_pos := rand_pos g\<rparr>" by simp
  then show ?case by (metis length_0_conv empty_iff list.set(1) pushParticles.simps(1))
next
  case (Suc n)
  obtain p k where pk: "Particle_new px py c g = (p, g\<lparr>rand_pos := k\<rparr>)"
    "\<not> p_marked p" "p_x p = px" "p_y p = py" "p_life p = 1"
    using Particle_new_shape by blast
  let ?g1 = "g\<lparr>rand_pos := k, particles := particles g @ [p]\<rparr>"
  obtain ps k' where ps: "pushParticles n px py c ?g1 = ?g1\<lparr>particles := particles ?g1 @ ps, rand_pos := k'\<rparr>"
    "length ps = n" "\<forall>p\<in>set ps. \<not> p_marked p \<and> p_x p = px \<and> p_y p = py \<and> p_life p = 1"
    using Suc.IH by blast
  have "pushParticles (Suc n) px py c g = g\<lparr>particles := particles g @ (p # ps), rand_pos := k'\<rparr>"
    using pk(1) ps(1) by simp
  moreover have "length (p # ps) = Suc n" using ps(2) by simp
  moreover have "\<forall>q\<in>set (p # ps). \<not> p_marked q \<and> p_x q = px \<and> p_y q = py \<and> p_life q = 1"
    using pk ps(3) by simp
  ultimately show ?case by blast
qed

lemma createExplosion_shape:
  "\<exists>ps k. createExplosion px py n c g = g\<lparr>particles := particles g @ ps, rand_pos := k\<rparr> \<and>
     length ps = n \<and> (\<forall>p\<in>set ps. \<not> p_marked p \<and> p_x p = px \<and> p_y p = py \<and> p_life p = 1)"
proof -
  let ?g = "audio_explosion g"
  obtain ps k where "pushParticles n px py c ?g = ?g\<lparr>particles := particles ?g @ ps, rand_pos := k\<rparr>"
    "length ps = n" "\<forall>p\<in>set ps. \<not> p_marked p \<and> p_x p = px \<and> p_y p = py \<and> p_life p = 1"
    using pushParticles_shape by blast
  then show ?thesis
    unfolding createExplosion_def audio_explosion_def by (intro exI[of _ ps] exI[of _ k]) simp
qed

lemma triggerChainReaction_shape:
  "triggerChainReaction g = g\<lparr>timers := timers g @ map (\<lambda>i. (real i * 100, ChainCallback i)) [0..<length (enemies g)]\<rparr>"
proof -
  have "fold (\<lambda>index. setTimeout (ChainCallback index) (real index * 100)) xs g
        = g\<lparr>timers := timers g @ map (\<lambda>i. (real i * 100, ChainCallback i)) xs\<rparr>" for xs
    by (induction xs arbitrary: g) (simp_all add: setTimeout_def)
  then show ?thesis by (simp add: triggerChainReaction_def)
qed

lemma Enemy_takeDamage_shape:
  "\<exists>ps k. Enemy_takeDamage i a g =
      g\<lparr>enemies := (enemies g)[i := (enemies g ! i)\<lparr>e_hp := e_hp (enemies g ! i) - a,
                markedForDeletion := (e_hp (enemies g ! i) - a \<le> 0 \<or> markedForDeletion (enemies g ! i))\<rparr>],
        score := (if e_hp (enemies g ! i) - a \<le> 0 then score g + scoreValue (enemies g ! i) else score g),
        ui := (if e_hp (enemies g ! i) - a \<le> 0 then ui g @ [UpdateScore (score g + scoreValue (enemies g ! i))] else ui g),
        particles := particles g @ ps, rand_pos := k,
        timers := timers g @ (if e_hp (enemies g ! i) - a \<le> 0 \<and> etype (enemies g ! i) = Boss
                              then map (\<lambda>i. (real i * 100, ChainCallback i)) [0..<length (enemies g)] @ [(2000, VictoryCallback)]
                              else [])\<rparr>
     \<and> length ps = (if e_hp (enemies g ! i) - a \<le> 0 then (if etype (enemies g ! i) = Boss then 100 else 10) else 0)
     \<and> (\<forall>p\<in>set ps. \<not> p_marked p)"
proof (cases "e_hp (enemies g ! i) - a \<le> 0")
  case False
  then have "Enemy_takeDamage i a g =
      g\<lparr>enemies := (enemies g)[i := (enemies g ! i)\<lparr>e_hp := e_hp (enemies g ! i) - a\<rparr>]\<rparr>"
    by (simp add: Enemy_takeDamage_def Let_def)
  with False show ?thesis
    by (intro exI[of _ "[]"] exI[of _ "rand_pos g"]) simp
next
  case True
  let ?e = "(enemies g ! i)\<lparr>e_hp := e_hp (enemies g ! i) - a, markedForDeletion := True\<rparr>"
  let ?g4 = "g\<lparr>enemies := (enemies g)[i := ?e], score := score g + scoreValue (enemies g ! i),
               ui := ui g @ [UpdateScore (score g + scoreValue (enemies g ! i))]\<rparr>"
  show ?thesis
  proof (cases "etype (enemies g ! i) = Boss")
    case False
    obtain ps k where ps: "createExplosion (x ?e + width ?e / 2) (y ?e + height ?e / 2) 10 None ?g4
          = ?g4\<lparr>particles := particles ?g4 @ ps, rand_pos := k\<rparr>" "length ps = 10" "\<forall>p\<in>set ps. \<not> p_marked p"
      using createExplosion_shape by blast
    have "Enemy_takeDamage i a g = ?g4\<lparr>particles := particles ?g4 @ ps, rand_pos := k\<rparr>"
      using True False ps(1) by (simp add: Enemy_takeDamage_def Let_def ui_call_def)
    with True False ps(2,3) show ?thesis
      by (intro exI[of _ ps] exI[of _ k]) simp
  next
    case Boss: True
    obtain ps k where ps: "createExplosion (x ?e + width ?e / 2) (y ?e + height ?e / 2) 100 (Some ''#ff0055'') ?g4
          = ?g4\<lparr>particles := particles ?g4 @ ps, rand_pos := k\<rparr>" "length ps = 100" "\<forall>p\<in>set ps. \<not> p_marked p"
      using createExplosion_shape by blast
    have "Enemy_takeDamage i a g =
        setTimeout VictoryCallback 2000 (triggerChainReaction (?g4\<lparr>particles := particles ?g4 @ ps, rand_pos := k\<rparr>))"
      using True Boss ps(1) by (simp add: Enemy_takeDamage_def Let_def ui_call_def)
    with True Boss ps(2,3) show ?thesis
      by (intro exI[of _ ps] exI[of _ k]) (simp add: triggerChainReaction_shape setTimeout_def)
  qed
qed

lemma createExplosion_fields [simp]:
  "g_width (createExplosion px py n c g) = g_width g"
  "g_height (createExplosion px py n c g) = g_height g"
  "player (createExplosion px py n c g) = player g"
  "bullets (createExplosion px py n c g) = bullets g"
  "enemies (createExplosion px py n c g) = enemies g"
  "score (createExplosion px py n c g) = score g"
  "wave (createExplosion px py n c g) = wave g"
  "isRunning (createExplosion px py n c g) = isRunning g"
  "isPaused (createExplosion px py n c g) = isPaused g"
  "cheatMode (createExplosion px py n c g) = cheatMode g"
  "gameState (createExplosion px py n c g) = gameState g"
  "enemyTimer (createExplosion px py n c g) = enemyTimer g"
  "enemyInterval (createExplosion px py n c g) = enemyInterval g"
  "backgroundY (createExplosion px py n c g) = backgroundY g"
  "keys (createExplosion px py n c g) = keys g"
  "rand (createExplosion px py n c g) = rand g"
  "explosionDraws (createExplosion px py n c g) = explosionDraws g"
  "timers (createExplosion px py n c g) = timers g"
  "ui (createExplosion px py n c g) = ui g"
  using createExplosion_shape [of px py n c g] by auto

lemma Enemy_takeDamage_fields [simp]:
  "g_width (Enemy_takeDamage i a g) = g_width g"
  "g_height (Enemy_takeDamage i a g) = g_height g"
  "player (Enemy_takeDamage i a g) = player g"
  "bullets (Enemy_takeDamage i a g) = bullets g"
  "wave (Enemy_takeDamage i a g) = wave g"
  "isRunning (Enemy_takeDamage i a g) = isRunning g"
  "isPaused (Enemy_takeDamage i a g) = isPaused g"
  "cheatMode (Enemy_takeDamage i a g) = cheatMode g"
  "gameState (Enemy_takeDamage i a g) = gameState g"
  "enemyTimer (Enemy_takeDamage i a g) = enemyTimer g"
  "enemyInterval (Enemy_takeDamage i a g) = enemyInterval g"
  "backgroundY (Enemy_takeDamage i a g) = backgroundY g"
  "keys (Enemy_takeDamage i a g) = keys g"
  "rand (Enemy_takeDamage i a g) = rand g"
  "explosionDraws (Enemy_takeDamage i a g) = explosionDraws g"
  using Enemy_takeDamage_shape [of i a g] by auto

lemma enemies_Enemy_takeDamage:
  "enemies (Enemy_takeDamage i a g) =
     (enemies g)[i := (enemies g ! i)\<lparr>e_hp := e_hp (enemies g ! i) - a,
        markedForDeletion := (e_hp (enemies g ! i) - a \<le> 0 \<or> markedForDeletion (enemies g ! i))\<rparr>]"
  using Enemy_takeDamage_shape [of i a g] by auto

lemma score_Enemy_takeDamage:
  "score (Enemy_takeDamage i a g) =
     (if e_hp (enemies g ! i) - a \<le> 0 then score g + scoreValue (enemies g ! i) else score g)"
  using Enemy_takeDamage_shape [of i a g] by auto

lemma timers_Enemy_takeDamage:
  "timers (Enemy_takeDamage i a g) =
     timers g @ (if e_hp (enemies g ! i) - a \<le> 0 \<and> etype (enemies g ! i) = Boss
                 then map (\<lambda>i. (real i * 100, ChainCallback i)) [0..<length (enemies g)] @ [(2000, VictoryCallback)]
                 else [])"
  using Enemy_takeDamage_shape [of i a g] by auto

lemma ui_Enemy_takeDamage:
  "ui (Enemy_takeDamage i a g) =
     (if e_hp (enemies g ! i) - a \<le> 0 then ui g @ [UpdateScore (score g + scoreValue (enemies g ! i))] else ui g)"
  using Enemy_takeDamage_shape [of i a g] by auto

lemma particles_Enemy_takeDamage:
  "\<exists>ps. particles (Enemy_takeDamage i a g) = particles g @ ps \<and>
     length ps = (if e_hp (enemies g ! i) - a \<le> 0 then (if etype (enemies g ! i) = Boss then 100 else 10) else 0) \<and>
     (\<forall>p\<in>set ps. \<not> p_marked p)"
  using Enemy_takeDamage_shape [of i a g] by auto

lemma demo_game_simps [simp]:
  "g_width demo_game = 800" "g_height demo_game = 600"
  "score demo_game = 0" "wave demo_game = 1" "isRunning demo_game" "\<not> isPaused demo_game"
  "\<not> cheatMode demo_game" "gameState demo_game = PLAYING" "enemyInterval demo_game = 1.5"
  "enemyTimer demo_game = 0" "bullets demo_game = []" "enemies demo_game = []" "particles demo_game = []"
  "timers demo_game = []" "explosionDraws demo_game = 0" "rand demo_game = (\<lambda>n. 1 / 2)"
  "player demo_game = Some \<lparr>x = 370, y = 520, width = 60, height = 60, markedForDeletion = False,
      speed = 400, shootTimer = 0, shootInterval = 0.2, hp = 100, maxHp = 100\<rparr>"
  by (simp_all add: demo_game_def start_def Game_new_def Player_new_def ui_call_def Let_def)

lemma mkEnemy_simps [simp]:
  "mkEnemy ex ey Scout = \<lparr>x = ex, y = ey, width = 40, height = 40, markedForDeletion = False,
      etype = Scout, e_hp = 1, scoreValue = 10, speedX = 50, speedY = 150\<rparr>"
  "mkEnemy ex ey Fighter = \<lparr>x = ex, y = ey, width = 50, height = 50, markedForDeletion = False,
      etype = Fighter, e_hp = 3, scoreValue = 30, speedX = 0, speedY = 80\<rparr>"
  "mkEnemy ex ey Boss = \<lparr>x = ex, y = ey, width = 120, height = 100, markedForDeletion = False,
      etype = Boss, e_hp = 50, scoreValue = 500, speedX = 0, speedY = 20\<rparr>"
  by (simp_all add: mkEnemy_def Enemy_new_def Math_random_def Let_def)

section \<open>Damage to a hostile that is already dead\<close>

text \<open>
  C8. Calling \<^verbatim>\<open>takeDamage\<close> on a hostile whose hp is already at or below 0 runs
  the death branch again: the hostile's score value is added to the score once more, the
  hostile is (still) marked, another burst is pushed and, for a Boss, the chain reaction
  and the delayed victory are scheduled a second time.
\<close>

theorem Enemy_takeDamage_dead_again:
  assumes "e_hp (enemies g ! i) \<le> 0" and "0 \<le> amount" and "i < length (enemies g)"
  shows "score (Enemy_takeDamage i amount g) = score g + scoreValue (enemies g ! i) \<and>
         ui (Enemy_takeDamage i amount g) = ui g @ [UpdateScore (score g + scoreValue (enemies g ! i))] \<and>
         markedForDeletion (enemies (Enemy_takeDamage i amount g) ! i) \<and>
         (\<exists>ps. particles (Enemy_takeDamage i amount g) = particles g @ ps \<and>
               length ps = (if etype (enemies g ! i) = Boss then 100 else 10)) \<and>
         timers (Enemy_takeDamage i amount g) =
           timers g @ (if etype (enemies g ! i) = Boss
                       then map (\<lambda>k. (real k * 100, ChainCallback k)) [0..<length (enemies g)]
                            @ [(2000, VictoryCallback)]
                       else [])"
proof -
  have dead: "e_hp (enemies g ! i) - amount \<le> 0" using assms(1,2) by simp
  obtain ps where "particles (Enemy_takeDamage i amount g) = particles g @ ps"
    "length ps = (if etype (enemies g ! i) = Boss then 100 else 10)"
    using particles_Enemy_takeDamage [of i amount g] dead by auto
  then show ?thesis
    using dead assms(3)
    by (simp add: score_Enemy_takeDamage ui_Enemy_takeDamage enemies_Enemy_takeDamage
        timers_Enemy_takeDamage)
qed

text \<open>A Boss with one hit point left is hit twice: 500 points and a victory timer each time.\<close>

theorem Enemy_takeDamage_dead_again_witness:
  "e_hp (enemies (Enemy_takeDamage 0 1 (field [] [(mkEnemy 340 100 Boss)\<lparr>e_hp := 1\<rparr>])) ! 0) \<le> 0 \<and>
   score (Enemy_takeDamage 0 1 (field [] [(mkEnemy 340 100 Boss)\<lparr>e_hp := 1\<rparr>])) = 500 \<and>
   score (Enemy_takeDamage 0 1 (Enemy_takeDamage 0 1 (field [] [(mkEnemy 340 100 Boss)\<lparr>e_hp := 1\<rparr>]))) = 1000 \<and>
   timers (Enemy_takeDamage 0 1 (Enemy_takeDamage 0 1 (field [] [(mkEnemy 340 100 Boss)\<lparr>e_hp := 1\<rparr>]))) =
     [(0, ChainCallback 0), (2000, VictoryCallback), (0, ChainCallback 0), (2000, VictoryCallback)]"
  using Enemy_takeDamage_dead_again
    [of "Enemy_takeDamage 0 1 (field [] [(mkEnemy 340 100 Boss)\<lparr>e_hp := 1\<rparr>])" 0 1]
  by (simp add: score_Enemy_takeDamage enemies_Enemy_takeDamage timers_Enemy_takeDamage field_def)

section \<open>The collision pass: projectiles against hostiles\<close>

lemma checkCollision_marked [simp]:
  "checkCollision (a\<lparr>markedForDeletion := m\<rparr>) b = checkCollision a b"
  "checkCollision a (b\<lparr>markedForDeletion := m\<rparr>) = checkCollision a b"
  by (simp_all add: checkCollision_iff)

lemma checkCollision_hp [simp]:
  "checkCollision (e\<lparr>e_hp := h\<rparr>) b = checkCollision e b"
  "checkCollision a (e\<lparr>e_hp := h\<rparr>) = checkCollision a e"
  "checkCollision (p\<lparr>hp := h\<rparr>) b = checkCollision p b"
  "checkCollision a (p\<lparr>hp := h\<rparr>) = checkCollision a p"
  by (simp_all add: checkCollision_iff)

lemma bullets_bulletHitsEnemy:
  "bullets (bulletHitsEnemy j i g) =
     (if checkCollision (bullets g ! j) (enemies g ! i)
      then (bullets g)[j := (bullets g ! j)\<lparr>markedForDeletion := True\<rparr>] else bullets g)"
  by (simp add: bulletHitsEnemy_def)

lemma enemies_bulletHitsEnemy:
  "enemies (bulletHitsEnemy j i g) =
     (if checkCollision (bullets g ! j) (enemies g ! i)
      then (enemies g)[i := (enemies g ! i)\<lparr>e_hp := e_hp (enemies g ! i) - 1,
              markedForDeletion := (e_hp (enemies g ! i) - 1 \<le> 0 \<or> markedForDeletion (enemies g ! i))\<rparr>]
      else enemies g)"
  by (simp add: bulletHitsEnemy_def enemies_Enemy_takeDamage)

text \<open>
  The bullets and the enemies after the inner loop has visited the enemies below \<open>k\<close>
  for the bullet \<open>j\<close>, as a function of the two arrays before the loop.
\<close>

lemma inner_loop:
  assumes "j < length (bullets g)" and "k \<le> length (enemies g)"
  shows "length (enemies (fold (bulletHitsEnemy j) [0..<k] g)) = length (enemies g) \<and>
         (\<forall>i<length (enemies g). enemies (fold (bulletHitsEnemy j) [0..<k] g) ! i =
            (if i < k \<and> checkCollision (bullets g ! j) (enemies g ! i)
             then (enemies g ! i)\<lparr>e_hp := e_hp (enemies g ! i) - 1,
                    markedForDeletion := (e_hp (enemies g ! i) - 1 \<le> 0 \<or> markedForDeletion (enemies g ! i))\<rparr>
             else enemies g ! i))
         \<and> bullets (fold (bulletHitsEnemy j) [0..<k] g) =
           (if \<exists>i<k. checkCollision (bullets g ! j) (enemies g ! i)
            then (bullets g)[j := (bullets g ! j)\<lparr>markedForDeletion := True\<rparr>] else bullets g)"
  using assms(2)
proof (induction k)
  case 0
  show ?case by simp
next
  case (Suc k)
  let ?g = "fold (bulletHitsEnemy j) [0..<k] g"
  let ?hit = "\<lambda>i. (enemies g ! i)\<lparr>e_hp := e_hp (enemies g ! i) - 1,
                 markedForDeletion := (e_hp (enemies g ! i) - 1 \<le> 0 \<or> markedForDeletion (enemies g ! i))\<rparr>"
  have k: "k < length (enemies g)" using Suc.prems by simp
  have len: "length (enemies ?g) = length (enemies g)" using Suc.IH k by simp
  have nth: "\<And>i. i < length (enemies g) \<Longrightarrow> enemies ?g ! i =
       (if i < k \<and> checkCollision (bullets g ! j) (enemies g ! i) then ?hit i else enemies g ! i)"
    using Suc.IH k by simp
  have bul: "bullets ?g = (if \<exists>i<k. checkCollision (bullets g ! j) (enemies g ! i)
            then (bullets g)[j := (bullets g ! j)\<lparr>markedForDeletion := True\<rparr>] else bullets g)"
    using Suc.IH k by simp
  have ek: "enemies ?g ! k = enemies g ! k" using nth [OF k] by simp
  have bj: "checkCollision (bullets ?g ! j) (enemies ?g ! k) = checkCollision (bullets g ! j) (enemies g ! k)"
    using bul assms(1) ek by auto
  have step: "fold (bulletHitsEnemy j) [0..<Suc k] g = bulletHitsEnemy j k ?g" by simp
  have "length (enemies (bulletHitsEnemy j k ?g)) = length (enemies g)"
    by (simp add: enemies_bulletHitsEnemy len)
  moreover have "enemies (bulletHitsEnemy j k ?g) ! i =
       (if i < Suc k \<and> checkCollision (bullets g ! j) (enemies g ! i) then ?hit i else enemies g ! i)"
    if "i < length (enemies g)" for i
  proof (cases "i = k")
    case True
    then show ?thesis using k len ek bj by (simp add: enemies_bulletHitsEnemy)
  next
    case False
    then have "enemies (bulletHitsEnemy j k ?g) ! i = enemies ?g ! i"
      by (simp add: enemies_bulletHitsEnemy)
    then show ?thesis using nth [OF that] False by (auto simp: less_Suc_eq)
  qed
  moreover have "bullets (bulletHitsEnemy j k ?g) =
           (if \<exists>i<Suc k. checkCollision (bullets g ! j) (enemies g ! i)
            then (bullets g)[j := (bullets g ! j)\<lparr>markedForDeletion := True\<rparr>] else bullets g)"
    unfolding bullets_bulletHitsEnemy bj using bul assms(1) by (auto simp: less_Suc_eq)
  ultimately show ?case unfolding step by simp
qed

lemma checkCollision_geom:
  "geom a = geom a' \<Longrightarrow> geom b = geom b' \<Longrightarrow> checkCollision a b = checkCollision a' b'"
  by (simp add: geom_def checkCollision_iff)

lemma geom_simps [simp]:
  "geom (e\<lparr>markedForDeletion := m\<rparr>) = geom e"
  "geom (en\<lparr>e_hp := h\<rparr>) = geom en"
  "geom (en\<lparr>e_hp := h, markedForDeletion := m\<rparr>) = geom en"
  "geom (p\<lparr>hp := h\<rparr>) = geom p"
  by (simp_all add: geom_def)

lemma count_nth:
  "length (filter (\<lambda>j. P (xs ! j)) [0..<length xs]) = length (filter P xs)"
proof -
  have "length (filter P xs) = length (filter P (map (nth xs) [0..<length xs]))"
    by (simp add: map_nth)
  also have "\<dots> = length (filter (P \<circ> nth xs) [0..<length xs])"
    by (simp only: filter_map length_map)
  finally show ?thesis by (simp add: comp_def)
qed

text \<open>
  The two arrays after the outer loop has handled the bullets below \<open>l\<close>: no rectangle
  has changed; the enemy \<open>i\<close> has lost one hit point for each of those bullets that
  overlaps it; a bullet is marked when it was marked before or overlaps some enemy.
\<close>

lemma outer_loop:
  assumes "l \<le> length (bullets g)"
  defines "G \<equiv> fold (\<lambda>j g'. fold (bulletHitsEnemy j) [0..<length (enemies g')] g') [0..<l] g"
  shows "length (enemies G) = length (enemies g) \<and> length (bullets G) = length (bullets g) \<and>
         (\<forall>i<length (enemies g).
            geom (enemies G ! i) = geom (enemies g ! i) \<and>
            e_hp (enemies G ! i) = e_hp (enemies g ! i)
               - real (length (filter (\<lambda>j. checkCollision (bullets g ! j) (enemies g ! i)) [0..<l])) \<and>
            (markedForDeletion (enemies g ! i) \<longrightarrow> markedForDeletion (enemies G ! i)) \<and>
            ((\<exists>j<l. checkCollision (bullets g ! j) (enemies g ! i)) \<and> e_hp (enemies G ! i) \<le> 0
               \<longrightarrow> markedForDeletion (enemies G ! i))) \<and>
         (\<forall>j<length (bullets g).
            geom (bullets G ! j) = geom (bullets g ! j) \<and>
            markedForDeletion (bullets G ! j) =
              (markedForDeletion (bullets g ! j) \<or>
               (j < l \<and> (\<exists>i<length (enemies g). checkCollision (bullets g ! j) (enemies g ! i)))))"
  using assms(1) unfolding G_def
proof (induction l)
  case 0
  show ?case by simp
next
  case (Suc l)
  let ?F = "\<lambda>j g'. fold (bulletHitsEnemy j) [0..<length (enemies g')] g'"
  let ?G = "fold ?F [0..<l] g"
  let ?G' = "fold (bulletHitsEnemy l) [0..<length (enemies ?G)] ?G"
  let ?n = "length (enemies g)"
  let ?cnt = "\<lambda>l i. length (filter (\<lambda>j. checkCollision (bullets g ! j) (enemies g ! i)) [0..<l])"
  have l: "l < length (bullets g)" using Suc.prems by simp
  have lenE: "length (enemies ?G) = ?n" and lenB: "length (bullets ?G) = length (bullets g)"
    using Suc.IH l by simp_all
  have E: "\<And>i. i < ?n \<Longrightarrow> geom (enemies ?G ! i) = geom (enemies g ! i) \<and>
            e_hp (enemies ?G ! i) = e_hp (enemies g ! i) - real (?cnt l i) \<and>
            (markedForDeletion (enemies g ! i) \<longrightarrow> markedForDeletion (enemies ?G ! i)) \<and>
            ((\<exists>j<l. checkCollision (bullets g ! j) (enemies g ! i)) \<and> e_hp (enemies ?G ! i) \<le> 0
               \<longrightarrow> markedForDeletion (enemies ?G ! i))"
    using Suc.IH l by simp
  have B: "\<And>j. j < length (bullets g) \<Longrightarrow> geom (bullets ?G ! j) = geom (bullets g ! j) \<and>
            markedForDeletion (bullets ?G ! j) =
              (markedForDeletion (bullets g ! j) \<or>
               (j < l \<and> (\<exists>i<?n. checkCollision (bullets g ! j) (enemies g ! i))))"
    using Suc.IH l by simp
  have coll: "checkCollision (bullets ?G ! l) (enemies ?G ! i) = checkCollision (bullets g ! l) (enemies g ! i)"
    if "i < ?n" for i
    using E [OF that] B [OF l] by (intro checkCollision_geom) simp_all
  have inner: "length (enemies ?G') = length (enemies ?G)"
    "\<And>i. i < ?n \<Longrightarrow> enemies ?G' ! i =
        (if checkCollision (bullets g ! l) (enemies g ! i)
         then (enemies ?G ! i)\<lparr>e_hp := e_hp (enemies ?G ! i) - 1,
                markedForDeletion := (e_hp (enemies ?G ! i) - 1 \<le> 0 \<or> markedForDeletion (enemies ?G ! i))\<rparr>
         else enemies ?G ! i)"
    "bullets ?G' = (if \<exists>i<?n. checkCollision (bullets g ! l) (enemies g ! i)
            then (bullets ?G)[l := (bullets ?G ! l)\<lparr>markedForDeletion := True\<rparr>] else bullets ?G)"
  proof -
    note il = inner_loop [of l ?G "length (enemies ?G)", unfolded lenE lenB, OF l order_refl]
    have ex: "(\<exists>i<?n. checkCollision (bullets ?G ! l) (enemies ?G ! i)) =
              (\<exists>i<?n. checkCollision (bullets g ! l) (enemies g ! i))"
      using coll by auto
    show "length (enemies ?G') = length (enemies ?G)" using il lenE by simp
    show "bullets ?G' = (if \<exists>i<?n. checkCollision (bullets g ! l) (enemies g ! i)
            then (bullets ?G)[l := (bullets ?G ! l)\<lparr>markedForDeletion := True\<rparr>] else bullets ?G)"
      using il ex lenE by simp
    fix i assume i: "i < ?n"
    show "enemies ?G' ! i =
        (if checkCollision (bullets g ! l) (enemies g ! i)
         then (enemies ?G ! i)\<lparr>e_hp := e_hp (enemies ?G ! i) - 1,
                markedForDeletion := (e_hp (enemies ?G ! i) - 1 \<le> 0 \<or> markedForDeletion (enemies ?G ! i))\<rparr>
         else enemies ?G ! i)"
      using il i coll [OF i] lenE by simp
  qed
  have step: "fold ?F [0..<Suc l] g = ?G'" by simp
  have "geom (enemies ?G' ! i) = geom (enemies g ! i) \<and>
        e_hp (enemies ?G' ! i) = e_hp (enemies g ! i) - real (?cnt (Suc l) i) \<and>
        (markedForDeletion (enemies g ! i) \<longrightarrow> markedForDeletion (enemies ?G' ! i)) \<and>
        ((\<exists>j<Suc l. checkCollision (bullets g ! j) (enemies g ! i)) \<and> e_hp (enemies ?G' ! i) \<le> 0
               \<longrightarrow> markedForDeletion (enemies ?G' ! i))"
    if "i < ?n" for i
    using E [OF that] inner(2) [OF that] by (auto simp: less_Suc_eq)
  moreover have "geom (bullets ?G' ! j) = geom (bullets g ! j) \<and>
            markedForDeletion (bullets ?G' ! j) =
              (markedForDeletion (bullets g ! j) \<or>
               (j < Suc l \<and> (\<exists>i<?n. checkCollision (bullets g ! j) (enemies g ! i))))"
    if "j < length (bullets g)" for j
  proof (cases "j = l")
    case True
    then show ?thesis using B [OF that] inner(3) lenB that by (auto simp: less_Suc_eq)
  next
    case False
    then have "bullets ?G' ! j = bullets ?G ! j" using inner(3) by simp
    then show ?thesis using B [OF that] False by (auto simp: less_Suc_eq)
  qed
  moreover have "length (enemies ?G') = ?n" using inner(1) lenE by simp
  moreover have "length (bullets ?G') = length (bullets g)" using inner(3) lenB by simp
  ultimately show ?case unfolding step by blast
qed

lemma collision_pass_effect:
  "length (enemies (bulletsHitEnemies g)) = length (enemies g) \<and>
   length (bullets (bulletsHitEnemies g)) = length (bullets g) \<and>
   (\<forall>i<length (enemies g).
      geom (enemies (bulletsHitEnemies g) ! i) = geom (enemies g ! i) \<and>
      e_hp (enemies (bulletsHitEnemies g) ! i) =
        e_hp (enemies g ! i) - real (length (filter (\<lambda>b. checkCollision b (enemies g ! i)) (bullets g))) \<and>
      (markedForDeletion (enemies g ! i) \<longrightarrow> markedForDeletion (enemies (bulletsHitEnemies g) ! i))) \<and>
   (\<forall>j<length (bullets g).
      geom (bullets (bulletsHitEnemies g) ! j) = geom (bullets g ! j) \<and>
      markedForDeletion (bullets (bulletsHitEnemies g) ! j) =
        (markedForDeletion (bullets g ! j) \<or> (\<exists>e\<in>set (enemies g). checkCollision (bullets g ! j) e)))"
proof -
  have ex: "(\<exists>i<length (enemies g). checkCollision b (enemies g ! i)) = (\<exists>e\<in>set (enemies g). checkCollision b e)"
    for b :: bullet
    by (metis in_set_conv_nth)
  show ?thesis
    using outer_loop [of "length (bullets g)" g, OF order_refl]
    unfolding bulletsHitEnemies_def [symmetric] count_nth [of "\<lambda>b. checkCollision b e" "bullets g" for e] ex
    by simp
qed

text \<open>
  C1, as the code has it. The collision pass tests every projectile against every
  hostile of the collection and looks at no dead flag: a hostile loses one hit point for
  every projectile whose shrunk rectangle overlaps its own, so a projectile that overlaps
  several hostiles damages each of them; the projectile is marked dead when it overlaps at
  least one.
\<close>

theorem bulletsHitEnemies_damage_every_overlap:
  "(\<forall>i<length (enemies g).
      e_hp (enemies (bulletsHitEnemies g) ! i) =
        e_hp (enemies g ! i) - real (length (filter (\<lambda>b. checkCollision b (enemies g ! i)) (bullets g)))) \<and>
   (\<forall>j<length (bullets g).
      markedForDeletion (bullets (bulletsHitEnemies g) ! j) =
        (markedForDeletion (bullets g ! j) \<or> (\<exists>e\<in>set (enemies g). checkCollision (bullets g ! j) e)))"
  using collision_pass_effect [of g] by blast

text \<open>Two projectiles on one Fighter: it loses two hit points, and both projectiles are marked.\<close>

theorem bulletsHitEnemies_damage_every_overlap_witness:
  "e_hp (enemies (bulletsHitEnemies
      (field [Bullet_new 112 110 (- 600), Bullet_new 120 120 (- 600)] [mkEnemy 100 100 Fighter])) ! 0) = 1 \<and>
   markedForDeletion (bullets (bulletsHitEnemies
      (field [Bullet_new 112 110 (- 600), Bullet_new 120 120 (- 600)] [mkEnemy 100 100 Fighter])) ! 0) \<and>
   markedForDeletion (bullets (bulletsHitEnemies
      (field [Bullet_new 112 110 (- 600), Bullet_new 120 120 (- 600)] [mkEnemy 100 100 Fighter])) ! 1)"
  using bulletsHitEnemies_damage_every_overlap
    [of "field [Bullet_new 112 110 (- 600), Bullet_new 120 120 (- 600)] [mkEnemy 100 100 Fighter]"]
  by (simp add: field_def Bullet_new_def checkCollision_iff)

text \<open>
  The sentence of the specification does not hold of the code: one live projectile
  overlaps two live Fighters, and the second one in iteration order is damaged as well.
\<close>

theorem one_projectile_two_hits_counterexample:
  "checkCollision (Bullet_new 112 110 (- 600)) (mkEnemy 80 100 Fighter) \<and>
   checkCollision (Bullet_new 112 110 (- 600)) (mkEnemy 100 100 Fighter) \<and>
   e_hp (enemies (bulletsHitEnemies
      (field [Bullet_new 112 110 (- 600)] [mkEnemy 80 100 Fighter, mkEnemy 100 100 Fighter])) ! 0) = 2 \<and>
   e_hp (enemies (bulletsHitEnemies
      (field [Bullet_new 112 110 (- 600)] [mkEnemy 80 100 Fighter, mkEnemy 100 100 Fighter])) ! 1) = 2"
  using collision_pass_effect
    [of "field [Bullet_new 112 110 (- 600)] [mkEnemy 80 100 Fighter, mkEnemy 100 100 Fighter]"]
  by (simp add: field_def Bullet_new_def checkCollision_iff)

section \<open>The collision pass: hostiles against the player\<close>

lemma demo_player_simps [simp]:
  "demo_player = \<lparr>x = 370, y = 520, width = 60, height = 60, markedForDeletion = False,
      speed = 400, shootTimer = 0, shootInterval = 0.2, hp = 100, maxHp = 100\<rparr>"
  by (simp add: demo_player_def Player_new_def Let_def)

lemma Player_takeDamage_cheat:
  "cheatMode g \<Longrightarrow> Player_takeDamage amount p g = (p, g)"
  by (simp add: Player_takeDamage_def)

lemma Player_takeDamage_manual:
  "\<not> cheatMode g \<Longrightarrow> Player_takeDamage amount p g =
     (if hp p - amount \<le> 0
      then (p\<lparr>hp := 0\<rparr>,
            g\<lparr>gameState := GAME_OVER, ui := ui g @ [ShowGameOver (score g) (wave g), UpdateHp 0 (maxHp p)]\<rparr>)
      else (p\<lparr>hp := hp p - amount\<rparr>, g\<lparr>ui := ui g @ [UpdateHp (hp p - amount) (maxHp p)]\<rparr>))"
  by (simp add: Player_takeDamage_def gameOver_def ui_call_def Let_def)

lemma Player_takeDamage_shape:
  "\<exists>h s u. Player_takeDamage amount p g = (p\<lparr>hp := h\<rparr>, g\<lparr>gameState := s, ui := u\<rparr>)"
proof (cases "cheatMode g")
  case True
  show ?thesis
    unfolding Player_takeDamage_cheat [OF True]
    by (intro exI[of _ "hp p"] exI[of _ "gameState g"] exI[of _ "ui g"]) simp
next
  case False
  show ?thesis
  proof (cases "hp p - amount \<le> 0")
    case True
    show ?thesis
      unfolding Player_takeDamage_manual [OF False] using True
      by (intro exI[of _ 0] exI[of _ GAME_OVER]
          exI[of _ "ui g @ [ShowGameOver (score g) (wave g), UpdateHp 0 (maxHp p)]"]) simp
  next
    case False
    show ?thesis
      unfolding Player_takeDamage_manual [OF \<open>\<not> cheatMode g\<close>] using False
      by (intro exI[of _ "hp p - amount"] exI[of _ "gameState g"]
          exI[of _ "ui g @ [UpdateHp (hp p - amount) (maxHp p)]"]) simp
  qed
qed

lemma enemyHitsPlayer_miss:
  "\<not> checkCollision (enemies g ! i) p \<Longrightarrow> enemyHitsPlayer i (p, g) = (p, g)"
  by (simp add: enemyHitsPlayer_def)

lemma enemyHitsPlayer_hit:
  assumes "checkCollision (enemies g ! i) p"
  shows "\<exists>h s u ps k. enemyHitsPlayer i (p, g) =
           (p\<lparr>hp := h\<rparr>,
            g\<lparr>enemies := (enemies g)[i := (enemies g ! i)\<lparr>markedForDeletion := True\<rparr>],
              gameState := s, ui := u, particles := particles g @ ps, rand_pos := k\<rparr>) \<and>
           length ps = 10 \<and>
           (\<forall>q\<in>set ps. \<not> p_marked q \<and> p_x q = x (enemies g ! i) \<and> p_y q = y (enemies g ! i)) \<and>
           (cheatMode g \<longrightarrow> h = hp p \<and> s = gameState g \<and> u = ui g)"
proof -
  let ?e = "(enemies g ! i)\<lparr>markedForDeletion := True\<rparr>"
  let ?g1 = "g\<lparr>enemies := (enemies g)[i := ?e]\<rparr>"
  obtain h s u where td: "Player_takeDamage 20 p ?g1 = (p\<lparr>hp := h\<rparr>, ?g1\<lparr>gameState := s, ui := u\<rparr>)"
    "cheatMode g \<longrightarrow> h = hp p \<and> s = gameState g \<and> u = ui g"
  proof (cases "cheatMode g")
    case True
    then have "Player_takeDamage 20 p ?g1 = (p\<lparr>hp := hp p\<rparr>, ?g1\<lparr>gameState := gameState g, ui := ui g\<rparr>)"
      by (simp add: Player_takeDamage_cheat)
    then show ?thesis using that by blast
  next
    case False
    then show ?thesis using Player_takeDamage_shape [of 20 p ?g1] that by blast
  qed
  let ?g2 = "?g1\<lparr>gameState := s, ui := u\<rparr>"
  obtain ps k where ce: "createExplosion (x ?e) (y ?e) 10 None ?g2 = ?g2\<lparr>particles := particles ?g2 @ ps, rand_pos := k\<rparr>"
    "length ps = 10" "\<forall>q\<in>set ps. \<not> p_marked q \<and> p_x q = x ?e \<and> p_y q = y ?e \<and> p_life q = 1"
    using createExplosion_shape by blast
  have "enemyHitsPlayer i (p, g) = (p\<lparr>hp := h\<rparr>, ?g2\<lparr>particles := particles ?g2 @ ps, rand_pos := k\<rparr>)"
    using assms td(1) ce(1) by (simp add: enemyHitsPlayer_def Let_def)
  then show ?thesis
    using ce(2,3) td(2)
    by (intro exI[of _ h] exI[of _ s] exI[of _ u] exI[of _ ps] exI[of _ k]) simp
qed

text \<open>
  The player and the game after the loop of lines 735-741 has visited the enemies below
  \<open>k\<close>: each enemy that overlaps the player is marked, ten particles per such enemy have
  been pushed, and apart from the random position only the player's hp, the game state
  and the UI log can differ, none of which differs in cheat mode.
\<close>

lemma enemies_loop:
  assumes "k \<le> length (enemies g)"
  shows "\<exists>h s u ps r es.
           fold enemyHitsPlayer [0..<k] (p, g) =
             (p\<lparr>hp := h\<rparr>,
              g\<lparr>enemies := es, gameState := s, ui := u, particles := particles g @ ps, rand_pos := r\<rparr>) \<and>
           length es = length (enemies g) \<and>
           (\<forall>i<length (enemies g). es ! i =
              (if i < k \<and> checkCollision (enemies g ! i) p
               then (enemies g ! i)\<lparr>markedForDeletion := True\<rparr> else enemies g ! i)) \<and>
           length ps = 10 * length (filter (\<lambda>i. checkCollision (enemies g ! i) p) [0..<k]) \<and>
           (\<forall>q\<in>set ps. \<not> p_marked q \<and>
              (\<exists>i<k. checkCollision (enemies g ! i) p \<and> p_x q = x (enemies g ! i) \<and> p_y q = y (enemies g ! i))) \<and>
           (cheatMode g \<longrightarrow> h = hp p \<and> s = gameState g \<and> u = ui g)"
  using assms
proof (induction k)
  case 0
  show ?case
    by (intro exI[of _ "hp p"] exI[of _ "gameState g"] exI[of _ "ui g"] exI[of _ "[]"]
        exI[of _ "rand_pos g"] exI[of _ "enemies g"]) simp
next
  case (Suc k)
  let ?mark = "\<lambda>e::enemy. e\<lparr>markedForDeletion := True\<rparr>"
  let ?cnt = "\<lambda>k. length (filter (\<lambda>i. checkCollision (enemies g ! i) p) [0..<k])"
  have k: "k < length (enemies g)" using Suc.prems by simp
  obtain h s u ps r es where IH:
    "fold enemyHitsPlayer [0..<k] (p, g) =
       (p\<lparr>hp := h\<rparr>, g\<lparr>enemies := es, gameState := s, ui := u, particles := particles g @ ps, rand_pos := r\<rparr>)"
    "length es = length (enemies g)"
    "\<And>i. i < length (enemies g) \<Longrightarrow> es ! i =
        (if i < k \<and> checkCollision (enemies g ! i) p then ?mark (enemies g ! i) else enemies g ! i)"
    "length ps = 10 * ?cnt k"
    "\<forall>q\<in>set ps. \<not> p_marked q \<and>
        (\<exists>i<k. checkCollision (enemies g ! i) p \<and> p_x q = x (enemies g ! i) \<and> p_y q = y (enemies g ! i))"
    "cheatMode g \<longrightarrow> h = hp p \<and> s = gameState g \<and> u = ui g"
    using Suc.IH [OF less_imp_le [OF k]] by blast
  let ?P = "p\<lparr>hp := h\<rparr>"
  let ?G = "g\<lparr>enemies := es, gameState := s, ui := u, particles := particles g @ ps, rand_pos := r\<rparr>"
  have step: "fold enemyHitsPlayer [0..<Suc k] (p, g) = enemyHitsPlayer k (?P, ?G)"
    using IH(1) by simp
  have esk: "es ! k = enemies g ! k" using IH(3) [OF k] by simp
  have coll: "checkCollision (enemies ?G ! k) ?P = checkCollision (enemies g ! k) p"
    using esk by simp
  show ?case
  proof (cases "checkCollision (enemies g ! k) p")
    case False
    then have "enemyHitsPlayer k (?P, ?G) = (?P, ?G)"
      using coll by (intro enemyHitsPlayer_miss) simp
    moreover have "\<And>i. i < length (enemies g) \<Longrightarrow> es ! i =
        (if i < Suc k \<and> checkCollision (enemies g ! i) p then ?mark (enemies g ! i) else enemies g ! i)"
      using IH(3) False by (auto simp: less_Suc_eq)
    moreover have "length ps = 10 * ?cnt (Suc k)" using IH(4) False by simp
    moreover have "\<forall>q\<in>set ps. \<not> p_marked q \<and>
        (\<exists>i<Suc k. checkCollision (enemies g ! i) p \<and> p_x q = x (enemies g ! i) \<and> p_y q = y (enemies g ! i))"
      using IH(5) less_Suc_eq by blast
    ultimately show ?thesis
      unfolding step using IH(2,6)
      by (intro exI[of _ h] exI[of _ s] exI[of _ u] exI[of _ ps] exI[of _ r] exI[of _ es]) simp
  next
    case True
    then have "checkCollision (enemies ?G ! k) ?P" using coll by simp
    from enemyHitsPlayer_hit [OF this]
    obtain h' s' u' ps' r' where hit:
      "enemyHitsPlayer k (?P, ?G) =
         (?P\<lparr>hp := h'\<rparr>,
          ?G\<lparr>enemies := (enemies ?G)[k := ?mark (enemies ?G ! k)],
             gameState := s', ui := u', particles := particles ?G @ ps', rand_pos := r'\<rparr>)"
      "length ps' = 10"
      "\<forall>q\<in>set ps'. \<not> p_marked q \<and> p_x q = x (enemies ?G ! k) \<and> p_y q = y (enemies ?G ! k)"
      "cheatMode ?G \<longrightarrow> h' = hp ?P \<and> s' = gameState ?G \<and> u' = ui ?G"
      by blast
    let ?es' = "es[k := ?mark (enemies g ! k)]"
    have "enemyHitsPlayer k (?P, ?G) =
        (p\<lparr>hp := h'\<rparr>,
         g\<lparr>enemies := ?es', gameState := s', ui := u', particles := particles g @ (ps @ ps'), rand_pos := r'\<rparr>)"
      unfolding hit(1) using esk by simp
    moreover have "length ?es' = length (enemies g)" using IH(2) by simp
    moreover have "\<And>i. i < length (enemies g) \<Longrightarrow> ?es' ! i =
        (if i < Suc k \<and> checkCollision (enemies g ! i) p then ?mark (enemies g ! i) else enemies g ! i)"
    proof -
      fix i assume i: "i < length (enemies g)"
      show "?es' ! i =
        (if i < Suc k \<and> checkCollision (enemies g ! i) p then ?mark (enemies g ! i) else enemies g ! i)"
      proof (cases "i = k")
        case True
        then show ?thesis using k IH(2) \<open>checkCollision (enemies g ! k) p\<close> by simp
      next
        case False
        then have "?es' ! i = es ! i" by simp
        then show ?thesis using IH(3) [OF i] False by (auto simp: less_Suc_eq)
      qed
    qed
    moreover have "length (ps @ ps') = 10 * ?cnt (Suc k)" using IH(4) hit(2) True by simp
    moreover have "\<forall>q\<in>set (ps @ ps'). \<not> p_marked q \<and>
        (\<exists>i<Suc k. checkCollision (enemies g ! i) p \<and> p_x q = x (enemies g ! i) \<and> p_y q = y (enemies g ! i))"
    proof
      fix q assume "q \<in> set (ps @ ps')"
      then consider "q \<in> set ps" | "q \<in> set ps'" by auto
      then show "\<not> p_marked q \<and>
        (\<exists>i<Suc k. checkCollision (enemies g ! i) p \<and> p_x q = x (enemies g ! i) \<and> p_y q = y (enemies g ! i))"
      proof cases
        case 1
        then show ?thesis using IH(5) less_Suc_eq by blast
      next
        case 2
        then have "\<not> p_marked q \<and> p_x q = x (enemies g ! k) \<and> p_y q = y (enemies g ! k)"
          using hit(3) esk by simp
        then show ?thesis using True by blast
      qed
    qed
    moreover have "cheatMode g \<longrightarrow> h' = hp p \<and> s' = gameState g \<and> u' = ui g"
      using IH(6) hit(4) by simp
    ultimately show ?thesis
      unfolding step
      by (intro exI[of _ h'] exI[of _ s'] exI[of _ u'] exI[of _ "ps @ ps'"] exI[of _ r'] exI[of _ ?es']) simp
  qed
qed

lemma player_collisions_effect:
  "\<exists>h s u ps r.
     enemiesHitPlayer p g =
       (p\<lparr>hp := h\<rparr>,
        g\<lparr>enemies := map (\<lambda>e. if checkCollision e p then e\<lparr>markedForDeletion := True\<rparr> else e) (enemies g),
          gameState := s, ui := u, particles := particles g @ ps, rand_pos := r\<rparr>) \<and>
     length ps = 10 * length (filter (\<lambda>e. checkCollision e p) (enemies g)) \<and>
     (\<forall>q\<in>set ps. \<not> p_marked q \<and> (\<exists>e\<in>set (enemies g). checkCollision e p \<and> p_x q = x e \<and> p_y q = y e)) \<and>
     (cheatMode g \<longrightarrow> h = hp p \<and> s = gameState g \<and> u = ui g)"
proof -
  let ?n = "length (enemies g)"
  obtain h s u ps r es where L:
    "fold enemyHitsPlayer [0..<?n] (p, g) =
       (p\<lparr>hp := h\<rparr>, g\<lparr>enemies := es, gameState := s, ui := u, particles := particles g @ ps, rand_pos := r\<rparr>)"
    "length es = ?n"
    "\<forall>i<?n. es ! i = (if i < ?n \<and> checkCollision (enemies g ! i) p
                        then (enemies g ! i)\<lparr>markedForDeletion := True\<rparr> else enemies g ! i)"
    "length ps = 10 * length (filter (\<lambda>i. checkCollision (enemies g ! i) p) [0..<?n])"
    "\<forall>q\<in>set ps. \<not> p_marked q \<and>
        (\<exists>i<?n. checkCollision (enemies g ! i) p \<and> p_x q = x (enemies g ! i) \<and> p_y q = y (enemies g ! i))"
    "cheatMode g \<longrightarrow> h = hp p \<and> s = gameState g \<and> u = ui g"
    using enemies_loop [OF order_refl, of g p] by blast
  have es: "es = map (\<lambda>e. if checkCollision e p then e\<lparr>markedForDeletion := True\<rparr> else e) (enemies g)"
    by (rule nth_equalityI) (use L(2,3) in simp_all)
  have cnt: "length ps = 10 * length (filter (\<lambda>e. checkCollision e p) (enemies g))"
    using L(4) count_nth [of "\<lambda>e. checkCollision e p" "enemies g"] by simp
  have pos: "\<forall>q\<in>set ps. \<not> p_marked q \<and> (\<exists>e\<in>set (enemies g). checkCollision e p \<and> p_x q = x e \<and> p_y q = y e)"
    using L(5) nth_mem by blast
  show ?thesis
    unfolding enemiesHitPlayer_def L(1) es [symmetric]
    using cnt pos L(6)
    by (intro exI[of _ h] exI[of _ s] exI[of _ u] exI[of _ ps] exI[of _ r]) simp
qed

text \<open>
  An explosion neither reads nor writes the cheat flag, the game state or the UI log.
\<close>

lemma Particle_new_frame:
  "Particle_new px py c (g\<lparr>cheatMode := cm, gameState := s, ui := u\<rparr>) =
     (fst (Particle_new px py c g), (snd (Particle_new px py c g))\<lparr>cheatMode := cm, gameState := s, ui := u\<rparr>)"
  by (simp add: Particle_new_def Math_random_def Let_def split: option.splits)

lemma pushParticles_frame:
  "pushParticles n px py c (g\<lparr>cheatMode := cm, gameState := s, ui := u\<rparr>) =
     (pushParticles n px py c g)\<lparr>cheatMode := cm, gameState := s, ui := u\<rparr>"
proof (induction n arbitrary: g)
  case 0
  show ?case by simp
next
  case (Suc n)
  let ?q = "fst (Particle_new px py c g)" and ?g1 = "snd (Particle_new px py c g)"
  let ?g2 = "?g1\<lparr>particles := particles ?g1 @ [?q]\<rparr>"
  have "pushParticles (Suc n) px py c (g\<lparr>cheatMode := cm, gameState := s, ui := u\<rparr>) =
        pushParticles n px py c (?g1\<lparr>cheatMode := cm, gameState := s, ui := u, particles := particles ?g1 @ [?q]\<rparr>)"
    by (simp add: Particle_new_frame)
  also have "\<dots> = pushParticles n px py c (?g2\<lparr>cheatMode := cm, gameState := s, ui := u\<rparr>)"
    by (rule arg_cong [where f = "pushParticles n px py c"], rule game.equality) simp_all
  also have "\<dots> = (pushParticles n px py c ?g2)\<lparr>cheatMode := cm, gameState := s, ui := u\<rparr>"
    by (rule Suc.IH)
  also have "pushParticles n px py c ?g2 = pushParticles (Suc n) px py c g"
    by (simp add: case_prod_beta)
  finally show ?case .
qed

lemma enemyHitsPlayer_hit_eq:
  "checkCollision (enemies g ! i) p \<Longrightarrow>
   enemyHitsPlayer i (p, g) =
     (fst (Player_takeDamage 20 p (g\<lparr>enemies := (enemies g)[i := (enemies g ! i)\<lparr>markedForDeletion := True\<rparr>]\<rparr>)),
      createExplosion (x (enemies g ! i)) (y (enemies g ! i)) 10 None
        (snd (Player_takeDamage 20 p (g\<lparr>enemies := (enemies g)[i := (enemies g ! i)\<lparr>markedForDeletion := True\<rparr>]\<rparr>))))"
  by (simp add: enemyHitsPlayer_def Let_def case_prod_beta)

lemma createExplosion_frame:
  "createExplosion px py n c (g\<lparr>cheatMode := cm, gameState := s, ui := u\<rparr>) =
     (createExplosion px py n c g)\<lparr>cheatMode := cm, gameState := s, ui := u\<rparr>"
proof -
  have "audio_explosion (g\<lparr>cheatMode := cm, gameState := s, ui := u\<rparr>) =
        (audio_explosion g)\<lparr>cheatMode := cm, gameState := s, ui := u\<rparr>"
    by (simp add: audio_explosion_def)
  then show ?thesis by (simp add: createExplosion_def pushParticles_frame)
qed

text \<open>
  The loop run outside cheat mode against the loop run in cheat mode, from the same
  state: the results differ in the player's hp, the game state and the UI log at most.
\<close>

lemma enemies_loop_modes:
  assumes "cheatMode g"
  shows "\<exists>h s u. fold enemyHitsPlayer xs (p\<lparr>hp := h0\<rparr>, g\<lparr>cheatMode := False, gameState := s0, ui := u0\<rparr>) =
           ((fst (fold enemyHitsPlayer xs (p, g)))\<lparr>hp := h\<rparr>,
            (snd (fold enemyHitsPlayer xs (p, g)))\<lparr>cheatMode := False, gameState := s, ui := u\<rparr>)"
  using assms
proof (induction xs arbitrary: p g h0 s0 u0)
  case Nil
  show ?case by (intro exI[of _ h0] exI[of _ s0] exI[of _ u0]) simp
next
  case (Cons i xs)
  let ?g' = "g\<lparr>cheatMode := False, gameState := s0, ui := u0\<rparr>"
  show ?case
  proof (cases "checkCollision (enemies g ! i) p")
    case False
    then have "enemyHitsPlayer i (p, g) = (p, g)" "enemyHitsPlayer i (p\<lparr>hp := h0\<rparr>, ?g') = (p\<lparr>hp := h0\<rparr>, ?g')"
      by (simp_all add: enemyHitsPlayer_def)
    moreover have "\<exists>h s u. fold enemyHitsPlayer xs (p\<lparr>hp := h0\<rparr>, ?g') =
           ((fst (fold enemyHitsPlayer xs (p, g)))\<lparr>hp := h\<rparr>,
            (snd (fold enemyHitsPlayer xs (p, g)))\<lparr>cheatMode := False, gameState := s, ui := u\<rparr>)"
      using Cons.prems by (rule Cons.IH)
    ultimately show ?thesis by simp
  next
    case True
    let ?e = "(enemies g ! i)\<lparr>markedForDeletion := True\<rparr>"
    let ?g1 = "g\<lparr>enemies := (enemies g)[i := ?e]\<rparr>"
    let ?g2 = "createExplosion (x ?e) (y ?e) 10 None ?g1"
    have cheat: "enemyHitsPlayer i (p, g) = (p, ?g2)"
      using True Cons.prems by (simp add: enemyHitsPlayer_def Let_def Player_takeDamage_cheat)
    obtain h1 s1 u1 where td:
      "Player_takeDamage 20 (p\<lparr>hp := h0\<rparr>) (?g1\<lparr>cheatMode := False, gameState := s0, ui := u0\<rparr>) =
         (p\<lparr>hp := h1\<rparr>, ?g1\<lparr>cheatMode := False, gameState := s1, ui := u1\<rparr>)"
      using Player_takeDamage_shape [of 20 "p\<lparr>hp := h0\<rparr>" "?g1\<lparr>cheatMode := False, gameState := s0, ui := u0\<rparr>"]
      by auto
    have manual: "enemyHitsPlayer i (p\<lparr>hp := h0\<rparr>, ?g') = (p\<lparr>hp := h1\<rparr>, ?g2\<lparr>cheatMode := False, gameState := s1, ui := u1\<rparr>)"
    proof -
      have c1: "checkCollision (enemies ?g' ! i) (p\<lparr>hp := h0\<rparr>)" using True by simp
      have e1: "?g'\<lparr>enemies := (enemies ?g')[i := (enemies ?g' ! i)\<lparr>markedForDeletion := True\<rparr>]\<rparr> =
            ?g1\<lparr>cheatMode := False, gameState := s0, ui := u0\<rparr>"
        by (rule game.equality) simp_all
      have en: "x (enemies ?g' ! i) = x ?e" "y (enemies ?g' ! i) = y ?e" by simp_all
      show ?thesis
        unfolding enemyHitsPlayer_hit_eq [OF c1] e1 td fst_conv snd_conv createExplosion_frame en ..
    qed
    have "cheatMode ?g2" using Cons.prems by simp
    then have "\<exists>h s u. fold enemyHitsPlayer xs (p\<lparr>hp := h1\<rparr>, ?g2\<lparr>cheatMode := False, gameState := s1, ui := u1\<rparr>) =
           ((fst (fold enemyHitsPlayer xs (p, ?g2)))\<lparr>hp := h\<rparr>,
            (snd (fold enemyHitsPlayer xs (p, ?g2)))\<lparr>cheatMode := False, gameState := s, ui := u\<rparr>)"
      by (rule Cons.IH)
    then show ?thesis
      unfolding fold_simps cheat manual by simp
  qed
qed

text \<open>
  C9. Every hostile that overlaps the player is marked dead and pushes a burst of ten
  particles at its position, in cheat mode as outside it: the loop changes the enemies,
  the particles and the random position in the same way in both modes, and in cheat mode
  the player's hp, the game state and the UI log stay as they were. (Outside cheat mode
  \<^verbatim>\<open>takeDamage\<close> changes the hp and, with it, may call \<^verbatim>\<open>gameOver\<close> and updates the HP bar.)
\<close>

theorem enemiesHitPlayer_in_every_mode:
  "(\<exists>h s u ps r.
     enemiesHitPlayer p g =
       (p\<lparr>hp := h\<rparr>,
        g\<lparr>enemies := map (\<lambda>e. if checkCollision e p then e\<lparr>markedForDeletion := True\<rparr> else e) (enemies g),
          gameState := s, ui := u, particles := particles g @ ps, rand_pos := r\<rparr>) \<and>
     length ps = 10 * length (filter (\<lambda>e. checkCollision e p) (enemies g)) \<and>
     (\<forall>q\<in>set ps. \<not> p_marked q \<and> (\<exists>e\<in>set (enemies g). checkCollision e p \<and> p_x q = x e \<and> p_y q = y e)) \<and>
     (cheatMode g \<longrightarrow> h = hp p \<and> s = gameState g \<and> u = ui g)) \<and>
   (\<exists>h s u.
     enemiesHitPlayer p (g\<lparr>cheatMode := False\<rparr>) =
       ((fst (enemiesHitPlayer p (g\<lparr>cheatMode := True\<rparr>)))\<lparr>hp := h\<rparr>,
        (snd (enemiesHitPlayer p (g\<lparr>cheatMode := True\<rparr>)))\<lparr>cheatMode := False, gameState := s, ui := u\<rparr>))"
proof
  show "\<exists>h s u ps r.
     enemiesHitPlayer p g =
       (p\<lparr>hp := h\<rparr>,
        g\<lparr>enemies := map (\<lambda>e. if checkCollision e p then e\<lparr>markedForDeletion := True\<rparr> else e) (enemies g),
          gameState := s, ui := u, particles := particles g @ ps, rand_pos := r\<rparr>) \<and>
     length ps = 10 * length (filter (\<lambda>e. checkCollision e p) (enemies g)) \<and>
     (\<forall>q\<in>set ps. \<not> p_marked q \<and> (\<exists>e\<in>set (enemies g). checkCollision e p \<and> p_x q = x e \<and> p_y q = y e)) \<and>
     (cheatMode g \<longrightarrow> h = hp p \<and> s = gameState g \<and> u = ui g)"
    by (rule player_collisions_effect)
next
  let ?gc = "g\<lparr>cheatMode := True\<rparr>"
  have "cheatMode ?gc" by simp
  from enemies_loop_modes [where g = ?gc and xs = "[0..<length (enemies g)]" and p = p
      and ?h0.0 = "hp p" and ?s0.0 = "gameState g" and ?u0.0 = "ui g", OF this]
  obtain h s u where
    "fold enemyHitsPlayer [0..<length (enemies g)] (p\<lparr>hp := hp p\<rparr>, ?gc\<lparr>cheatMode := False, gameState := gameState g, ui := ui g\<rparr>) =
       ((fst (fold enemyHitsPlayer [0..<length (enemies g)] (p, ?gc)))\<lparr>hp := h\<rparr>,
        (snd (fold enemyHitsPlayer [0..<length (enemies g)] (p, ?gc)))\<lparr>cheatMode := False, gameState := s, ui := u\<rparr>)"
    by blast
  moreover have "p\<lparr>hp := hp p\<rparr> = p" by simp
  moreover have "?gc\<lparr>cheatMode := False, gameState := gameState g, ui := ui g\<rparr> = g\<lparr>cheatMode := False\<rparr>"
    by (rule game.equality) simp_all
  ultimately show "\<exists>h s u.
     enemiesHitPlayer p (g\<lparr>cheatMode := False\<rparr>) =
       ((fst (enemiesHitPlayer p ?gc))\<lparr>hp := h\<rparr>,
        (snd (enemiesHitPlayer p ?gc))\<lparr>cheatMode := False, gameState := s, ui := u\<rparr>)"
    unfolding enemiesHitPlayer_def by (intro exI[of _ h] exI[of _ s] exI[of _ u]) simp
qed

text \<open>In cheat mode a Scout rams the player of a fresh game: the Scout is marked, ten particles appear, hp stays 100.\<close>

theorem enemiesHitPlayer_in_every_mode_witness:
  "cheatMode ((field [] [mkEnemy 380 530 Scout])\<lparr>cheatMode := True\<rparr>) \<and>
   checkCollision (mkEnemy 380 530 Scout) demo_player \<and>
   markedForDeletion (enemies (snd (enemiesHitPlayer demo_player ((field [] [mkEnemy 380 530 Scout])\<lparr>cheatMode := True\<rparr>))) ! 0) \<and>
   length (particles (snd (enemiesHitPlayer demo_player ((field [] [mkEnemy 380 530 Scout])\<lparr>cheatMode := True\<rparr>)))) = 10 \<and>
   hp (fst (enemiesHitPlayer demo_player ((field [] [mkEnemy 380 530 Scout])\<lparr>cheatMode := True\<rparr>))) = 100 \<and>
   gameState (snd (enemiesHitPlayer demo_player ((field [] [mkEnemy 380 530 Scout])\<lparr>cheatMode := True\<rparr>))) = PLAYING"
  using enemiesHitPlayer_in_every_mode
    [of demo_player "(field [] [mkEnemy 380 530 Scout])\<lparr>cheatMode := True\<rparr>"]
  by (auto simp: field_def checkCollision_iff)

section \<open>Damage to the player\<close>

lemma Player_takeDamage_hp_nonneg:
  "0 \<le> hp p \<Longrightarrow> 0 \<le> hp (fst (Player_takeDamage amount p g))"
  by (cases "cheatMode g") (simp_all add: Player_takeDamage_cheat Player_takeDamage_manual)

lemma takeDamages_hp_nonneg:
  "0 \<le> hp (fst pg) \<Longrightarrow> 0 \<le> hp (fst (takeDamages amounts pg))"
  unfolding takeDamages_def
  by (induction amounts arbitrary: pg) (simp_all add: Player_takeDamage_hp_nonneg)

lemma gameOverCalls_takeDamage:
  "gameOverCalls (snd (Player_takeDamage amount p g)) =
     gameOverCalls g + (if \<not> cheatMode g \<and> hp p - amount \<le> 0 then 1 else 0)"
  by (cases "cheatMode g")
     (simp_all add: Player_takeDamage_cheat Player_takeDamage_manual gameOverCalls_def)

text \<open>
  C4, as the code has it. The player's hp never becomes negative: outside cheat mode
  \<^verbatim>\<open>takeDamage\<close> subtracts the amount and clamps at 0, and hp stays at or above 0 through
  any sequence of calls. \<^verbatim>\<open>gameOver()\<close> runs in exactly those calls (outside cheat mode)
  whose subtraction leaves hp at or below 0, and leaves the game in the state GAME_OVER:
  once when hp first crosses from a positive value to 0, and again in every later call
  with a non-negative amount, since nothing guards it.
\<close>

theorem Player_takeDamage_hp_floor:
  assumes "0 \<le> hp p"
  shows "0 \<le> hp (fst (takeDamages amounts (p, g))) \<and>
         (\<not> cheatMode g \<longrightarrow> hp (fst (Player_takeDamage amount p g)) = max 0 (hp p - amount)) \<and>
         gameOverCalls (snd (Player_takeDamage amount p g)) =
           gameOverCalls g + (if \<not> cheatMode g \<and> hp p - amount \<le> 0 then 1 else 0) \<and>
         (\<not> cheatMode g \<and> hp p - amount \<le> 0 \<longrightarrow> gameState (snd (Player_takeDamage amount p g)) = GAME_OVER) \<and>
         (cheatMode g \<or> 0 < hp p - amount \<longrightarrow> gameState (snd (Player_takeDamage amount p g)) = gameState g)"
proof -
  have "0 \<le> hp (fst (takeDamages amounts (p, g)))"
    using assms by (intro takeDamages_hp_nonneg) simp
  moreover have "\<not> cheatMode g \<Longrightarrow> hp (fst (Player_takeDamage amount p g)) = max 0 (hp p - amount)"
    by (simp add: Player_takeDamage_manual)
  moreover have "\<not> cheatMode g \<and> hp p - amount \<le> 0 \<Longrightarrow> gameState (snd (Player_takeDamage amount p g)) = GAME_OVER"
    by (simp add: Player_takeDamage_manual)
  moreover have "cheatMode g \<or> 0 < hp p - amount \<Longrightarrow> gameState (snd (Player_takeDamage amount p g)) = gameState g"
    by (cases "cheatMode g") (auto simp: Player_takeDamage_cheat Player_takeDamage_manual)
  ultimately show ?thesis using gameOverCalls_takeDamage by blast
qed

lemma ui_demo_game [simp]:
  "ui demo_game = [ShowGameUI, UpdateScore 0, UpdateWave 1, UpdateHp 100 100]"
  by (simp add: demo_game_def start_def Game_new_def ui_call_def Let_def)

text \<open>Five hits of 20 on the fresh player (hp 100): hp ends at 0 and \<^verbatim>\<open>gameOver()\<close> has run once, in the fifth call.\<close>

theorem Player_takeDamage_hp_floor_witness:
  "0 \<le> hp demo_player \<and>
   hp (fst (takeDamages [20, 20, 20, 20, 20] (demo_player, demo_game))) = 0 \<and>
   gameOverCalls (snd (takeDamages [20, 20, 20, 20] (demo_player, demo_game))) = 0 \<and>
   hp (fst (takeDamages [20, 20, 20, 20] (demo_player, demo_game))) = 20 \<and>
   gameOverCalls (snd (Player_takeDamage 20 (fst (takeDamages [20, 20, 20, 20] (demo_player, demo_game)))
                                            (snd (takeDamages [20, 20, 20, 20] (demo_player, demo_game))))) = 1"
  using Player_takeDamage_hp_floor [of demo_player "[20, 20, 20, 20, 20]" demo_game 20]
        Player_takeDamage_hp_floor
          [of "fst (takeDamages [20, 20, 20, 20] (demo_player, demo_game))" "[]"
              "snd (takeDamages [20, 20, 20, 20] (demo_player, demo_game))" 20]
  by (simp add: takeDamages_def Player_takeDamage_manual gameOverCalls_def)

text \<open>
  The sentence of the specification does not hold of the code: with hp 20, two calls of
  \<^verbatim>\<open>takeDamage(20)\<close> (two hostiles ramming the player in one frame)
  run \<^verbatim>\<open>gameOver()\<close> twice.
\<close>

theorem gameOver_twice_counterexample:
  "gameOverCalls (snd (takeDamages [20, 20] (demo_player\<lparr>hp := 20\<rparr>, demo_game))) = 2 \<and>
   gameOverCalls (snd (enemiesHitPlayer (demo_player\<lparr>hp := 20\<rparr>)
      (field [] [mkEnemy 380 530 Scout, mkEnemy 385 535 Scout]))) = 2"
proof
  show "gameOverCalls (snd (takeDamages [20, 20] (demo_player\<lparr>hp := 20\<rparr>, demo_game))) = 2"
    by (simp add: takeDamages_def Player_takeDamage_manual gameOverCalls_def)
  show "gameOverCalls (snd (enemiesHitPlayer (demo_player\<lparr>hp := 20\<rparr>)
      (field [] [mkEnemy 380 530 Scout, mkEnemy 385 535 Scout]))) = 2"
    by (simp add: enemiesHitPlayer_def enemyHitsPlayer_def field_def Let_def case_prod_beta
        Player_takeDamage_manual gameOverCalls_def checkCollision_iff)
qed

section \<open>The autopilot without a target\<close>

lemma Player_updateAI_idle:
  "enemies g = [] \<Longrightarrow>
   Player_updateAI deltaTime g p =
     p\<lparr>x := (if x p + width p / 2 < g_width g / 2
               then x p + speed p * deltaTime else x p - speed p * deltaTime)\<rparr>"
  by (simp add: Player_updateAI_def)

lemma Player_updateAI_y: "y (Player_updateAI deltaTime g p) = y p"
  by (simp add: Player_updateAI_def split: option.splits)

text \<open>
  C6. With no enemy in the collection the autopilot has no deadband: the branch of lines
  166-171 is an if/else, so the player moves by \<open>speed * deltaTime\<close> in every frame, to the
  right when its centre is left of the arena's centre and to the left otherwise, also
  when it is exactly centred. The vertical position is not touched.
\<close>

theorem Player_updateAI_idle_never_rests:
  assumes "enemies g = []" and "speed p * deltaTime \<noteq> 0"
  shows "x (Player_updateAI deltaTime g p) \<noteq> x p \<and>
         \<bar>x (Player_updateAI deltaTime g p) - x p\<bar> = \<bar>speed p * deltaTime\<bar> \<and>
         y (Player_updateAI deltaTime g p) = y p"
  using assms by (simp add: Player_updateAI_idle Player_updateAI_y)

text \<open>
  The fresh player is exactly centred (370 + 60 / 2 = 800 / 2); in a frame of 1/50 s the
  autopilot moves it 8 px to the left, out of a deadband of 10 px it is then pulled back.
\<close>

theorem Player_updateAI_idle_never_rests_witness:
  "enemies (demo_game\<lparr>cheatMode := True\<rparr>) = [] \<and>
   speed demo_player * (1 / 50) \<noteq> 0 \<and>
   x demo_player + width demo_player / 2 = g_width demo_game / 2 \<and>
   x (Player_updateAI (1 / 50) (demo_game\<lparr>cheatMode := True\<rparr>) demo_player) = 362 \<and>
   x (Player_updateAI (1 / 50) (demo_game\<lparr>cheatMode := True\<rparr>)
        (Player_updateAI (1 / 50) (demo_game\<lparr>cheatMode := True\<rparr>) demo_player)) = 370"
  using Player_updateAI_idle_never_rests [of "demo_game\<lparr>cheatMode := True\<rparr>" demo_player "1 / 50"]
  by (simp add: Player_updateAI_idle)

section \<open>The frame: what each block of update touches\<close>

lemma bulletHitsEnemy_fields [simp]:
  "g_width (bulletHitsEnemy j i g) = g_width g"
  "g_height (bulletHitsEnemy j i g) = g_height g"
  "player (bulletHitsEnemy j i g) = player g"
  "wave (bulletHitsEnemy j i g) = wave g"
  "isRunning (bulletHitsEnemy j i g) = isRunning g"
  "isPaused (bulletHitsEnemy j i g) = isPaused g"
  "cheatMode (bulletHitsEnemy j i g) = cheatMode g"
  "gameState (bulletHitsEnemy j i g) = gameState g"
  "enemyTimer (bulletHitsEnemy j i g) = enemyTimer g"
  "enemyInterval (bulletHitsEnemy j i g) = enemyInterval g"
  "length (enemies (bulletHitsEnemy j i g)) = length (enemies g)"
  by (simp_all add: bulletHitsEnemy_def enemies_Enemy_takeDamage)

lemma bulletsHitEnemies_fields [simp]:
  "g_width (bulletsHitEnemies g) = g_width g"
  "g_height (bulletsHitEnemies g) = g_height g"
  "player (bulletsHitEnemies g) = player g"
  "wave (bulletsHitEnemies g) = wave g"
  "isRunning (bulletsHitEnemies g) = isRunning g"
  "isPaused (bulletsHitEnemies g) = isPaused g"
  "cheatMode (bulletsHitEnemies g) = cheatMode g"
  "gameState (bulletsHitEnemies g) = gameState g"
  "enemyTimer (bulletsHitEnemies g) = enemyTimer g"
  "enemyInterval (bulletsHitEnemies g) = enemyInterval g"
proof -
  let ?P = "\<lambda>G. g_width G = g_width g \<and> g_height G = g_height g \<and> player G = player g \<and>
      wave G = wave g \<and> isRunning G = isRunning g \<and> isPaused G = isPaused g \<and>
      cheatMode G = cheatMode g \<and> gameState G = gameState g \<and> enemyTimer G = enemyTimer g \<and>
      enemyInterval G = enemyInterval g"
  have inner: "?P (fold (bulletHitsEnemy j) xs G)" if "?P G" for j xs G
    by (rule fold_invariant [where P = ?P]) (use that in simp_all)
  have "?P (bulletsHitEnemies g)"
    unfolding bulletsHitEnemies_def
    by (rule fold_invariant [where P = ?P]) (simp, rule inner)
  then show
    "g_width (bulletsHitEnemies g) = g_width g"
    "g_height (bulletsHitEnemies g) = g_height g"
    "player (bulletsHitEnemies g) = player g"
    "wave (bulletsHitEnemies g) = wave g"
    "isRunning (bulletsHitEnemies g) = isRunning g"
    "isPaused (bulletsHitEnemies g) = isPaused g"
    "cheatMode (bulletsHitEnemies g) = cheatMode g"
    "gameState (bulletsHitEnemies g) = gameState g"
    "enemyTimer (bulletsHitEnemies g) = enemyTimer g"
    "enemyInterval (bulletsHitEnemies g) = enemyInterval g"
    by simp_all
qed

text \<open>The collision pass only appends particles, and every particle it appends is live.\<close>

lemma particles_bulletsHitEnemies:
  "\<exists>ps. particles (bulletsHitEnemies g) = particles g @ ps \<and> (\<forall>q\<in>set ps. \<not> p_marked q)"
proof -
  let ?P = "\<lambda>G. \<exists>ps. particles G = particles g @ ps \<and> (\<forall>q\<in>set ps. \<not> p_marked q)"
  have step: "?P (bulletHitsEnemy j i G)" if PG: "?P G" for j i G
  proof -
    obtain ps where ps: "particles G = particles g @ ps" "\<forall>q\<in>set ps. \<not> p_marked q"
      using PG by blast
    show ?thesis
    proof (cases "checkCollision (bullets G ! j) (enemies G ! i)")
      case False
      then show ?thesis using PG by (simp add: bulletHitsEnemy_def)
    next
      case True
      let ?G1 = "G\<lparr>bullets := (bullets G)[j := (bullets G ! j)\<lparr>markedForDeletion := True\<rparr>]\<rparr>"
      obtain ps' where "particles (Enemy_takeDamage i 1 ?G1) = particles ?G1 @ ps'" "\<forall>q\<in>set ps'. \<not> p_marked q"
        using particles_Enemy_takeDamage [of i 1 ?G1] by blast
      then have "particles (bulletHitsEnemy j i G) = particles g @ (ps @ ps')" "\<forall>q\<in>set (ps @ ps'). \<not> p_marked q"
        using True ps by (auto simp: bulletHitsEnemy_def)
      then show ?thesis by blast
    qed
  qed
  have inner: "?P (fold (bulletHitsEnemy j) xs G)" if "?P G" for j xs G
    by (rule fold_invariant [where P = ?P]) (use that step in blast)+
  show ?thesis
    unfolding bulletsHitEnemies_def
    by (rule fold_invariant [where P = ?P]) (simp, rule inner)
qed

lemma checkCollisions_Some:
  assumes "player g = Some p"
  shows "\<exists>g'. checkCollisions g = Inr g' \<and>
           g' = (snd (enemiesHitPlayer p (bulletsHitEnemies g)))\<lparr>player := Some (fst (enemiesHitPlayer p (bulletsHitEnemies g)))\<rparr>"
  using assms by (simp add: checkCollisions_def Let_def case_prod_beta)

lemma checkCollisions_frame_all:
  assumes "checkCollisions g = Inr g'"
  shows "wave g' = wave g \<and> enemyInterval g' = enemyInterval g \<and> isRunning g' = isRunning g \<and>
    isPaused g' = isPaused g \<and> cheatMode g' = cheatMode g \<and> g_width g' = g_width g \<and> g_height g' = g_height g \<and>
    length (bullets g') = length (bullets g) \<and> length (enemies g') = length (enemies g) \<and>
    (\<exists>ps. particles g' = particles g @ ps \<and> (\<forall>q\<in>set ps. \<not> p_marked q))"
proof -
  let ?g1 = "bulletsHitEnemies g"
  obtain ps1 where ps1: "particles ?g1 = particles g @ ps1" "\<forall>q\<in>set ps1. \<not> p_marked q"
    using particles_bulletsHitEnemies by blast
  have len: "length (bullets ?g1) = length (bullets g)" "length (enemies ?g1) = length (enemies g)"
    using collision_pass_effect [of g] by simp_all
  show ?thesis
  proof (cases "player ?g1")
    case None
    then have g': "g' = ?g1" using assms by (simp add: checkCollisions_def Let_def split: if_splits)
    show ?thesis unfolding g' using len ps1 by simp
  next
    case (Some p)
    obtain h s u ps r where eff:
      "enemiesHitPlayer p ?g1 =
       (p\<lparr>hp := h\<rparr>,
        ?g1\<lparr>enemies := map (\<lambda>e. if checkCollision e p then e\<lparr>markedForDeletion := True\<rparr> else e) (enemies ?g1),
          gameState := s, ui := u, particles := particles ?g1 @ ps, rand_pos := r\<rparr>)"
      "\<forall>q\<in>set ps. \<not> p_marked q \<and> (\<exists>e\<in>set (enemies ?g1). checkCollision e p \<and> p_x q = x e \<and> p_y q = y e)"
      using player_collisions_effect [of p ?g1] by blast
    have g': "g' = (snd (enemiesHitPlayer p ?g1))\<lparr>player := Some (fst (enemiesHitPlayer p ?g1))\<rparr>"
      using assms Some by (simp add: checkCollisions_def Let_def case_prod_beta)
    have "particles g' = particles g @ (ps1 @ ps)" "\<forall>q\<in>set (ps1 @ ps). \<not> p_marked q"
      unfolding g' eff(1) using ps1 eff(2) by auto
    then have "\<exists>ps. particles g' = particles g @ ps \<and> (\<forall>q\<in>set ps. \<not> p_marked q)" by blast
    moreover have "wave g' = wave g \<and> enemyInterval g' = enemyInterval g \<and> isRunning g' = isRunning g \<and>
      isPaused g' = isPaused g \<and> cheatMode g' = cheatMode g \<and> g_width g' = g_width g \<and> g_height g' = g_height g \<and>
      length (bullets g') = length (bullets g) \<and> length (enemies g') = length (enemies g)"
      unfolding g' eff(1) using len by simp
    ultimately show ?thesis by blast
  qed
qed

lemma Enemy_new_shape:
  "snd (Enemy_new ex ey ty g) = g\<lparr>rand_pos := rand_pos g + (if ty = Scout then 1 else 0)\<rparr> \<and>
   \<not> markedForDeletion (fst (Enemy_new ex ey ty g)) \<and> 0 \<le> scoreValue (fst (Enemy_new ex ey ty g)) \<and>
   etype (fst (Enemy_new ex ey ty g)) = ty"
  by (cases ty) (simp_all add: Enemy_new_def Math_random_def Let_def)

lemma spawnEnemy_shape:
  "\<exists>e r. spawnEnemy g = g\<lparr>rand_pos := r, enemies := enemies g @ [e]\<rparr> \<and> \<not> markedForDeletion e \<and> 0 \<le> scoreValue e"
proof -
  let ?g2 = "g\<lparr>rand_pos := rand_pos g + 1 + 1\<rparr>"
  let ?ex = "rand g (rand_pos g) * (g_width g - 50)"
  let ?ty = "if rand g (rand_pos g + 1) < 0.3 + (of_int (wave g) * 0.05) then Fighter else Scout"
  let ?r = "Enemy_new ?ex (- 50) ?ty ?g2"
  note sh = Enemy_new_shape [of ?ex "- 50" ?ty ?g2]
  have "spawnEnemy g = (snd ?r)\<lparr>enemies := enemies (snd ?r) @ [fst ?r]\<rparr>"
    by (simp add: spawnEnemy_def Math_random_def Let_def case_prod_beta)
  also have "\<dots> = g\<lparr>rand_pos := rand_pos g + 1 + 1 + (if ?ty = Scout then 1 else 0), enemies := enemies g @ [fst ?r]\<rparr>"
    using sh by simp
  finally show ?thesis using sh by blast
qed

lemma spawnBoss_shape:
  "\<exists>es. spawnBoss g = g\<lparr>enemies := enemies g @ es\<rparr> \<and> (\<forall>e\<in>set es. \<not> markedForDeletion e \<and> 0 \<le> scoreValue e)"
proof (cases "list_ex (\<lambda>e. etype e = Boss) (enemies g)")
  case True
  then have "spawnBoss g = g\<lparr>enemies := enemies g @ []\<rparr>" by (simp add: spawnBoss_def)
  then show ?thesis by (intro exI[of _ "[]"]) simp
next
  case False
  let ?r = "Enemy_new (g_width g / 2 - 60) (- 100) Boss g"
  note sh = Enemy_new_shape [of "g_width g / 2 - 60" "- 100" Boss g]
  have "spawnBoss g = (snd ?r)\<lparr>enemies := enemies (snd ?r) @ [fst ?r]\<rparr>"
    using False by (simp add: spawnBoss_def case_prod_beta)
  also have "\<dots> = g\<lparr>enemies := enemies g @ [fst ?r]\<rparr>" using sh by simp
  finally show ?thesis using sh by (intro exI[of _ "[fst ?r]"]) simp
qed

lemma hp_Player_update: "hp (fst (Player_update deltaTime p g)) = hp p"
proof -
  have ai: "hp (Player_updateAI deltaTime g p) = hp p"
    by (simp add: Player_updateAI_def split: option.splits)
  have man: "hp (Player_updateManual deltaTime g p) = hp p"
    by (simp add: Player_updateManual_def Let_def)
  show ?thesis using ai man by (simp add: Player_update_def Let_def)
qed

lemma snd_if_pair: "snd (if c then (a, b) else (a', b')) = (if c then b else b')"
  by simp

lemma shot_or_not:
  "(if c then g\<lparr>bullets := bullets g @ [b0]\<rparr> else g) = g\<lparr>bullets := bullets g @ (if c then [b0] else [])\<rparr>"
  by simp

lemma snd_Player_update:
  "\<exists>bs. snd (Player_update deltaTime p g) = g\<lparr>bullets := bullets g @ bs\<rparr>"
  unfolding Player_update_def Let_def snd_if_pair Player_shoot_def shot_or_not
  by (rule exI, rule refl)

lemma updatePlayer_shape:
  "\<exists>p' bs. updatePlayer deltaTime p g = g\<lparr>bullets := bullets g @ bs, player := Some p'\<rparr> \<and> hp p' = hp p"
proof -
  obtain bs where "snd (Player_update deltaTime p g) = g\<lparr>bullets := bullets g @ bs\<rparr>"
    using snd_Player_update by blast
  then have "updatePlayer deltaTime p g = g\<lparr>bullets := bullets g @ bs, player := Some (fst (Player_update deltaTime p g))\<rparr>"
    by (simp add: updatePlayer_def case_prod_beta)
  then show ?thesis using hp_Player_update by blast
qed

lemma scoreValue_Enemy_update [simp]: "scoreValue (Enemy_update deltaTime g e) = scoreValue e"
  by (simp add: Enemy_update_def Let_def)

lemma updateBullets_shape:
  "updateBullets deltaTime g =
     g\<lparr>bullets := filter (\<lambda>b. \<not> markedForDeletion b) (map (Bullet_update deltaTime g) (bullets g))\<rparr>"
  by (simp add: updateBullets_def Let_def)

lemma spawnEnemy_fields [simp]:
  "g_width (spawnEnemy g) = g_width g" "g_height (spawnEnemy g) = g_height g"
  "player (spawnEnemy g) = player g" "bullets (spawnEnemy g) = bullets g"
  "particles (spawnEnemy g) = particles g" "score (spawnEnemy g) = score g"
  "wave (spawnEnemy g) = wave g" "isRunning (spawnEnemy g) = isRunning g"
  "isPaused (spawnEnemy g) = isPaused g" "cheatMode (spawnEnemy g) = cheatMode g"
  "gameState (spawnEnemy g) = gameState g" "enemyTimer (spawnEnemy g) = enemyTimer g"
  "enemyInterval (spawnEnemy g) = enemyInterval g" "backgroundY (spawnEnemy g) = backgroundY g"
  "keys (spawnEnemy g) = keys g" "rand (spawnEnemy g) = rand g"
  "explosionDraws (spawnEnemy g) = explosionDraws g" "timers (spawnEnemy g) = timers g"
  "ui (spawnEnemy g) = ui g"
proof -
  obtain e r where eq: "spawnEnemy g = g\<lparr>rand_pos := r, enemies := enemies g @ [e]\<rparr>"
    using spawnEnemy_shape by blast
  show "g_width (spawnEnemy g) = g_width g" "g_height (spawnEnemy g) = g_height g"
    "player (spawnEnemy g) = player g" "bullets (spawnEnemy g) = bullets g"
    "particles (spawnEnemy g) = particles g" "score (spawnEnemy g) = score g"
    "wave (spawnEnemy g) = wave g" "isRunning (spawnEnemy g) = isRunning g"
    "isPaused (spawnEnemy g) = isPaused g" "cheatMode (spawnEnemy g) = cheatMode g"
    "gameState (spawnEnemy g) = gameState g" "enemyTimer (spawnEnemy g) = enemyTimer g"
    "enemyInterval (spawnEnemy g) = enemyInterval g" "backgroundY (spawnEnemy g) = backgroundY g"
    "keys (spawnEnemy g) = keys g" "rand (spawnEnemy g) = rand g"
    "explosionDraws (spawnEnemy g) = explosionDraws g" "timers (spawnEnemy g) = timers g"
    "ui (spawnEnemy g) = ui g"
    unfolding eq by simp_all
qed

lemma enemies_spawnEnemy:
  "\<exists>e. enemies (spawnEnemy g) = enemies g @ [e] \<and> \<not> markedForDeletion e \<and> 0 \<le> scoreValue e"
  using spawnEnemy_shape [of g] by (elim exE conjE) simp

lemma updateEnemies_shape:
  "\<exists>t r es. updateEnemies deltaTime g = g\<lparr>enemyTimer := t, rand_pos := r, enemies := es\<rparr> \<and>
     (\<forall>e\<in>set es. \<not> markedForDeletion e) \<and>
     ((\<forall>e\<in>set (enemies g). 0 \<le> scoreValue e) \<longrightarrow> (\<forall>e\<in>set es. 0 \<le> scoreValue e))"
proof -
  let ?U = "updateEnemies deltaTime g"
  have "?U = g\<lparr>enemyTimer := enemyTimer ?U, rand_pos := rand_pos ?U, enemies := enemies ?U\<rparr>"
    by (rule game.equality) (simp_all add: updateEnemies_def Let_def)
  moreover have "\<forall>e\<in>set (enemies ?U). \<not> markedForDeletion e"
    by (simp add: updateEnemies_def Let_def)
  moreover have "\<forall>e\<in>set (enemies ?U). 0 \<le> scoreValue e" if "\<forall>e\<in>set (enemies g). 0 \<le> scoreValue e"
  proof (cases "enemyTimer g - deltaTime \<le> 0")
    case True
    obtain e where "enemies (spawnEnemy (g\<lparr>enemyTimer := enemyTimer g - deltaTime\<rparr>)) = enemies g @ [e]"
      "0 \<le> scoreValue e"
      using enemies_spawnEnemy [of "g\<lparr>enemyTimer := enemyTimer g - deltaTime\<rparr>"] by auto
    then show ?thesis using True that by (auto simp: updateEnemies_def Let_def)
  next
    case False
    then show ?thesis using that by (auto simp: updateEnemies_def Let_def)
  qed
  ultimately show ?thesis by blast
qed

text \<open>
  The state handed to the collision pass: only the player, the bullets, the enemies, the
  spawn timer and the random position have changed, and both collections hold live
  members only.
\<close>

lemma updateEntities_shape:
  "\<exists>p' bs es t r.
     updateEntities deltaTime p g = g\<lparr>player := Some p', bullets := bs, enemies := es, enemyTimer := t, rand_pos := r\<rparr> \<and>
     hp p' = hp p \<and>
     (\<forall>b\<in>set bs. \<not> markedForDeletion b) \<and> (\<forall>e\<in>set es. \<not> markedForDeletion e) \<and>
     ((\<forall>e\<in>set (enemies g). 0 \<le> scoreValue e) \<longrightarrow> (\<forall>e\<in>set es. 0 \<le> scoreValue e))"
proof -
  obtain p' bs0 where g1: "updatePlayer deltaTime p g = g\<lparr>bullets := bullets g @ bs0, player := Some p'\<rparr>"
    "hp p' = hp p"
    using updatePlayer_shape by blast
  define G1 where "G1 = g\<lparr>bullets := bullets g @ bs0, player := Some p'\<rparr>"
  define bs where "bs = filter (\<lambda>b. \<not> markedForDeletion b) (map (Bullet_update deltaTime G1) (bullets G1))"
  define G2 where "G2 = G1\<lparr>bullets := bs\<rparr>"
  have g2: "updateBullets deltaTime G1 = G2" by (simp add: updateBullets_shape G2_def bs_def)
  obtain t r es where g3: "updateEnemies deltaTime G2 = G2\<lparr>enemyTimer := t, rand_pos := r, enemies := es\<rparr>"
    "\<forall>e\<in>set es. \<not> markedForDeletion e"
    "(\<forall>e\<in>set (enemies G2). 0 \<le> scoreValue e) \<longrightarrow> (\<forall>e\<in>set es. 0 \<le> scoreValue e)"
    using updateEnemies_shape [of deltaTime G2] by blast
  have "updateEntities deltaTime p g = G2\<lparr>enemyTimer := t, rand_pos := r, enemies := es\<rparr>"
    unfolding updateEntities_def g1(1) G1_def [symmetric] g2 g3(1) ..
  also have "\<dots> = g\<lparr>player := Some p', bullets := bs, enemies := es, enemyTimer := t, rand_pos := r\<rparr>"
    by (rule game.equality) (simp_all add: G2_def G1_def)
  finally have eq: "updateEntities deltaTime p g =
      g\<lparr>player := Some p', bullets := bs, enemies := es, enemyTimer := t, rand_pos := r\<rparr>" .
  have live: "\<forall>b\<in>set bs. \<not> markedForDeletion b" by (simp add: bs_def)
  have "enemies G2 = enemies g" by (simp add: G2_def G1_def)
  then have sc: "(\<forall>e\<in>set (enemies g). 0 \<le> scoreValue e) \<longrightarrow> (\<forall>e\<in>set es. 0 \<le> scoreValue e)"
    using g3(3) by simp
  show ?thesis
    using eq g1(2) live g3(2) sc
    by (intro exI[of _ p'] exI[of _ bs] exI[of _ es] exI[of _ t] exI[of _ r]) simp
qed

section \<open>The frame as a whole\<close>

lemma update_idle: "\<not> isRunning g \<or> isPaused g \<Longrightarrow> update deltaTime g = Inr g"
  by (auto simp: update_def)

lemma scrollBackground_shape:
  "\<exists>b. scrollBackground deltaTime g = g\<lparr>backgroundY := b\<rparr>"
proof -
  have "scrollBackground deltaTime g =
      g\<lparr>backgroundY := (if g_height g \<le> backgroundY g + 50 * deltaTime then 0 else backgroundY g + 50 * deltaTime)\<rparr>"
    by (simp add: scrollBackground_def Let_def)
  then show ?thesis by blast
qed

lemma updateParticles_shape:
  "updateParticles deltaTime g =
     g\<lparr>particles := filter (\<lambda>p. \<not> p_marked p) (map (Particle_update deltaTime) (particles g))\<rparr>"
  by (simp add: updateParticles_def Let_def)

text \<open>The two unconditional blocks of a frame (background, particles).\<close>

lemma prelude_shape:
  "\<exists>b. updateParticles deltaTime (scrollBackground deltaTime g) =
     g\<lparr>backgroundY := b,
       particles := filter (\<lambda>p. \<not> p_marked p) (map (Particle_update deltaTime) (particles g))\<rparr>"
proof -
  obtain b where "scrollBackground deltaTime g = g\<lparr>backgroundY := b\<rparr>"
    using scrollBackground_shape by blast
  then have "updateParticles deltaTime (scrollBackground deltaTime g) =
     g\<lparr>backgroundY := b,
       particles := filter (\<lambda>p. \<not> p_marked p) (map (Particle_update deltaTime) (particles g))\<rparr>"
    by (simp add: updateParticles_shape)
  then show ?thesis by blast
qed

lemma update_not_playing:
  assumes "isRunning g" "\<not> isPaused g" "gameState g \<noteq> PLAYING"
  shows "update deltaTime g = Inr (updateParticles deltaTime (scrollBackground deltaTime g))"
proof -
  obtain b where "updateParticles deltaTime (scrollBackground deltaTime g) =
     g\<lparr>backgroundY := b, particles := filter (\<lambda>p. \<not> p_marked p) (map (Particle_update deltaTime) (particles g))\<rparr>"
    using prelude_shape by blast
  then have "gameState (updateParticles deltaTime (scrollBackground deltaTime g)) = gameState g" by simp
  then show ?thesis using assms by (simp add: update_def Let_def)
qed

lemma update_playing:
  assumes "isRunning g" "\<not> isPaused g" "gameState g = PLAYING" "player g = Some p"
  shows "\<exists>g4. checkCollisions (updateEntities deltaTime p (updateParticles deltaTime (scrollBackground deltaTime g))) = Inr g4 \<and>
          update deltaTime g = Inr (waveProgression g4)"
proof -
  let ?g2 = "updateParticles deltaTime (scrollBackground deltaTime g)"
  obtain b where g2: "?g2 =
     g\<lparr>backgroundY := b, particles := filter (\<lambda>p. \<not> p_marked p) (map (Particle_update deltaTime) (particles g))\<rparr>"
    using prelude_shape by blast
  have st: "gameState ?g2 = PLAYING" "player ?g2 = Some p" using assms(3,4) unfolding g2 by simp_all
  obtain p' bs es t r where g3: "updateEntities deltaTime p ?g2 =
      ?g2\<lparr>player := Some p', bullets := bs, enemies := es, enemyTimer := t, rand_pos := r\<rparr>"
    using updateEntities_shape [of deltaTime p ?g2] by blast
  then have "player (updateEntities deltaTime p ?g2) = Some p'" by simp
  then obtain g4 where g4: "checkCollisions (updateEntities deltaTime p ?g2) = Inr g4"
    using checkCollisions_Some by blast
  then have "update deltaTime g = Inr (waveProgression g4)"
    using assms(1,2) st by (simp add: update_def Let_def)
  then show ?thesis using g4 by blast
qed

lemma update_no_player:
  assumes "isRunning g" "\<not> isPaused g" "gameState g = PLAYING" "player g = None"
  shows "update deltaTime g = Inl TypeError"
proof -
  let ?g2 = "updateParticles deltaTime (scrollBackground deltaTime g)"
  obtain b where g2: "?g2 =
     g\<lparr>backgroundY := b, particles := filter (\<lambda>p. \<not> p_marked p) (map (Particle_update deltaTime) (particles g))\<rparr>"
    using prelude_shape by blast
  have st: "gameState ?g2 = PLAYING" "player ?g2 = None" using assms(3,4) unfolding g2 by simp_all
  then show ?thesis using assms(1,2) by (simp add: update_def Let_def)
qed

lemma waveProgression_shape:
  "\<exists>es. waveProgression g =
     (if score g > wave g * 500
      then g\<lparr>wave := wave g + 1, ui := ui g @ [UpdateWave (wave g + 1)],
             enemyInterval := waveInterval (wave g + 1), enemies := enemies g @ es\<rparr>
      else g) \<and> (\<forall>e\<in>set es. \<not> markedForDeletion e \<and> 0 \<le> scoreValue e)"
proof (cases "score g > wave g * 500")
  case False
  then show ?thesis by (intro exI[of _ "[]"]) (simp add: waveProgression_def)
next
  case True
  let ?g3 = "g\<lparr>wave := wave g + 1, ui := ui g @ [UpdateWave (wave g + 1)], enemyInterval := waveInterval (wave g + 1)\<rparr>"
  obtain es where es: "spawnBoss ?g3 = ?g3\<lparr>enemies := enemies ?g3 @ es\<rparr>"
    "\<forall>e\<in>set es. \<not> markedForDeletion e \<and> 0 \<le> scoreValue e"
    using spawnBoss_shape by blast
  show ?thesis
  proof (cases "(wave g + 1) mod 5 = 0")
    case True
    then show ?thesis
      using \<open>score g > wave g * 500\<close> es
      by (intro exI[of _ es]) (simp add: waveProgression_def Let_def ui_call_def)
  next
    case False
    then show ?thesis
      using \<open>score g > wave g * 500\<close>
      by (intro exI[of _ "[]"]) (simp add: waveProgression_def Let_def ui_call_def)
  qed
qed

lemma waveProgression_fields:
  "wave (waveProgression g) = (if score g > wave g * 500 then wave g + 1 else wave g)"
  "enemyInterval (waveProgression g) = (if score g > wave g * 500 then waveInterval (wave g + 1) else enemyInterval g)"
  "particles (waveProgression g) = particles g" "bullets (waveProgression g) = bullets g"
  "score (waveProgression g) = score g" "gameState (waveProgression g) = gameState g"
  "isRunning (waveProgression g) = isRunning g" "isPaused (waveProgression g) = isPaused g"
  "player (waveProgression g) = player g"
  using waveProgression_shape [of g] by (auto split: if_splits)

subsection \<open>The score never decreases\<close>

lemma bulletHitsEnemy_scores:
  assumes "i < length (enemies G)" and "\<forall>e\<in>set (enemies G). 0 \<le> scoreValue e"
  shows "score G \<le> score (bulletHitsEnemy j i G) \<and> (\<forall>e\<in>set (enemies (bulletHitsEnemy j i G)). 0 \<le> scoreValue e)"
proof (cases "checkCollision (bullets G ! j) (enemies G ! i)")
  case False
  then show ?thesis using assms(2) by (simp add: bulletHitsEnemy_def)
next
  case True
  let ?e = "(enemies G ! i)\<lparr>e_hp := e_hp (enemies G ! i) - 1,
              markedForDeletion := (e_hp (enemies G ! i) - 1 \<le> 0 \<or> markedForDeletion (enemies G ! i))\<rparr>"
  have nn: "0 \<le> scoreValue (enemies G ! i)" using assms by simp
  have en: "enemies (bulletHitsEnemy j i G) = (enemies G)[i := ?e]"
    using True by (simp add: enemies_bulletHitsEnemy)
  have "set ((enemies G)[i := ?e]) \<subseteq> insert ?e (set (enemies G))" by (rule set_update_subset_insert)
  then have "\<forall>e\<in>set (enemies (bulletHitsEnemy j i G)). 0 \<le> scoreValue e"
    unfolding en using assms(2) nn by auto
  moreover have "score G \<le> score (bulletHitsEnemy j i G)"
    using True nn by (simp add: bulletHitsEnemy_def score_Enemy_takeDamage)
  ultimately show ?thesis by blast
qed

lemma bulletsHitEnemies_scores:
  assumes "\<forall>e\<in>set (enemies g). 0 \<le> scoreValue e"
  shows "score g \<le> score (bulletsHitEnemies g) \<and> (\<forall>e\<in>set (enemies (bulletsHitEnemies g)). 0 \<le> scoreValue e)"
proof -
  let ?P = "\<lambda>G::game. score g \<le> score G \<and> (\<forall>e\<in>set (enemies G). 0 \<le> scoreValue e)"
  have inner: "?P (fold (bulletHitsEnemy j) [0..<length (enemies G)] G)" if PG: "?P G" for j G
  proof -
    let ?Q = "\<lambda>H::game. length (enemies H) = length (enemies G) \<and> ?P H"
    have "?Q (fold (bulletHitsEnemy j) [0..<length (enemies G)] G)"
    proof (rule fold_invariant [where P = ?Q])
      show "?Q G" using PG by simp
    next
      fix i and H :: game assume i: "i \<in> set [0..<length (enemies G)]" and QH: "?Q H"
      then have "i < length (enemies H)" by simp
      from bulletHitsEnemy_scores [OF this, of j] QH
      show "?Q (bulletHitsEnemy j i H)" by auto
    qed
    then show ?thesis by simp
  qed
  have "?P (bulletsHitEnemies g)"
    unfolding bulletsHitEnemies_def
    by (rule fold_invariant [where P = ?P]) (use assms inner in auto)
  then show ?thesis .
qed

lemma checkCollisions_scores:
  assumes "checkCollisions g = Inr g'" and "\<forall>e\<in>set (enemies g). 0 \<le> scoreValue e"
  shows "score g \<le> score g' \<and> (\<forall>e\<in>set (enemies g'). 0 \<le> scoreValue e)"
proof -
  let ?g1 = "bulletsHitEnemies g"
  note b = bulletsHitEnemies_scores [OF assms(2)]
  show ?thesis
  proof (cases "player ?g1")
    case None
    then have "g' = ?g1" using assms(1) by (simp add: checkCollisions_def Let_def split: if_splits)
    then show ?thesis using b by simp
  next
    case (Some p)
    obtain h s u ps r where eff:
      "enemiesHitPlayer p ?g1 =
       (p\<lparr>hp := h\<rparr>,
        ?g1\<lparr>enemies := map (\<lambda>e. if checkCollision e p then e\<lparr>markedForDeletion := True\<rparr> else e) (enemies ?g1),
          gameState := s, ui := u, particles := particles ?g1 @ ps, rand_pos := r\<rparr>)"
      using player_collisions_effect [of p ?g1] by blast
    have g': "g' = (snd (enemiesHitPlayer p ?g1))\<lparr>player := Some (fst (enemiesHitPlayer p ?g1))\<rparr>"
      using assms(1) Some by (simp add: checkCollisions_def Let_def case_prod_beta)
    show ?thesis unfolding g' eff using b by auto
  qed
qed

lemma update_scores:
  assumes "update deltaTime g = Inr g'" and "\<forall>e\<in>set (enemies g). 0 \<le> scoreValue e"
  shows "score g \<le> score g' \<and> (\<forall>e\<in>set (enemies g'). 0 \<le> scoreValue e)"
proof (cases "\<not> isRunning g \<or> isPaused g")
  case True
  then show ?thesis using assms update_idle [OF True] by simp
next
  case run: False
  let ?g2 = "updateParticles deltaTime (scrollBackground deltaTime g)"
  obtain b where g2: "?g2 =
     g\<lparr>backgroundY := b, particles := filter (\<lambda>p. \<not> p_marked p) (map (Particle_update deltaTime) (particles g))\<rparr>"
    using prelude_shape by blast
  show ?thesis
  proof (cases "gameState g = PLAYING")
    case False
    then have "g' = ?g2" using assms(1) run update_not_playing by simp
    then show ?thesis unfolding g2 using assms(2) by simp
  next
    case True
    show ?thesis
    proof (cases "player g")
      case None
      then show ?thesis using assms(1) run True update_no_player by simp
    next
      case (Some p)
      obtain g4 where g4: "checkCollisions (updateEntities deltaTime p ?g2) = Inr g4"
        "update deltaTime g = Inr (waveProgression g4)"
        using update_playing [of g p deltaTime] run True Some by blast
      obtain p' bs es t r where g3: "updateEntities deltaTime p ?g2 =
          ?g2\<lparr>player := Some p', bullets := bs, enemies := es, enemyTimer := t, rand_pos := r\<rparr>"
        "(\<forall>e\<in>set (enemies ?g2). 0 \<le> scoreValue e) \<longrightarrow> (\<forall>e\<in>set es. 0 \<le> scoreValue e)"
        using updateEntities_shape [of deltaTime p ?g2] by blast
      have "\<forall>e\<in>set (enemies (updateEntities deltaTime p ?g2)). 0 \<le> scoreValue e"
        "score (updateEntities deltaTime p ?g2) = score g"
        using g3 assms(2) unfolding g2 by simp_all
      with checkCollisions_scores [OF g4(1)]
      have c: "score g \<le> score g4" "\<forall>e\<in>set (enemies g4). 0 \<le> scoreValue e" by simp_all
      obtain es' where wp: "waveProgression g4 =
         (if score g4 > wave g4 * 500
          then g4\<lparr>wave := wave g4 + 1, ui := ui g4 @ [UpdateWave (wave g4 + 1)],
                 enemyInterval := waveInterval (wave g4 + 1), enemies := enemies g4 @ es'\<rparr>
          else g4)" "\<forall>e\<in>set es'. \<not> markedForDeletion e \<and> 0 \<le> scoreValue e"
        using waveProgression_shape by blast
      have "g' = waveProgression g4" using assms(1) g4(2) by simp
      then show ?thesis unfolding wp(1) using c wp(2) by auto
    qed
  qed
qed

subsection \<open>The wave counter\<close>

lemma update_playing_wave:
  assumes "isRunning g" "\<not> isPaused g" "gameState g = PLAYING" "player g = Some p"
  shows "\<exists>g'. update deltaTime g = Inr g' \<and>
           wave g' = (if score g' > wave g * 500 then wave g + 1 else wave g) \<and>
           enemyInterval g' = (if score g' > wave g * 500 then waveInterval (wave g + 1) else enemyInterval g) \<and>
           isRunning g' \<and> \<not> isPaused g' \<and> player g' \<noteq> None \<and>
           (cheatMode g \<longrightarrow> cheatMode g' \<and> gameState g' = PLAYING)"
proof -
  let ?g2 = "updateParticles deltaTime (scrollBackground deltaTime g)"
  obtain b where g2: "?g2 =
     g\<lparr>backgroundY := b, particles := filter (\<lambda>p. \<not> p_marked p) (map (Particle_update deltaTime) (particles g))\<rparr>"
    using prelude_shape by blast
  obtain g4 where g4: "checkCollisions (updateEntities deltaTime p ?g2) = Inr g4"
    "update deltaTime g = Inr (waveProgression g4)"
    using update_playing [OF assms] by blast
  obtain p' bs es t r where g3: "updateEntities deltaTime p ?g2 =
      ?g2\<lparr>player := Some p', bullets := bs, enemies := es, enemyTimer := t, rand_pos := r\<rparr>"
    using updateEntities_shape [of deltaTime p ?g2] by blast
  let ?g3 = "updateEntities deltaTime p ?g2"
  have f3: "wave ?g3 = wave g" "enemyInterval ?g3 = enemyInterval g" "isRunning ?g3" "\<not> isPaused ?g3"
    "cheatMode ?g3 = cheatMode g" "gameState ?g3 = PLAYING" "player ?g3 = Some p'"
  proof -
    have "wave ?g2 = wave g" "enemyInterval ?g2 = enemyInterval g" "isRunning ?g2" "\<not> isPaused ?g2"
      "cheatMode ?g2 = cheatMode g" "gameState ?g2 = PLAYING"
      unfolding g2 using assms by simp_all
    then show "wave ?g3 = wave g" "enemyInterval ?g3 = enemyInterval g" "isRunning ?g3" "\<not> isPaused ?g3"
      "cheatMode ?g3 = cheatMode g" "gameState ?g3 = PLAYING" "player ?g3 = Some p'"
      unfolding g3 by simp_all
  qed
  note fr = checkCollisions_frame_all [OF g4(1)]
  have f4: "wave g4 = wave g" "enemyInterval g4 = enemyInterval g" "isRunning g4" "\<not> isPaused g4"
    "cheatMode g4 = cheatMode g"
    using fr f3 by simp_all
  have pl: "player g4 \<noteq> None"
    using g4(1) f3(7) by (auto simp: checkCollisions_def Let_def case_prod_beta)
  have gs: "gameState g4 = PLAYING" if "cheatMode g"
  proof -
    let ?g1 = "bulletsHitEnemies ?g3"
    have p1: "player ?g1 = Some p'" "cheatMode ?g1" "gameState ?g1 = PLAYING"
      using f3 that by simp_all
    obtain h s u ps r where eff:
      "enemiesHitPlayer p' ?g1 =
       (p'\<lparr>hp := h\<rparr>,
        ?g1\<lparr>enemies := map (\<lambda>e. if checkCollision e p' then e\<lparr>markedForDeletion := True\<rparr> else e) (enemies ?g1),
          gameState := s, ui := u, particles := particles ?g1 @ ps, rand_pos := r\<rparr>)"
      "cheatMode ?g1 \<longrightarrow> h = hp p' \<and> s = gameState ?g1 \<and> u = ui ?g1"
      using player_collisions_effect [of p' ?g1] by blast
    have "g4 = (snd (enemiesHitPlayer p' ?g1))\<lparr>player := Some (fst (enemiesHitPlayer p' ?g1))\<rparr>"
      using g4(1) p1(1) by (simp add: checkCollisions_def Let_def case_prod_beta)
    then show ?thesis unfolding eff(1) using eff(2) p1 by simp
  qed
  let ?g' = "waveProgression g4"
  have "wave ?g' = (if score ?g' > wave g * 500 then wave g + 1 else wave g)"
    "enemyInterval ?g' = (if score ?g' > wave g * 500 then waveInterval (wave g + 1) else enemyInterval g)"
    "isRunning ?g'" "\<not> isPaused ?g'" "player ?g' \<noteq> None"
    using f4 pl by (simp_all add: waveProgression_fields)
  moreover have "cheatMode g \<longrightarrow> cheatMode ?g' \<and> gameState ?g' = PLAYING"
    using gs f4(5) waveProgression_shape [of g4] by (auto simp: waveProgression_fields split: if_splits)
  ultimately show ?thesis using g4(2) by blast
qed

lemma update_wave_cases:
  assumes "update deltaTime g = Inr g'"
  shows "wave g' = wave g \<or> wave g' = wave g + 1"
proof (cases "\<not> isRunning g \<or> isPaused g")
  case True
  then show ?thesis using assms update_idle [OF True] by simp
next
  case run: False
  show ?thesis
  proof (cases "gameState g = PLAYING")
    case False
    obtain b where "updateParticles deltaTime (scrollBackground deltaTime g) =
       g\<lparr>backgroundY := b, particles := filter (\<lambda>p. \<not> p_marked p) (map (Particle_update deltaTime) (particles g))\<rparr>"
      using prelude_shape by blast
    then show ?thesis using assms run False update_not_playing [of g deltaTime] by simp
  next
    case True
    show ?thesis
    proof (cases "player g")
      case None
      then show ?thesis using assms run True update_no_player by simp
    next
      case (Some p)
      then show ?thesis
        using update_playing_wave [of g p deltaTime] run True assms by (auto split: if_splits)
    qed
  qed
qed

text \<open>
  C10. A single frame advances the wave counter by at most 1: the condition of line 698
  is evaluated once per call of \<^verbatim>\<open>update\<close>. When the score has already passed the
  threshold of the next wave as well (the score values of the enemies being non-negative,
  as those of every constructed enemy are), the frame advances the wave by one only, the
  condition still holds afterwards, and the next frame in the state PLAYING advances it
  again.
\<close>

theorem update_wave_at_most_one:
  "(update deltaTime g = Inr g' \<longrightarrow> wave g' = wave g \<or> wave g' = wave g + 1) \<and>
   (isRunning g \<and> \<not> isPaused g \<and> gameState g = PLAYING \<and> player g \<noteq> None \<and>
    (\<forall>e\<in>set (enemies g). 0 \<le> scoreValue e) \<and> (wave g + 1) * 500 < score g \<longrightarrow>
      (\<exists>g1. update deltaTime g = Inr g1 \<and> wave g1 = wave g + 1 \<and> wave g1 * 500 < score g1 \<and>
         (gameState g1 = PLAYING \<longrightarrow>
            (\<exists>g2. update deltaTime' g1 = Inr g2 \<and> wave g2 = wave g + 2))))"
proof (intro conjI impI)
  assume "update deltaTime g = Inr g'"
  then show "wave g' = wave g \<or> wave g' = wave g + 1" by (rule update_wave_cases)
next
  assume A: "isRunning g \<and> \<not> isPaused g \<and> gameState g = PLAYING \<and> player g \<noteq> None \<and>
    (\<forall>e\<in>set (enemies g). 0 \<le> scoreValue e) \<and> (wave g + 1) * 500 < score g"
  then obtain p where p: "player g = Some p" by auto
  obtain g1 where g1: "update deltaTime g = Inr g1"
    "wave g1 = (if score g1 > wave g * 500 then wave g + 1 else wave g)"
    "isRunning g1" "\<not> isPaused g1" "player g1 \<noteq> None"
    using update_playing_wave [of g p deltaTime] A p by blast
  have s1: "score g \<le> score g1" "\<forall>e\<in>set (enemies g1). 0 \<le> scoreValue e"
    using update_scores [OF g1(1)] A by simp_all
  have w1: "wave g1 = wave g + 1" using g1(2) s1(1) A by simp
  have t1: "wave g1 * 500 < score g1" using w1 s1(1) A by simp
  have "\<exists>g2. update deltaTime' g1 = Inr g2 \<and> wave g2 = wave g + 2" if pl: "gameState g1 = PLAYING"
  proof -
    obtain p1 where p1: "player g1 = Some p1" using g1(5) by auto
    obtain g2 where g2: "update deltaTime' g1 = Inr g2"
      "wave g2 = (if score g2 > wave g1 * 500 then wave g1 + 1 else wave g1)"
      using update_playing_wave [of g1 p1 deltaTime'] g1(3,4) pl p1 by blast
    have "score g1 \<le> score g2" using update_scores [OF g2(1)] s1(2) by simp
    then have "wave g2 = wave g + 2" using g2(2) t1 w1 by simp
    then show ?thesis using g2(1) by blast
  qed
  then show "\<exists>g1. update deltaTime g = Inr g1 \<and> wave g1 = wave g + 1 \<and> wave g1 * 500 < score g1 \<and>
         (gameState g1 = PLAYING \<longrightarrow> (\<exists>g2. update deltaTime' g1 = Inr g2 \<and> wave g2 = wave g + 2))"
    using g1(1) w1 t1 by blast
qed

text \<open>
  A fresh game on autopilot whose score stands at 1600 in wave 1: the first frame brings
  wave 2, the second wave 3.
\<close>

theorem update_wave_at_most_one_witness:
  "\<exists>g1 g2. update (1 / 60) (demo_game\<lparr>cheatMode := True, score := 1600\<rparr>) = Inr g1 \<and> wave g1 = 2 \<and>
     gameState g1 = PLAYING \<and> update (1 / 60) g1 = Inr g2 \<and> wave g2 = 3"
proof -
  let ?G = "demo_game\<lparr>cheatMode := True, score := 1600\<rparr>"
  have hyp: "isRunning ?G \<and> \<not> isPaused ?G \<and> gameState ?G = PLAYING \<and> player ?G \<noteq> None \<and>
    (\<forall>e\<in>set (enemies ?G). 0 \<le> scoreValue e) \<and> (wave ?G + 1) * 500 < score ?G"
    by simp
  obtain g1 where g1: "update (1 / 60) ?G = Inr g1" "wave g1 = wave ?G + 1"
    "gameState g1 = PLAYING \<longrightarrow> (\<exists>g2. update (1 / 60) g1 = Inr g2 \<and> wave g2 = wave ?G + 2)"
    using update_wave_at_most_one [of "1 / 60" ?G ?G "1 / 60"] hyp by blast
  have "wave g1 = wave ?G \<or> wave g1 = wave ?G + 1"
    using update_wave_at_most_one [of "1 / 60" ?G g1 "1 / 60"] g1(1) by blast
  obtain p where "player ?G = Some p" by simp
  then have "gameState g1 = PLAYING"
    using update_playing_wave [of ?G p "1 / 60"] g1(1) by auto
  then show ?thesis using g1 by auto
qed

section \<open>The spawn interval\<close>

lemma update_interval_cases:
  assumes "update deltaTime g = Inr g'"
  shows "(wave g' = wave g \<and> enemyInterval g' = enemyInterval g) \<or>
         (wave g' = wave g + 1 \<and> enemyInterval g' = waveInterval (wave g + 1))"
proof (cases "\<not> isRunning g \<or> isPaused g")
  case True
  then show ?thesis using assms update_idle [OF True] by simp
next
  case run: False
  show ?thesis
  proof (cases "gameState g = PLAYING")
    case False
    obtain b where "updateParticles deltaTime (scrollBackground deltaTime g) =
       g\<lparr>backgroundY := b, particles := filter (\<lambda>p. \<not> p_marked p) (map (Particle_update deltaTime) (particles g))\<rparr>"
      using prelude_shape by blast
    then show ?thesis using assms run False update_not_playing [of g deltaTime] by simp
  next
    case True
    show ?thesis
    proof (cases "player g")
      case None
      then show ?thesis using assms run True update_no_player by simp
    next
      case (Some p)
      then show ?thesis
        using update_playing_wave [of g p deltaTime] run True assms by (auto split: if_splits)
    qed
  qed
qed

lemma update_interval_ok:
  assumes "interval_ok g" and "update deltaTime g = Inr g'"
  shows "interval_ok g'"
  using update_interval_cases [OF assms(2)] assms(1)
  by (auto simp: interval_ok_def)

lemma frames_interval_ok:
  "interval_ok g \<Longrightarrow> frames dts g = Inr g' \<Longrightarrow> interval_ok g'"
proof (induction dts arbitrary: g)
  case Nil
  then show ?case by simp
next
  case (Cons deltaTime rest)
  then show ?case
    by (cases "update deltaTime g") (auto intro: update_interval_ok)
qed

lemma start_interval_ok: "interval_ok (start (Game_new w h rnd draws))"
  by (simp add: interval_ok_def start_def Game_new_def ui_call_def Let_def)

lemma waveInterval_floor: "1 / 2 \<le> waveInterval n"
  by (simp add: waveInterval_def)

lemma waveInterval_decreasing: "n < 10 \<Longrightarrow> waveInterval (n + 1) < waveInterval n"
  by (simp add: waveInterval_def max_def)

lemma waveInterval_at_floor: "10 \<le> n \<Longrightarrow> waveInterval n = 1 / 2"
  by (simp add: waveInterval_def max_def)

text \<open>
  \<^verbatim>\<open>start()\<close> sets the wave to 1 and does not write the interval; the constructor sets the
  wave to 1 and the interval to 1.5.
\<close>

lemma start_fields:
  "wave (start g) = 1" "enemyInterval (start g) = enemyInterval g"
  by (simp_all add: start_def ui_call_def Let_def)

lemma start_interval_set: "interval_set (start g)"
  by (simp add: interval_set_def start_fields)

lemma Game_new_interval_set: "interval_set (Game_new w h rnd draws)"
  by (simp add: interval_set_def Game_new_def)

lemma update_interval_set:
  assumes "interval_set g" and "update deltaTime g = Inr g'"
  shows "interval_set g'"
  using update_interval_cases [OF assms(2)] assms(1)
  by (auto simp: interval_set_def)

lemma frames_interval_set:
  "interval_set g \<Longrightarrow> frames dts g = Inr g' \<Longrightarrow> interval_set g'"
proof (induction dts arbitrary: g)
  case Nil
  then show ?case by simp
next
  case (Cons deltaTime rest)
  then show ?case
    by (cases "update deltaTime g") (auto intro: update_interval_set)
qed

lemma update_interval_floor:
  assumes "1 / 2 \<le> enemyInterval g" and "update deltaTime g = Inr g'"
  shows "1 / 2 \<le> enemyInterval g'"
  using update_interval_cases [OF assms(2)] assms(1) waveInterval_floor [of "wave g + 1"]
  by auto

lemma frames_interval_floor:
  "1 / 2 \<le> enemyInterval g \<Longrightarrow> frames dts g = Inr g' \<Longrightarrow> 1 / 2 \<le> enemyInterval g'"
proof (induction dts arbitrary: g)
  case Nil
  then show ?case by simp
next
  case (Cons deltaTime rest)
  show ?case
  proof (cases "update deltaTime g")
    case (Inl e)
    then show ?thesis using Cons.prems(2) by simp
  next
    case (Inr g1)
    then have "frames rest g1 = Inr g'" using Cons.prems(2) by simp
    then show ?thesis using Cons.IH [OF update_interval_floor [OF Cons.prems(1) Inr]] by blast
  qed
qed

lemma update_interval_formula:
  assumes "update deltaTime g = Inr g'"
  shows "(wave g' = wave g \<and> enemyInterval g' = enemyInterval g) \<or>
         (wave g' = wave g + 1 \<and> enemyInterval g' = max (1 / 2) (3 / 2 - of_int (wave g') * (1 / 10)))"
  using update_interval_cases [OF assms] by (auto simp: waveInterval_def)

lemma start_interval_ok_first: "enemyInterval g = 3 / 2 \<Longrightarrow> interval_ok (start g)"
  by (simp add: interval_ok_def start_fields)

lemma interval_ok_reads:
  "interval_ok g \<Longrightarrow> interval_set g \<and> 1 / 2 \<le> enemyInterval g \<and> (wave g = 1 \<longrightarrow> enemyInterval g = 3 / 2)"
  using waveInterval_floor [of "wave g"]
  by (auto simp: interval_ok_def interval_set_def)

lemma interval_set_reads:
  "interval_set g \<Longrightarrow> 2 \<le> wave g \<Longrightarrow>
     enemyInterval g = max (1 / 2) (3 / 2 - of_int (wave g) * (1 / 10)) \<and> 1 / 2 \<le> enemyInterval g"
  by (simp add: interval_set_def waveInterval_def)

text \<open>
  C5, as the code has it. The interval is written in two places only: the constructor
  sets it to 1.5, and the frame that advances the wave to \<open>w\<close> sets it to
  \<open>max 0.5 (1.5 - w * 0.1)\<close>; a frame that does not advance the wave leaves it as it is,
  and \<^verbatim>\<open>start()\<close> sets the wave back to 1. So in every state of every run, first or
  restarted, with the keys and the autopilot in any position: if the wave is \<open>w \<ge> 2\<close>, the
  interval is \<open>max 0.5 (1.5 - w * 0.1)\<close>; and the interval is never below 0.5. The first
  property holds of the constructed game and of every started game, whatever the state
  before the start; the second holds of the constructed game and is kept by \<^verbatim>\<open>start()\<close>;
  every frame and every sequence of frames, from any state, keeps both. In a run that has
  not been restarted the interval is the constructor's 1.5 while the wave is 1. The
  computed interval is never below 0.5, strictly decreasing in the wave below wave 10 and
  0.5 from wave 10 on.
\<close>

theorem spawn_interval_follows_wave:
  "interval_set (Game_new w h rnd draws) \<and> 1 / 2 \<le> enemyInterval (Game_new w h rnd draws) \<and>
   interval_set (start g0) \<and> wave (start g0) = 1 \<and>
   (1 / 2 \<le> enemyInterval g0 \<longrightarrow> 1 / 2 \<le> enemyInterval (start g0)) \<and>
   (update deltaTime g = Inr g' \<longrightarrow>
      (wave g' = wave g \<and> enemyInterval g' = enemyInterval g) \<or>
      (wave g' = wave g + 1 \<and>
       enemyInterval g' = max (1 / 2) (3 / 2 - of_int (wave g') * (1 / 10)))) \<and>
   (interval_set g \<and> update deltaTime g = Inr g' \<longrightarrow> interval_set g') \<and>
   (interval_set g \<and> frames dts g = Inr g'' \<longrightarrow> interval_set g'') \<and>
   (1 / 2 \<le> enemyInterval g \<and> update deltaTime g = Inr g' \<longrightarrow> 1 / 2 \<le> enemyInterval g') \<and>
   (1 / 2 \<le> enemyInterval g \<and> frames dts g = Inr g'' \<longrightarrow> 1 / 2 \<le> enemyInterval g'') \<and>
   (interval_set g \<and> 2 \<le> wave g \<longrightarrow>
      enemyInterval g = max (1 / 2) (3 / 2 - of_int (wave g) * (1 / 10)) \<and> 1 / 2 \<le> enemyInterval g) \<and>
   interval_ok (start (Game_new w h rnd draws)) \<and>
   (enemyInterval g0 = 3 / 2 \<longrightarrow> interval_ok (start g0)) \<and>
   (interval_ok g \<and> update deltaTime g = Inr g' \<longrightarrow> interval_ok g') \<and>
   (interval_ok g \<and> frames dts g = Inr g'' \<longrightarrow> interval_ok g'') \<and>
   (interval_ok g \<longrightarrow>
      interval_set g \<and> 1 / 2 \<le> enemyInterval g \<and> (wave g = 1 \<longrightarrow> enemyInterval g = 3 / 2)) \<and>
   (\<forall>n. 1 / 2 \<le> waveInterval n) \<and>
   (\<forall>n<10. waveInterval (n + 1) < waveInterval n) \<and>
   (\<forall>n\<ge>10. waveInterval n = 1 / 2)"
proof -
  have "1 / 2 \<le> enemyInterval (Game_new w h rnd draws)" by (simp add: Game_new_def)
  moreover have "1 / 2 \<le> enemyInterval g0 \<longrightarrow> 1 / 2 \<le> enemyInterval (start g0)"
    by (simp add: start_fields)
  moreover have "wave (start g0) = 1" by (rule start_fields)
  moreover note Game_new_interval_set [of w h rnd draws] start_interval_set [of g0]
  moreover have "update deltaTime g = Inr g' \<longrightarrow>
      (wave g' = wave g \<and> enemyInterval g' = enemyInterval g) \<or>
      (wave g' = wave g + 1 \<and>
       enemyInterval g' = max (1 / 2) (3 / 2 - of_int (wave g') * (1 / 10)))"
    using update_interval_formula by blast
  moreover have "interval_set g \<and> update deltaTime g = Inr g' \<longrightarrow> interval_set g'"
    using update_interval_set by blast
  moreover have "interval_set g \<and> frames dts g = Inr g'' \<longrightarrow> interval_set g''"
    using frames_interval_set by blast
  moreover have "1 / 2 \<le> enemyInterval g \<and> update deltaTime g = Inr g' \<longrightarrow> 1 / 2 \<le> enemyInterval g'"
    using update_interval_floor by blast
  moreover have "1 / 2 \<le> enemyInterval g \<and> frames dts g = Inr g'' \<longrightarrow> 1 / 2 \<le> enemyInterval g''"
    using frames_interval_floor by blast
  moreover have "interval_set g \<and> 2 \<le> wave g \<longrightarrow>
      enemyInterval g = max (1 / 2) (3 / 2 - of_int (wave g) * (1 / 10)) \<and> 1 / 2 \<le> enemyInterval g"
    using interval_set_reads by blast
  moreover note start_interval_ok [of w h rnd draws]
  moreover have "enemyInterval g0 = 3 / 2 \<longrightarrow> interval_ok (start g0)"
    using start_interval_ok_first by blast
  moreover have "interval_ok g \<and> update deltaTime g = Inr g' \<longrightarrow> interval_ok g'"
    using update_interval_ok by blast
  moreover have "interval_ok g \<and> frames dts g = Inr g'' \<longrightarrow> interval_ok g''"
    using frames_interval_ok by blast
  moreover have "interval_ok g \<longrightarrow>
      interval_set g \<and> 1 / 2 \<le> enemyInterval g \<and> (wave g = 1 \<longrightarrow> enemyInterval g = 3 / 2)"
    using interval_ok_reads by blast
  moreover have "\<forall>n. 1 / 2 \<le> waveInterval n" using waveInterval_floor by blast
  moreover have "\<forall>n<10. waveInterval (n + 1) < waveInterval n" using waveInterval_decreasing by blast
  moreover have "\<forall>n\<ge>10. waveInterval n = 1 / 2" using waveInterval_at_floor by blast
  ultimately show ?thesis by (intro conjI)
qed

lemma autopilot_frame_advances:
  assumes "score G > wave G * 500" "isRunning G" "\<not> isPaused G" "gameState G = PLAYING"
    "player G = Some p" "\<forall>e\<in>set (enemies G). 0 \<le> scoreValue e"
  shows "\<exists>g1. update deltaTime G = Inr g1 \<and> wave g1 = wave G + 1"
proof -
  obtain g1 where g1: "update deltaTime G = Inr g1"
    "wave g1 = (if score g1 > wave G * 500 then wave G + 1 else wave G)"
    using update_playing_wave [of G p deltaTime] assms by auto
  have "score G \<le> score g1" using update_scores [OF g1(1)] assms(6) by simp
  then show ?thesis using g1 assms(1) by auto
qed

text \<open>
  A fresh game on autopilot with 600 points: the next frame brings wave 2 and the interval
  1.3. The same game in wave 2 with 1100 points: the next frame brings wave 3 and the
  interval 1.2. A game restarted in wave 4 is in wave 1. A fresh game has the interval
  1.5 of wave 1, and its first frame keeps the relation.
\<close>

theorem spawn_interval_follows_wave_witness:
  "interval_set (demo_game\<lparr>cheatMode := True, score := 600\<rparr>) \<and>
   (\<exists>g1. update (1 / 60) (demo_game\<lparr>cheatMode := True, score := 600\<rparr>) = Inr g1 \<and>
      wave g1 = 2 \<and> enemyInterval g1 = 13 / 10 \<and> interval_set g1) \<and>
   interval_set (demo_game\<lparr>cheatMode := True, wave := 2, enemyInterval := 13 / 10, score := 1100\<rparr>) \<and>
   (\<exists>g3. frames [1 / 60]
            (demo_game\<lparr>cheatMode := True, wave := 2, enemyInterval := 13 / 10, score := 1100\<rparr>) = Inr g3 \<and>
      wave g3 = 3 \<and> interval_set g3 \<and> enemyInterval g3 = 6 / 5) \<and>
   interval_set (start (demo_game\<lparr>wave := 4, enemyInterval := 11 / 10\<rparr>)) \<and>
   wave (start (demo_game\<lparr>wave := 4, enemyInterval := 11 / 10\<rparr>)) = 1 \<and>
   interval_ok demo_game \<and>
   (\<exists>h1. update (1 / 60) demo_game = Inr h1 \<and> interval_ok h1 \<and> 1 / 2 \<le> enemyInterval h1)"
proof -
  let ?G = "demo_game\<lparr>cheatMode := True, score := 600\<rparr>"
  let ?H = "demo_game\<lparr>cheatMode := True, wave := 2, enemyInterval := 13 / 10, score := 1100\<rparr>"
  let ?R = "demo_game\<lparr>wave := 4, enemyInterval := 11 / 10\<rparr>"
  have setG: "interval_set ?G" by (simp add: interval_set_def)
  have setH: "interval_set ?H" by (simp add: interval_set_def waveInterval_def)
  obtain g1 where g1: "update (1 / 60) ?G = Inr g1" "wave g1 = 2"
    using autopilot_frame_advances [of ?G demo_player "1 / 60"] by auto
  obtain g3 where g3: "update (1 / 60) ?H = Inr g3" "wave g3 = 3"
    using autopilot_frame_advances [of ?H demo_player "1 / 60"] by auto
  have fr: "frames [1 / 60] ?H = Inr g3" using g3(1) by simp
  obtain q where q: "player demo_game = Some q" by simp
  obtain h1 where h1: "update (1 / 60) demo_game = Inr h1"
    using update_playing_wave [of demo_game q "1 / 60"] q by auto
  note instG = spawn_interval_follows_wave [of 800 600 "\<lambda>n. 1 / 2" 0 ?R "1 / 60" ?G g1 "[1 / 60]" g1]
  note instH = spawn_interval_follows_wave [of 800 600 "\<lambda>n. 1 / 2" 0 ?R "1 / 60" ?H g3 "[1 / 60]" g3]
  note instD = spawn_interval_follows_wave [of 800 600 "\<lambda>n. 1 / 2" 0 ?R "1 / 60" demo_game h1 "[1 / 60]" h1]
  note inst3 = spawn_interval_follows_wave [of 800 600 "\<lambda>n. 1 / 2" 0 ?R "1 / 60" g3 g3 "[]" g3]
  note insth = spawn_interval_follows_wave [of 800 600 "\<lambda>n. 1 / 2" 0 ?R "1 / 60" h1 h1 "[]" h1]
  have "interval_ok (start (Game_new 800 600 (\<lambda>n. 1 / 2) 0))" using instG by blast
  then have ok: "interval_ok demo_game" by (simp only: demo_game_def)
  have "(wave g1 = wave ?G \<and> enemyInterval g1 = enemyInterval ?G) \<or>
        (wave g1 = wave ?G + 1 \<and> enemyInterval g1 = max (1 / 2) (3 / 2 - of_int (wave g1) * (1 / 10)))"
    using instG g1(1) by blast
  then have i1: "enemyInterval g1 = 13 / 10" using g1(2) by simp
  have s1: "interval_set g1" using instG setG g1(1) by blast
  have s3: "interval_set g3" using instH setH fr by blast
  have "2 \<le> wave g3" using g3(2) by simp
  then have "enemyInterval g3 = max (1 / 2) (3 / 2 - of_int (wave g3) * (1 / 10)) \<and> 1 / 2 \<le> enemyInterval g3"
    using inst3 s3 by blast
  then have i3: "enemyInterval g3 = 6 / 5" using g3(2) by simp
  have sR: "interval_set (start ?R)" "wave (start ?R) = 1" using instG by blast+
  have okh: "interval_ok h1" using instD ok h1 by blast
  then have fl: "1 / 2 \<le> enemyInterval h1" using insth by blast
  show ?thesis using setG g1 i1 s1 setH fr g3(2) s3 i3 sR ok h1 okh fl by blast
qed

text \<open>
  The sentence of the specification does not hold at wave 1: a game just started has the
  interval 1.5, where the formula gives 1.4.
\<close>

theorem wave_one_interval_counterexample:
  "wave (start (Game_new 800 600 (\<lambda>n. 1 / 2) 0)) = 1 \<and>
   enemyInterval (start (Game_new 800 600 (\<lambda>n. 1 / 2) 0)) = 3 / 2 \<and>
   waveInterval 1 = 7 / 5 \<and>
   max (1 / 2) (3 / 2 - 1 * (1 / 10)) = (7 / 5 :: real)"
  by (simp add: start_def Game_new_def ui_call_def Let_def waveInterval_def)

section \<open>Particles and the run states\<close>

lemma demo_particle_simps [simp]:
  "demo_particle = \<lparr>p_x = 100, p_y = 100, p_size = 9 / 2, p_speedX = 0, p_speedY = 0,
      p_color = Hsl 210, p_life = 1, p_marked = False\<rparr>"
  by (simp add: demo_particle_def Particle_new_def Math_random_def Let_def)

lemma update_playing_particles:
  assumes "isRunning g" "\<not> isPaused g" "gameState g = PLAYING" "update deltaTime g = Inr g'"
  shows "\<exists>ps. particles g' = filter (\<lambda>p. \<not> p_marked p) (map (Particle_update deltaTime) (particles g)) @ ps \<and>
           (\<forall>q\<in>set ps. \<not> p_marked q)"
proof (cases "player g")
  case None
  then show ?thesis using assms update_no_player by simp
next
  case (Some p)
  let ?g2 = "updateParticles deltaTime (scrollBackground deltaTime g)"
  obtain b where g2: "?g2 =
     g\<lparr>backgroundY := b, particles := filter (\<lambda>p. \<not> p_marked p) (map (Particle_update deltaTime) (particles g))\<rparr>"
    using prelude_shape by blast
  obtain g4 where g4: "checkCollisions (updateEntities deltaTime p ?g2) = Inr g4"
    "update deltaTime g = Inr (waveProgression g4)"
    using update_playing [OF assms(1-3) Some] by blast
  obtain p' bs es t r where g3: "updateEntities deltaTime p ?g2 =
      ?g2\<lparr>player := Some p', bullets := bs, enemies := es, enemyTimer := t, rand_pos := r\<rparr>"
    using updateEntities_shape [of deltaTime p ?g2] by blast
  have "particles ?g2 = filter (\<lambda>p. \<not> p_marked p) (map (Particle_update deltaTime) (particles g))"
    unfolding g2 by simp
  then have "particles (updateEntities deltaTime p ?g2) =
      filter (\<lambda>p. \<not> p_marked p) (map (Particle_update deltaTime) (particles g))"
    unfolding g3 by simp
  moreover obtain ps where "particles g4 = particles (updateEntities deltaTime p ?g2) @ ps"
    "\<forall>q\<in>set ps. \<not> p_marked q"
    using checkCollisions_frame_all [OF g4(1)] by blast
  moreover have "g' = waveProgression g4" using assms(4) g4(2) by simp
  ultimately show ?thesis by (simp add: waveProgression_fields)
qed

text \<open>
  C7, as the code has it. Once a run has started, the particle collection is updated
  (positions advanced, life decayed, dead particles purged) in every frame in which the
  game is not paused, whatever the game state (PLAYING, VICTORY, GAME_OVER); while the
  game is paused (or not running) \<^verbatim>\<open>update\<close> returns at its first line and changes
  nothing, particles included. The player, the bullets, the enemies, the score, the wave
  and the spawn timer change only in the state PLAYING, where the collision pass may append
  the particles of new explosions behind the updated ones.
\<close>

theorem particles_update_unless_paused:
  "(\<not> isRunning g \<or> isPaused g \<longrightarrow> update deltaTime g = Inr g) \<and>
   (isRunning g \<and> \<not> isPaused g \<and> gameState g \<noteq> PLAYING \<longrightarrow>
      (\<exists>g'. update deltaTime g = Inr g' \<and>
         particles g' = filter (\<lambda>p. \<not> p_marked p) (map (Particle_update deltaTime) (particles g)) \<and>
         player g' = player g \<and> bullets g' = bullets g \<and> enemies g' = enemies g \<and>
         score g' = score g \<and> wave g' = wave g \<and> enemyTimer g' = enemyTimer g \<and>
         gameState g' = gameState g)) \<and>
   (isRunning g \<and> \<not> isPaused g \<and> gameState g = PLAYING \<and> update deltaTime g = Inr g' \<longrightarrow>
      (\<exists>ps. particles g' =
              filter (\<lambda>p. \<not> p_marked p) (map (Particle_update deltaTime) (particles g)) @ ps))"
proof (intro conjI impI)
  assume "\<not> isRunning g \<or> isPaused g"
  then show "update deltaTime g = Inr g" by (rule update_idle)
next
  assume A: "isRunning g \<and> \<not> isPaused g \<and> gameState g \<noteq> PLAYING"
  obtain b where "updateParticles deltaTime (scrollBackground deltaTime g) =
     g\<lparr>backgroundY := b, particles := filter (\<lambda>p. \<not> p_marked p) (map (Particle_update deltaTime) (particles g))\<rparr>"
    using prelude_shape by blast
  then show "\<exists>g'. update deltaTime g = Inr g' \<and>
         particles g' = filter (\<lambda>p. \<not> p_marked p) (map (Particle_update deltaTime) (particles g)) \<and>
         player g' = player g \<and> bullets g' = bullets g \<and> enemies g' = enemies g \<and>
         score g' = score g \<and> wave g' = wave g \<and> enemyTimer g' = enemyTimer g \<and>
         gameState g' = gameState g"
    using A update_not_playing [of g deltaTime] by simp
next
  assume "isRunning g \<and> \<not> isPaused g \<and> gameState g = PLAYING \<and> update deltaTime g = Inr g'"
  then show "\<exists>ps. particles g' =
              filter (\<lambda>p. \<not> p_marked p) (map (Particle_update deltaTime) (particles g)) @ ps"
    using update_playing_particles [of g deltaTime g'] by blast
qed

text \<open>
  A particle with one second of life and a frame of 0.1 s: the paused game keeps it as it
  is; after a victory its life drops to 0.8 while the enemies stay as they are; in the
  state PLAYING it comes first in the collection, with life 0.8.
\<close>

theorem particles_update_unless_paused_witness:
  "update (1 / 10) (demo_game\<lparr>isPaused := True, particles := [demo_particle]\<rparr>) =
     Inr (demo_game\<lparr>isPaused := True, particles := [demo_particle]\<rparr>) \<and>
   (\<exists>g'. update (1 / 10) (demo_game\<lparr>gameState := VICTORY, particles := [demo_particle]\<rparr>) = Inr g' \<and>
      map p_life (particles g') = [4 / 5] \<and> enemies g' = [] \<and> gameState g' = VICTORY) \<and>
   (\<exists>g' ps. update (1 / 10) (demo_game\<lparr>particles := [demo_particle]\<rparr>) = Inr g' \<and>
      particles g' = demo_particle\<lparr>p_life := 4 / 5\<rparr> # ps)"
proof -
  let ?P = "demo_game\<lparr>isPaused := True, particles := [demo_particle]\<rparr>"
  let ?V = "demo_game\<lparr>gameState := VICTORY, particles := [demo_particle]\<rparr>"
  let ?R = "demo_game\<lparr>particles := [demo_particle]\<rparr>"
  have 1: "update (1 / 10) ?P = Inr ?P"
    using particles_update_unless_paused [of ?P "1 / 10" ?P] by simp
  have 2: "\<exists>g'. update (1 / 10) ?V = Inr g' \<and>
      map p_life (particles g') = [4 / 5] \<and> enemies g' = [] \<and> gameState g' = VICTORY"
    using particles_update_unless_paused [of ?V "1 / 10" ?V]
    by (auto simp: Particle_update_def Let_def)
  obtain q where q: "player ?R = Some q" by simp
  obtain g' where g': "update (1 / 10) ?R = Inr g'"
    using update_playing_wave [of ?R q "1 / 10"] q by auto
  then have "\<exists>ps. particles g' =
       filter (\<lambda>p. \<not> p_marked p) (map (Particle_update (1 / 10)) (particles ?R)) @ ps"
    using particles_update_unless_paused [of ?R "1 / 10" g'] by simp
  then have 3: "\<exists>g' ps. update (1 / 10) ?R = Inr g' \<and> particles g' = demo_particle\<lparr>p_life := 4 / 5\<rparr> # ps"
    using g' by (auto simp: Particle_update_def Let_def)
  show ?thesis using 1 2 3 by blast
qed

text \<open>
  The sentence of the specification does not hold of the paused game: the frame returns
  the state as it was, and the particle has neither aged nor moved, where the particle
  pass would have aged it.
\<close>

theorem paused_particles_counterexample:
  "update (1 / 10) (demo_game\<lparr>isPaused := True, particles := [demo_particle]\<rparr>) =
     Inr (demo_game\<lparr>isPaused := True, particles := [demo_particle]\<rparr>) \<and>
   map p_life (particles (demo_game\<lparr>isPaused := True, particles := [demo_particle]\<rparr>)) = [1] \<and>
   map p_life (filter (\<lambda>p. \<not> p_marked p) (map (Particle_update (1 / 10))
       (particles (demo_game\<lparr>isPaused := True, particles := [demo_particle]\<rparr>)))) = [4 / 5]"
  by (simp add: update_idle Particle_update_def Let_def)

section \<open>Dead entities: when they leave their collection\<close>

lemma enemiesHitPlayer_none:
  assumes "\<forall>e\<in>set (enemies g). \<not> checkCollision e p"
  shows "enemiesHitPlayer p g = (p, g)"
proof -
  have "fold enemyHitsPlayer [0..<length (enemies g)] (p, g) = (p, g)"
  proof (rule fold_invariant [where P = "\<lambda>pg. pg = (p, g)"])
    show "(p, g) = (p, g)" ..
  next
    fix i pg assume "i \<in> set [0..<length (enemies g)]" and "pg = (p, g)"
    then show "enemyHitsPlayer i pg = (p, g)"
      using assms by (simp add: enemyHitsPlayer_miss)
  qed
  then show ?thesis by (simp add: enemiesHitPlayer_def)
qed

lemma draw_members:
  "gameState g = PLAYING \<Longrightarrow> b \<in> set (bullets g) \<Longrightarrow> DrawBullet b \<in> set (draw g)"
  "gameState g = PLAYING \<Longrightarrow> e \<in> set (enemies g) \<Longrightarrow> DrawEnemy e \<in> set (draw g)"
  "q \<in> set (particles g) \<Longrightarrow> DrawParticle q \<in> set (draw g)"
  by (auto simp: draw_def)

lemma update_particles_live:
  assumes "isRunning g" "\<not> isPaused g" "update deltaTime g = Inr g'"
  shows "\<forall>q\<in>set (particles g'). \<not> p_marked q"
proof (cases "gameState g = PLAYING")
  case True
  then obtain ps where "particles g' = filter (\<lambda>p. \<not> p_marked p) (map (Particle_update deltaTime) (particles g)) @ ps"
    "\<forall>q\<in>set ps. \<not> p_marked q"
    using update_playing_particles [OF assms(1,2) True assms(3)] by blast
  then show ?thesis by auto
next
  case False
  then have "g' = updateParticles deltaTime (scrollBackground deltaTime g)"
    using assms update_not_playing [of g deltaTime] by simp
  then show ?thesis by (simp add: updateParticles_shape)
qed

text \<open>
  \<^verbatim>\<open>Bullet.update\<close> reads the height of the game only, \<^verbatim>\<open>Enemy.update\<close> its width and
  height; neither is written during a frame.
\<close>

lemma Bullet_update_cong:
  "g_height G = g_height g \<Longrightarrow> Bullet_update deltaTime G = Bullet_update deltaTime g"
  by (rule ext) (simp add: Bullet_update_def)

lemma Enemy_update_cong:
  "g_width G = g_width g \<Longrightarrow> g_height G = g_height g \<Longrightarrow>
   Enemy_update deltaTime G = Enemy_update deltaTime g"
  by (rule ext) (simp add: Enemy_update_def)

lemma length_shot: "length (if c then [b0] else []) \<le> (1 :: nat)"
  by simp

lemma snd_Player_update_one:
  "\<exists>bs. snd (Player_update deltaTime p g) = g\<lparr>bullets := bullets g @ bs\<rparr> \<and> length bs \<le> 1"
  unfolding Player_update_def Let_def snd_if_pair Player_shoot_def shot_or_not
  by (rule exI, rule conjI, rule refl, rule length_shot)

lemma updatePlayer_exact:
  "\<exists>p' bs. updatePlayer deltaTime p g = g\<lparr>bullets := bullets g @ bs, player := Some p'\<rparr> \<and> length bs \<le> 1"
proof -
  obtain bs where "snd (Player_update deltaTime p g) = g\<lparr>bullets := bullets g @ bs\<rparr>" "length bs \<le> 1"
    using snd_Player_update_one by blast
  then have "updatePlayer deltaTime p g = g\<lparr>bullets := bullets g @ bs, player := Some (fst (Player_update deltaTime p g))\<rparr>
      \<and> length bs \<le> 1"
    by (simp add: updatePlayer_def case_prod_beta)
  then show ?thesis by blast
qed

lemma updateEnemies_exact:
  "\<exists>es. length es \<le> 1 \<and>
     enemies (updateEnemies deltaTime g) =
       filter (\<lambda>e. \<not> markedForDeletion e) (map (Enemy_update deltaTime g) (enemies g @ es)) \<and>
     bullets (updateEnemies deltaTime g) = bullets g"
proof (cases "enemyTimer g - deltaTime \<le> 0")
  case False
  then have "enemies (updateEnemies deltaTime g) =
       filter (\<lambda>e. \<not> markedForDeletion e) (map (Enemy_update deltaTime g) (enemies g @ []))"
    "bullets (updateEnemies deltaTime g) = bullets g"
    by (simp_all add: updateEnemies_def Let_def Enemy_update_cong [of "g\<lparr>enemyTimer := enemyTimer g - deltaTime\<rparr>" g])
  then show ?thesis by (intro exI[of _ "[]"]) simp
next
  case True
  let ?g1 = "g\<lparr>enemyTimer := enemyTimer g - deltaTime\<rparr>"
  let ?g2 = "(spawnEnemy ?g1)\<lparr>enemyTimer := enemyInterval (spawnEnemy ?g1)\<rparr>"
  obtain e where e: "enemies (spawnEnemy ?g1) = enemies g @ [e]"
    using enemies_spawnEnemy [of ?g1] by auto
  have cong: "Enemy_update deltaTime ?g2 = Enemy_update deltaTime g"
    by (rule Enemy_update_cong) simp_all
  have "updateEnemies deltaTime g =
      ?g2\<lparr>enemies := filter (\<lambda>e. \<not> markedForDeletion e) (map (Enemy_update deltaTime ?g2) (enemies ?g2))\<rparr>"
    using True by (simp add: updateEnemies_def Let_def)
  then have "enemies (updateEnemies deltaTime g) =
       filter (\<lambda>e. \<not> markedForDeletion e) (map (Enemy_update deltaTime g) (enemies g @ [e]))"
    "bullets (updateEnemies deltaTime g) = bullets g"
    using e cong by simp_all
  then show ?thesis by (intro exI[of _ "[e]"]) simp
qed

lemma updateEntities_exact:
  "\<exists>bs es. length bs \<le> 1 \<and> length es \<le> 1 \<and>
     bullets (updateEntities deltaTime p g) =
       filter (\<lambda>b. \<not> markedForDeletion b) (map (Bullet_update deltaTime g) (bullets g @ bs)) \<and>
     enemies (updateEntities deltaTime p g) =
       filter (\<lambda>e. \<not> markedForDeletion e) (map (Enemy_update deltaTime g) (enemies g @ es))"
proof -
  obtain p' bs where g1: "updatePlayer deltaTime p g = g\<lparr>bullets := bullets g @ bs, player := Some p'\<rparr>"
    "length bs \<le> 1"
    using updatePlayer_exact by blast
  define G1 where "G1 = g\<lparr>bullets := bullets g @ bs, player := Some p'\<rparr>"
  define G2 where "G2 = updateBullets deltaTime G1"
  have G1: "bullets G1 = bullets g @ bs" "enemies G1 = enemies g" "g_width G1 = g_width g" "g_height G1 = g_height g"
    by (simp_all add: G1_def)
  have G2: "bullets G2 = filter (\<lambda>b. \<not> markedForDeletion b) (map (Bullet_update deltaTime g) (bullets g @ bs))"
    "enemies G2 = enemies g" "g_width G2 = g_width g" "g_height G2 = g_height g"
    using G1 by (simp_all add: G2_def updateBullets_shape Bullet_update_cong [of G1 g])
  obtain es where es: "length es \<le> 1"
    "enemies (updateEnemies deltaTime G2) =
       filter (\<lambda>e. \<not> markedForDeletion e) (map (Enemy_update deltaTime G2) (enemies G2 @ es))"
    "bullets (updateEnemies deltaTime G2) = bullets G2"
    using updateEnemies_exact [of deltaTime G2] by blast
  have "updateEntities deltaTime p g = updateEnemies deltaTime G2"
    by (simp add: updateEntities_def g1(1) G1_def [symmetric] G2_def)
  then have "bullets (updateEntities deltaTime p g) =
       filter (\<lambda>b. \<not> markedForDeletion b) (map (Bullet_update deltaTime g) (bullets g @ bs))"
    "enemies (updateEntities deltaTime p g) =
       filter (\<lambda>e. \<not> markedForDeletion e) (map (Enemy_update deltaTime g) (enemies g @ es))"
    using es G2 by (simp_all add: Enemy_update_cong [of G2 g])
  then show ?thesis using g1(2) es(1) by blast
qed

lemma update_leaves_entities:
  assumes "\<not> isRunning g \<or> isPaused g \<or> gameState g \<noteq> PLAYING" and "update deltaTime g = Inr g'"
  shows "bullets g' = bullets g \<and> enemies g' = enemies g \<and> gameState g' = gameState g"
proof (cases "\<not> isRunning g \<or> isPaused g")
  case True
  then show ?thesis using assms(2) update_idle [OF True] by simp
next
  case False
  obtain b where "updateParticles deltaTime (scrollBackground deltaTime g) =
     g\<lparr>backgroundY := b, particles := filter (\<lambda>p. \<not> p_marked p) (map (Particle_update deltaTime) (particles g))\<rparr>"
    using prelude_shape by blast
  then show ?thesis using assms False update_not_playing [of g deltaTime] by auto
qed

lemma draw_iff:
  "DrawBullet b \<in> set (draw g) \<longleftrightarrow> gameState g = PLAYING \<and> b \<in> set (bullets g)"
  "DrawEnemy e \<in> set (draw g) \<longleftrightarrow> gameState g = PLAYING \<and> e \<in> set (enemies g)"
  "DrawParticle q \<in> set (draw g) \<longleftrightarrow> q \<in> set (particles g)"
  by (auto simp: draw_def split: option.splits)

lemma waveProgression_entities:
  "bullets (waveProgression g) = bullets g \<and> (\<exists>es. length es \<le> 1 \<and> enemies (waveProgression g) = enemies g @ es \<and>
     (\<forall>e\<in>set es. \<not> markedForDeletion e))"
proof (cases "score g > wave g * 500")
  case False
  then have "waveProgression g = g" by (simp add: waveProgression_def)
  then show ?thesis by simp
next
  case True
  let ?g3 = "g\<lparr>wave := wave g + 1, ui := ui g @ [UpdateWave (wave g + 1)], enemyInterval := waveInterval (wave g + 1)\<rparr>"
  have wp: "waveProgression g = (if (wave g + 1) mod 5 = 0 then spawnBoss ?g3 else ?g3)"
    using True by (simp add: waveProgression_def Let_def ui_call_def)
  show ?thesis
  proof (cases "(wave g + 1) mod 5 = 0 \<and> \<not> list_ex (\<lambda>e. etype e = Boss) (enemies g)")
    case False
    then have "bullets (waveProgression g) = bullets g" "enemies (waveProgression g) = enemies g @ []"
      unfolding wp by (auto simp: spawnBoss_def)
    then show ?thesis by (intro conjI exI[of _ "[]"]) simp_all
  next
    case B: True
    let ?r = "Enemy_new (g_width g / 2 - 60) (- 100) Boss ?g3"
    note sh = Enemy_new_shape [of "g_width g / 2 - 60" "- 100" Boss ?g3]
    have "waveProgression g = (snd ?r)\<lparr>enemies := enemies (snd ?r) @ [fst ?r]\<rparr>"
      unfolding wp using B by (simp add: spawnBoss_def case_prod_beta)
    then have "bullets (waveProgression g) = bullets g" "enemies (waveProgression g) = enemies g @ [fst ?r]"
      using sh by simp_all
    then show ?thesis using sh by (intro conjI exI[of _ "[fst ?r]"]) simp_all
  qed
qed

text \<open>
  C2, as the code has it. Every update pass is followed at once by the filter of its
  collection, which keeps the live members, in order, and nothing else: the particles in
  every frame that runs, the bullets (with the shot of this frame, if any) and the enemies
  (with the enemy spawned in this frame, if any) in every frame that runs in the state
  PLAYING. \<^verbatim>\<open>update\<close> never clears a mark, so what was marked dead before the frame or
  during its own update pass is gone before the collision pass. The collision pass removes
  nothing, and the wave progression only appends: what the collision pass marks is in its
  collection at the end of the frame. A frame that is paused, not running or not in the
  state PLAYING leaves the bullets and the enemies as they are, dead members included.
  \<^verbatim>\<open>draw\<close> does not look at the mark: it draws a bullet or an enemy exactly when the state
  is PLAYING and the entity is in its collection, and a particle exactly when it is in the
  collection. At the end of a frame that ran, no dead particle is left.
\<close>

theorem dead_entities_leave_at_the_filter:
  "particles (updateParticles deltaTime g) =
     filter (\<lambda>q. \<not> p_marked q) (map (Particle_update deltaTime) (particles g)) \<and>
   (\<exists>bs es. length bs \<le> 1 \<and> length es \<le> 1 \<and>
      bullets (updateEntities deltaTime p g) =
        filter (\<lambda>b. \<not> markedForDeletion b) (map (Bullet_update deltaTime g) (bullets g @ bs)) \<and>
      enemies (updateEntities deltaTime p g) =
        filter (\<lambda>e. \<not> markedForDeletion e) (map (Enemy_update deltaTime g) (enemies g @ es))) \<and>
   (markedForDeletion b \<longrightarrow> markedForDeletion (Bullet_update deltaTime g b)) \<and>
   (markedForDeletion e \<longrightarrow> markedForDeletion (Enemy_update deltaTime g e)) \<and>
   (p_marked q \<longrightarrow> p_marked (Particle_update deltaTime q)) \<and>
   (isRunning g \<and> \<not> isPaused g \<and> gameState g = PLAYING \<and> player g = Some p \<longrightarrow>
      (\<exists>g4 es. checkCollisions (updateEntities deltaTime p (updateParticles deltaTime (scrollBackground deltaTime g))) = Inr g4 \<and>
            update deltaTime g = Inr (waveProgression g4) \<and>
            length (bullets g4) =
              length (bullets (updateEntities deltaTime p (updateParticles deltaTime (scrollBackground deltaTime g)))) \<and>
            length (enemies g4) =
              length (enemies (updateEntities deltaTime p (updateParticles deltaTime (scrollBackground deltaTime g)))) \<and>
            bullets (waveProgression g4) = bullets g4 \<and>
            enemies (waveProgression g4) = enemies g4 @ es)) \<and>
   (isRunning g \<and> \<not> isPaused g \<and> update deltaTime g = Inr g' \<longrightarrow> (\<forall>q\<in>set (particles g'). \<not> p_marked q)) \<and>
   ((\<not> isRunning g \<or> isPaused g \<or> gameState g \<noteq> PLAYING) \<and> update deltaTime g = Inr g' \<longrightarrow>
      bullets g' = bullets g \<and> enemies g' = enemies g \<and> gameState g' = gameState g) \<and>
   (DrawBullet b \<in> set (draw g) \<longleftrightarrow> gameState g = PLAYING \<and> b \<in> set (bullets g)) \<and>
   (DrawEnemy e \<in> set (draw g) \<longleftrightarrow> gameState g = PLAYING \<and> e \<in> set (enemies g)) \<and>
   (DrawParticle q \<in> set (draw g) \<longleftrightarrow> q \<in> set (particles g))"
proof (intro conjI impI)
  show "markedForDeletion (Bullet_update deltaTime g b)" if "markedForDeletion b"
    using that by (simp add: Bullet_update_def Let_def)
  show "markedForDeletion (Enemy_update deltaTime g e)" if "markedForDeletion e"
    using that by (simp add: Enemy_update_def Let_def)
  show "p_marked (Particle_update deltaTime q)" if "p_marked q"
    using that by (simp add: Particle_update_def Let_def)
  show "particles (updateParticles deltaTime g) =
     filter (\<lambda>q. \<not> p_marked q) (map (Particle_update deltaTime) (particles g))"
    by (simp add: updateParticles_shape)
  show "\<exists>bs es. length bs \<le> 1 \<and> length es \<le> 1 \<and>
      bullets (updateEntities deltaTime p g) =
        filter (\<lambda>b. \<not> markedForDeletion b) (map (Bullet_update deltaTime g) (bullets g @ bs)) \<and>
      enemies (updateEntities deltaTime p g) =
        filter (\<lambda>e. \<not> markedForDeletion e) (map (Enemy_update deltaTime g) (enemies g @ es))"
    by (rule updateEntities_exact)
  show "DrawBullet b \<in> set (draw g) \<longleftrightarrow> gameState g = PLAYING \<and> b \<in> set (bullets g)"
    by (rule draw_iff)
  show "DrawEnemy e \<in> set (draw g) \<longleftrightarrow> gameState g = PLAYING \<and> e \<in> set (enemies g)"
    by (rule draw_iff)
  show "DrawParticle q \<in> set (draw g) \<longleftrightarrow> q \<in> set (particles g)"
    by (rule draw_iff)
  show "\<forall>q\<in>set (particles g'). \<not> p_marked q"
    if "isRunning g \<and> \<not> isPaused g \<and> update deltaTime g = Inr g'"
    using that update_particles_live by blast
  show "bullets g' = bullets g"
    if "(\<not> isRunning g \<or> isPaused g \<or> gameState g \<noteq> PLAYING) \<and> update deltaTime g = Inr g'"
    using that update_leaves_entities by blast
  show "enemies g' = enemies g"
    if "(\<not> isRunning g \<or> isPaused g \<or> gameState g \<noteq> PLAYING) \<and> update deltaTime g = Inr g'"
    using that update_leaves_entities by blast
  show "gameState g' = gameState g"
    if "(\<not> isRunning g \<or> isPaused g \<or> gameState g \<noteq> PLAYING) \<and> update deltaTime g = Inr g'"
    using that update_leaves_entities by blast
next
  let ?g3 = "updateEntities deltaTime p (updateParticles deltaTime (scrollBackground deltaTime g))"
  assume A: "isRunning g \<and> \<not> isPaused g \<and> gameState g = PLAYING \<and> player g = Some p"
  then obtain g4 where g4: "checkCollisions ?g3 = Inr g4" "update deltaTime g = Inr (waveProgression g4)"
    using update_playing [of g p deltaTime] by blast
  have len: "length (bullets g4) = length (bullets ?g3)" "length (enemies g4) = length (enemies ?g3)"
    using checkCollisions_frame_all [OF g4(1)] by simp_all
  obtain es where "bullets (waveProgression g4) = bullets g4" "enemies (waveProgression g4) = enemies g4 @ es"
    using waveProgression_entities [of g4] by blast
  then show "\<exists>g4 es. checkCollisions ?g3 = Inr g4 \<and> update deltaTime g = Inr (waveProgression g4) \<and>
            length (bullets g4) = length (bullets ?g3) \<and>
            length (enemies g4) = length (enemies ?g3) \<and>
            bullets (waveProgression g4) = bullets g4 \<and>
            enemies (waveProgression g4) = enemies g4 @ es"
    using g4 len by blast
qed

lemma demo_game_more_simps [simp]:
  "keys demo_game = (\<lambda>code. False)" "backgroundY demo_game = 0" "rand_pos demo_game = 0"
  by (simp_all add: demo_game_def start_def Game_new_def ui_call_def Let_def)

lemma hit_game_simps [simp]:
  "isRunning hit_game" "\<not> isPaused hit_game" "gameState hit_game = PLAYING"
  "player hit_game = Some demo_player"
  by (simp_all add: hit_game_def field_def)

text \<open>The first frame of \<open>hit_game\<close>, up to the collision pass: the bullet has risen by 6, the Fighter sunk by 0.8.\<close>

lemma hit_game_entities:
  "updateEntities (1 / 100) demo_player (updateParticles (1 / 100) (scrollBackground (1 / 100) hit_game)) =
     (field [Bullet_new 112 110 (- 600)] [(mkEnemy 100 100 Fighter)\<lparr>y := 504 / 5\<rparr>])
       \<lparr>enemyTimer := 999 / 100, backgroundY := 1 / 2\<rparr>"
  apply (simp add: scrollBackground_def updateParticles_def hit_game_def field_def Let_def)
  apply (simp add: updateEntities_def updatePlayer_def)
  apply (simp add: Player_update_def Player_updateManual_def isDown_def Let_def)
  apply (simp add: updateBullets_def updateEnemies_def Bullet_update_def Enemy_update_def Bullet_new_def Let_def)
  done

lemma hit_game_frame:
  "\<exists>g4. checkCollisions (updateEntities (1 / 100) demo_player
            (updateParticles (1 / 100) (scrollBackground (1 / 100) hit_game))) = Inr g4 \<and>
     update (1 / 100) hit_game = Inr (waveProgression g4) \<and>
     gameState (waveProgression g4) = PLAYING \<and>
     length (bullets (waveProgression g4)) = 1 \<and>
     markedForDeletion (bullets (waveProgression g4) ! 0)"
proof -
  let ?g3 = "(field [Bullet_new 112 110 (- 600)] [(mkEnemy 100 100 Fighter)\<lparr>y := 504 / 5\<rparr>])
       \<lparr>enemyTimer := 999 / 100, backgroundY := 1 / 2\<rparr>"
  let ?g1 = "bulletsHitEnemies ?g3"
  obtain g4 where g4': "checkCollisions (updateEntities (1 / 100) demo_player
            (updateParticles (1 / 100) (scrollBackground (1 / 100) hit_game))) = Inr g4"
    and upd: "update (1 / 100) hit_game = Inr (waveProgression g4)"
    using update_playing [OF hit_game_simps, of "1 / 100"] by blast
  note g4 = g4' [unfolded hit_game_entities] upd
  note eff = collision_pass_effect [of ?g3]
  have b: "length (bullets ?g1) = 1" "markedForDeletion (bullets ?g1 ! 0)"
    using eff by (simp_all add: field_def Bullet_new_def checkCollision_iff)
  have e: "length (enemies ?g1) = 1" "geom (enemies ?g1 ! 0) = geom ((mkEnemy 100 100 Fighter)\<lparr>y := 504 / 5\<rparr>)"
    using eff by (simp_all add: field_def)
  have "\<not> checkCollision (enemies ?g1 ! 0) demo_player"
    using checkCollision_geom [OF e(2) refl, of demo_player] by (simp add: checkCollision_iff)
  moreover have "set (enemies ?g1) = {enemies ?g1 ! 0}"
    using e(1) by (cases "enemies ?g1") simp_all
  ultimately have "enemiesHitPlayer demo_player ?g1 = (demo_player, ?g1)"
    by (intro enemiesHitPlayer_none) simp
  moreover have "player ?g1 = Some demo_player" by (simp add: field_def)
  ultimately have "g4 = ?g1\<lparr>player := Some demo_player\<rparr>"
    using g4(1) by (simp add: checkCollisions_def Let_def)
  then have "gameState (waveProgression g4) = PLAYING" "length (bullets (waveProgression g4)) = 1"
    "markedForDeletion (bullets (waveProgression g4) ! 0)"
    using b by (simp_all add: waveProgression_fields field_def)
  then show ?thesis using g4' upd by blast
qed

text \<open>
  The first frame of \<open>rammed_game\<close>: the Scout has moved by (0.5, 1.5) and rams the player,
  whose last 20 hit points go; the frame ends in the state GAME_OVER with the Scout marked
  and still in the collection.
\<close>

lemma rammed_game_simps:
  "isRunning rammed_game" "\<not> isPaused rammed_game" "gameState rammed_game = PLAYING"
  "player rammed_game = Some (demo_player\<lparr>hp := 20\<rparr>)"
  by (simp_all add: rammed_game_def field_def)

lemma rammed_game_entities:
  "updateEntities (1 / 100) (demo_player\<lparr>hp := 20\<rparr>)
     (updateParticles (1 / 100) (scrollBackground (1 / 100) rammed_game)) =
     (field [] [(mkEnemy 380 530 Scout)\<lparr>x := 761 / 2, y := 1063 / 2\<rparr>])
       \<lparr>enemyTimer := 999 / 100, player := Some (demo_player\<lparr>hp := 20\<rparr>), backgroundY := 1 / 2\<rparr>"
  apply (simp add: scrollBackground_def updateParticles_def rammed_game_def field_def Let_def)
  apply (simp add: updateEntities_def updatePlayer_def)
  apply (simp add: Player_update_def Player_updateManual_def isDown_def Let_def)
  apply (simp add: updateBullets_def updateEnemies_def Bullet_update_def Enemy_update_def Let_def)
  done

lemma rammed_game_frame:
  "\<exists>g'. update (1 / 100) rammed_game = Inr g' \<and> isRunning g' \<and> \<not> isPaused g' \<and>
     gameState g' = GAME_OVER \<and> bullets g' = [] \<and>
     enemies g' = [(mkEnemy 380 530 Scout)\<lparr>x := 761 / 2, y := 1063 / 2, markedForDeletion := True\<rparr>]"
proof -
  let ?P = "demo_player\<lparr>hp := 20\<rparr>"
  let ?e = "(mkEnemy 380 530 Scout)\<lparr>x := 761 / 2, y := 1063 / 2\<rparr>"
  let ?g3 = "(field [] [?e])\<lparr>enemyTimer := 999 / 100, player := Some ?P, backgroundY := 1 / 2\<rparr>"
  let ?G1 = "?g3\<lparr>enemies := (enemies ?g3)[0 := (enemies ?g3 ! 0)\<lparr>markedForDeletion := True\<rparr>]\<rparr>"
  obtain g4 where g4': "checkCollisions (updateEntities (1 / 100) ?P
            (updateParticles (1 / 100) (scrollBackground (1 / 100) rammed_game))) = Inr g4"
    and upd: "update (1 / 100) rammed_game = Inr (waveProgression g4)"
    using update_playing [OF rammed_game_simps, of "1 / 100"] by blast
  note g4 = g4' [unfolded rammed_game_entities]
  have b: "bulletsHitEnemies ?g3 = ?g3" by (simp add: bulletsHitEnemies_def field_def)
  have pl: "player ?g3 = Some ?P" by simp
  have hit: "checkCollision (enemies ?g3 ! 0) ?P" by (simp add: field_def checkCollision_iff)
  have loop: "enemiesHitPlayer ?P ?g3 = enemyHitsPlayer 0 (?P, ?g3)"
    by (simp add: enemiesHitPlayer_def field_def)
  have nc: "\<not> cheatMode ?G1" by (simp add: field_def)
  have td: "gameState (snd (Player_takeDamage 20 ?P ?G1)) = GAME_OVER"
    "enemies (snd (Player_takeDamage 20 ?P ?G1)) = [?e\<lparr>markedForDeletion := True\<rparr>]"
    "bullets (snd (Player_takeDamage 20 ?P ?G1)) = []"
    "score (snd (Player_takeDamage 20 ?P ?G1)) = 0"
    "wave (snd (Player_takeDamage 20 ?P ?G1)) = 1"
    "isRunning (snd (Player_takeDamage 20 ?P ?G1))" "\<not> isPaused (snd (Player_takeDamage 20 ?P ?G1))"
    unfolding Player_takeDamage_manual [OF nc] by (simp_all add: field_def)
  have eq: "g4 = (snd (enemiesHitPlayer ?P ?g3))\<lparr>player := Some (fst (enemiesHitPlayer ?P ?g3))\<rparr>"
    using checkCollisions_Some [OF pl] g4 b by simp
  have fields: "gameState g4 = GAME_OVER" "enemies g4 = [?e\<lparr>markedForDeletion := True\<rparr>]"
    "bullets g4 = []" "score g4 = 0" "wave g4 = 1" "isRunning g4" "\<not> isPaused g4"
    unfolding eq loop enemyHitsPlayer_hit_eq [OF hit] using td by simp_all
  have "waveProgression g4 = g4" using fields(4,5) by (simp add: waveProgression_def)
  then show ?thesis using upd fields by simp
qed

text \<open>
  The first frame of \<open>hit_game\<close>: the collision pass is handed one bullet, and the frame
  ends with one bullet in the collection and no dead particle; the bullet of \<open>hit_game\<close>
  is drawn; a marked bullet, enemy or particle stays marked under \<^verbatim>\<open>update\<close>. The first
  frame of \<open>rammed_game\<close> ends in the state GAME_OVER: the marked Scout is not drawn, and
  the next frame leaves it in the collection.
\<close>

theorem dead_entities_leave_at_the_filter_witness:
  "(\<exists>g4. checkCollisions (updateEntities (1 / 100) demo_player
            (updateParticles (1 / 100) (scrollBackground (1 / 100) hit_game))) = Inr g4 \<and>
     update (1 / 100) hit_game = Inr (waveProgression g4) \<and>
     length (bullets (waveProgression g4)) = 1 \<and> length (enemies g4) = 1 \<and>
     filter p_marked (particles (waveProgression g4)) = []) \<and>
   DrawBullet (Bullet_new 112 116 (- 600)) \<in> set (draw hit_game) \<and>
   markedForDeletion (Bullet_update (1 / 100) hit_game ((Bullet_new 112 116 (- 600))\<lparr>markedForDeletion := True\<rparr>)) \<and>
   markedForDeletion (Enemy_update (1 / 100) hit_game ((mkEnemy 100 100 Fighter)\<lparr>markedForDeletion := True\<rparr>)) \<and>
   p_marked (Particle_update (1 / 100) (demo_particle\<lparr>p_marked := True\<rparr>)) \<and>
   (\<exists>g'. update (1 / 100) rammed_game = Inr g' \<and> gameState g' = GAME_OVER \<and>
      enemies g' = [(mkEnemy 380 530 Scout)\<lparr>x := 761 / 2, y := 1063 / 2, markedForDeletion := True\<rparr>] \<and>
      DrawEnemy ((mkEnemy 380 530 Scout)\<lparr>x := 761 / 2, y := 1063 / 2, markedForDeletion := True\<rparr>) \<notin> set (draw g') \<and>
      (\<exists>g''. update (1 / 100) g' = Inr g'' \<and> enemies g'' = enemies g' \<and> gameState g'' = GAME_OVER))"
proof -
  let ?g3 = "updateEntities (1 / 100) demo_player
            (updateParticles (1 / 100) (scrollBackground (1 / 100) hit_game))"
  let ?b = "Bullet_new 112 116 (- 600)"
  let ?bm = "?b\<lparr>markedForDeletion := True\<rparr>"
  let ?em = "(mkEnemy 100 100 Fighter)\<lparr>markedForDeletion := True\<rparr>"
  let ?qm = "demo_particle\<lparr>p_marked := True\<rparr>"
  let ?s = "(mkEnemy 380 530 Scout)\<lparr>x := 761 / 2, y := 1063 / 2, markedForDeletion := True\<rparr>"
  have hyp: "isRunning hit_game \<and> \<not> isPaused hit_game \<and> gameState hit_game = PLAYING \<and>
        player hit_game = Some demo_player"
    using hit_game_simps by blast
  then obtain g4 es where g4: "checkCollisions ?g3 = Inr g4" "update (1 / 100) hit_game = Inr (waveProgression g4)"
    "length (bullets g4) = length (bullets ?g3)"
    "length (enemies g4) = length (enemies ?g3)"
    "bullets (waveProgression g4) = bullets g4" "enemies (waveProgression g4) = enemies g4 @ es"
    using dead_entities_leave_at_the_filter [of "1 / 100" hit_game demo_player ?bm ?em ?qm hit_game] by blast
  note inst = dead_entities_leave_at_the_filter
    [of "1 / 100" hit_game demo_player ?bm ?em ?qm "waveProgression g4"]
  have "\<forall>q\<in>set (particles (waveProgression g4)). \<not> p_marked q"
    using inst hyp g4(2) by blast
  then have live: "filter p_marked (particles (waveProgression g4)) = []"
    by (simp add: filter_empty_conv)
  have "?b \<in> set (bullets hit_game)" by (simp add: hit_game_def field_def)
  then have drawn: "DrawBullet ?b \<in> set (draw hit_game)"
    using dead_entities_leave_at_the_filter [of "1 / 100" hit_game demo_player ?b ?em ?qm hit_game] hyp
    by blast
  have "markedForDeletion ?bm" "markedForDeletion ?em" "p_marked ?qm" by simp_all
  then have again: "markedForDeletion (Bullet_update (1 / 100) hit_game ?bm)"
    "markedForDeletion (Enemy_update (1 / 100) hit_game ?em)"
    "p_marked (Particle_update (1 / 100) ?qm)"
    using inst by blast+
  have one: "length (bullets ?g3) = 1" "length (enemies ?g3) = 1"
    unfolding hit_game_entities by (simp_all add: field_def)
  have first: "\<exists>g4. checkCollisions ?g3 = Inr g4 \<and> update (1 / 100) hit_game = Inr (waveProgression g4) \<and>
     length (bullets (waveProgression g4)) = 1 \<and> length (enemies g4) = 1 \<and>
     filter p_marked (particles (waveProgression g4)) = []"
    using g4 live one by auto
  obtain r where r: "update (1 / 100) rammed_game = Inr r" "isRunning r" "\<not> isPaused r"
    "gameState r = GAME_OVER" "enemies r = [?s]"
    using rammed_game_frame by blast
  have np: "gameState r \<noteq> PLAYING" using r(4) by simp
  obtain r' where r': "update (1 / 100) r = Inr r'"
    using update_not_playing [OF r(2,3) np] by blast
  note instr = dead_entities_leave_at_the_filter [of "1 / 100" r demo_player ?bm ?s ?qm r']
  have keep: "enemies r' = enemies r" "gameState r' = GAME_OVER"
    using instr np r' r(4) by auto
  have undrawn: "DrawEnemy ?s \<notin> set (draw r)" using instr np by blast
  have second: "\<exists>g'. update (1 / 100) rammed_game = Inr g' \<and> gameState g' = GAME_OVER \<and>
      enemies g' = [?s] \<and> DrawEnemy ?s \<notin> set (draw g') \<and>
      (\<exists>g''. update (1 / 100) g' = Inr g'' \<and> enemies g'' = enemies g' \<and> gameState g'' = GAME_OVER)"
    using r r' keep undrawn by blast
  show ?thesis using first drawn again second by blast
qed

text \<open>
  The sentence of the specification does not hold of the code: the bullet of
  \<open>hit_game\<close> hits the Fighter in the first frame; at the end of that frame it
  is marked dead, still in its collection, and drawn.
\<close>

theorem dead_bullet_drawn_counterexample:
  "\<exists>g'. update (1 / 100) hit_game = Inr g' \<and> gameState g' = PLAYING \<and>
      length (bullets g') = 1 \<and> markedForDeletion (bullets g' ! 0) \<and>
      DrawBullet (bullets g' ! 0) \<in> set (draw g')"
proof -
  obtain g4 where g4: "update (1 / 100) hit_game = Inr (waveProgression g4)"
    "gameState (waveProgression g4) = PLAYING" "length (bullets (waveProgression g4)) = 1"
    "markedForDeletion (bullets (waveProgression g4) ! 0)"
    using hit_game_frame by blast
  then have "bullets (waveProgression g4) ! 0 \<in> set (bullets (waveProgression g4))" by simp
  then have "DrawBullet (bullets (waveProgression g4) ! 0) \<in> set (draw (waveProgression g4))"
    using g4(2) by (rule draw_members(1) [rotated])
  then show ?thesis using g4 by blast
qed

end
